(* ===== verification/Rust_Prelude.thy ===== *)
theory Rust_Prelude
  imports Main "HOL-Library.Word" "HOL-Library.Multiset"
begin

text \<open>
  What the components share: the Rust integer types at their width with the
  checked operations of the standard library, \<open>Result\<close> as a sum type with
  the error on the left, the \<open>?\<close> operator as \<open>and_then\<close>, decimal text of
  integers, and the collections of rewrite rules the component theories extend.
\<close>

named_theorems result_simps \<open>equations that take a Result apart\<close>
named_theorems word_simps \<open>facts that move machine integers to naturals\<close>

section \<open>Machine integers\<close>

type_synonym u8 = "8 word"
type_synonym u16 = "16 word"
type_synonym u32 = "32 word"
type_synonym u64 = "64 word"
type_synonym u128 = "128 word"

abbreviation u64_MAX :: u64 where "u64_MAX \<equiv> - 1"
abbreviation u32_MAX :: u32 where "u32_MAX \<equiv> - 1"

definition checked_add :: "'a::len word \<Rightarrow> 'a word \<Rightarrow> 'a word option" where
  "checked_add a b = (if unat a + unat b < 2 ^ LENGTH('a) then Some (a + b) else None)"

definition checked_sub :: "'a::len word \<Rightarrow> 'a word \<Rightarrow> 'a word option" where
  "checked_sub a b = (if b \<le> a then Some (a - b) else None)"

definition checked_mul :: "'a::len word \<Rightarrow> 'a word \<Rightarrow> 'a word option" where
  "checked_mul a b = (if unat a * unat b < 2 ^ LENGTH('a) then Some (a * b) else None)"

definition try_from :: "'a::len word \<Rightarrow> 'b::len word option" where
  "try_from x = (if unat x < 2 ^ LENGTH('b) then Some (ucast x) else None)"

section \<open>Result\<close>

type_synonym ('a, 'e) result = "'e + 'a"

abbreviation Ok :: "'a \<Rightarrow> ('a, 'e) result" where "Ok \<equiv> Inr"
abbreviation Err :: "'e \<Rightarrow> ('a, 'e) result" where "Err \<equiv> Inl"

fun and_then :: "('a, 'e) result \<Rightarrow> ('a \<Rightarrow> ('b, 'e) result) \<Rightarrow> ('b, 'e) result" where
  "and_then (Inr x) f = f x"
| "and_then (Inl e) f = Inl e"

fun map_err :: "('e \<Rightarrow> 'g) \<Rightarrow> ('a, 'e) result \<Rightarrow> ('a, 'g) result" where
  "map_err f (Inr x) = Inr x"
| "map_err f (Inl e) = Inl (f e)"

fun map_ok :: "('a \<Rightarrow> 'b) \<Rightarrow> ('a, 'e) result \<Rightarrow> ('b, 'e) result" where
  "map_ok f (Inr x) = Inr (f x)"
| "map_ok f (Inl e) = Inl e"

fun ok_or :: "'a option \<Rightarrow> 'e \<Rightarrow> ('a, 'e) result" where
  "ok_or (Some x) e = Inr x"
| "ok_or None e = Inl e"

fun unwrap_or :: "'a option \<Rightarrow> 'a \<Rightarrow> 'a" where
  "unwrap_or (Some x) d = x"
| "unwrap_or None d = d"

fun is_ok :: "('a, 'e) result \<Rightarrow> bool" where
  "is_ok (Inr x) = True"
| "is_ok (Inl e) = False"

definition ensure :: "bool \<Rightarrow> 'e \<Rightarrow> (unit, 'e) result" where
  "ensure b e = (if b then Inr () else Inl e)"

fun collect_results :: "('a \<Rightarrow> ('b, 'e) result) \<Rightarrow> 'a list \<Rightarrow> ('b list, 'e) result" where
  "collect_results f [] = Inr []"
| "collect_results f (x # xs) =
     and_then (f x) (\<lambda>y. and_then (collect_results f xs) (\<lambda>ys. Inr (y # ys)))"

section \<open>Decimal text\<close>

definition digit_char :: "nat \<Rightarrow> char" where
  "digit_char d = char_of (48 + d)"

fun decimal_of_nat :: "nat \<Rightarrow> string" where
  "decimal_of_nat n =
     (if n < 10 then [digit_char n] else decimal_of_nat (n div 10) @ [digit_char (n mod 10)])"

declare decimal_of_nat.simps [simp del]

definition decimal_of_int :: "int \<Rightarrow> string" where
  "decimal_of_int i =
     (if i < 0 then CHR ''-'' # decimal_of_nat (nat (- i)) else decimal_of_nat (nat i))"

section \<open>Facts\<close>

lemma unat_u64_MAX [simp]: "unat u64_MAX = 18446744073709551615"
  by (simp add: unsigned_minus_1_eq_mask mask_eq_exp_minus_1)

lemma unat_u32_MAX [simp]: "unat u32_MAX = 4294967295"
  by (simp add: unsigned_minus_1_eq_mask mask_eq_exp_minus_1)

lemma unat_u64_less: "unat (x :: u64) < 18446744073709551616"
  using unsigned_less [of x, where 'a = nat] by simp

lemma unat_u32_less: "unat (x :: u32) < 4294967296"
  using unsigned_less [of x, where 'a = nat] by simp

lemma unat_u8_less: "unat (x :: u8) < 256"
  using unsigned_less [of x, where 'a = nat] by simp

lemma checked_add_Some [word_simps]:
  "checked_add a b = Some c \<longleftrightarrow> unat c = unat a + unat b"
  unfolding checked_add_def
  by (metis option.inject option.simps(3) unsigned_less unat_add_lem word_unat_eq_iff)

lemma checked_add_None [word_simps]:
  fixes a b :: "'a::len word"
  shows "checked_add a b = None \<longleftrightarrow> 2 ^ LENGTH('a) \<le> unat a + unat b"
  by (auto simp: checked_add_def)

lemma checked_succ_None: "checked_add a 1 = None \<longleftrightarrow> a = u64_MAX"
proof -
  have "unat a < 18446744073709551616"
    using unsigned_less [of a] by simp
  then show ?thesis
    by (auto simp: checked_add_None word_unat_eq_iff)
qed

lemma checked_succ_Some:
  fixes a g :: u64
  assumes "checked_add a 1 = Some g"
  shows "a < g" "g - 1 = a" "0 < g" "unat g = unat a + 1"
proof -
  show g: "unat g = unat a + 1"
    using assms by (simp add: checked_add_Some)
  then show "a < g" "0 < g"
    by (simp_all add: word_less_nat_alt)
  have "g = a + 1"
    using assms by (simp add: checked_add_def split: if_splits)
  then show "g - 1 = a"
    by simp
qed

lemma checked_sub_Some [word_simps]:
  "checked_sub a b = Some c \<longleftrightarrow> unat c + unat b = unat a"
proof -
  have "b \<le> a \<Longrightarrow> unat (a - b) + unat b = unat a"
    by (metis le_add_diff_inverse2 unat_sub word_le_nat_alt)
  moreover have "unat c + unat b = unat a \<Longrightarrow> b \<le> a \<and> c = a - b"
    by (metis add_diff_cancel_right' le_add2 unat_sub word_le_nat_alt word_unat_eq_iff)
  ultimately show ?thesis
    by (auto simp: checked_sub_def)
qed

lemma checked_sub_None [word_simps]: "checked_sub a b = None \<longleftrightarrow> unat a < unat b"
  by (auto simp: checked_sub_def word_le_nat_alt)

lemma checked_mul_Some [word_simps]:
  "checked_mul a b = Some c \<longleftrightarrow> unat c = unat a * unat b"
  unfolding checked_mul_def
  by (metis option.inject option.simps(3) unsigned_less unat_mult_lem word_unat_eq_iff)

lemma checked_mul_None [word_simps]:
  fixes a b :: "'a::len word"
  shows "checked_mul a b = None \<longleftrightarrow> 2 ^ LENGTH('a) \<le> unat a * unat b"
  by (auto simp: checked_mul_def)

lemma try_from_Some [word_simps]:
  fixes x :: "'a::len word" and y :: "'b::len word"
  shows "try_from x = Some y \<longleftrightarrow> unat y = unat x"
proof -
  have "unat x < 2 ^ LENGTH('b) \<Longrightarrow> unat (ucast x :: 'b word) = unat x"
    by (simp add: unsigned_ucast_eq take_bit_nat_eq_self)
  then show ?thesis
    unfolding try_from_def
    by (metis option.inject option.simps(3) unsigned_less word_unat_eq_iff)
qed

lemma try_from_None [word_simps]:
  fixes x :: "'a::len word"
  shows "(try_from x :: 'b::len word option) = None \<longleftrightarrow> 2 ^ LENGTH('b) \<le> unat x"
  by (auto simp: try_from_def)

lemma and_then_cong [fundef_cong]:
  "m = m' \<Longrightarrow> (\<And>x. m' = Inr x \<Longrightarrow> f x = f' x) \<Longrightarrow> and_then m f = and_then m' f'"
  by (cases m') auto

lemma and_then_Ok [result_simps]:
  "and_then m f = Inr y \<longleftrightarrow> (\<exists>x. m = Inr x \<and> f x = Inr y)"
  by (cases m) auto

lemma and_then_Err [result_simps]:
  "and_then m f = Inl e \<longleftrightarrow> m = Inl e \<or> (\<exists>x. m = Inr x \<and> f x = Inl e)"
  by (cases m) auto

lemma map_err_Ok [result_simps]: "map_err f m = Inr y \<longleftrightarrow> m = Inr y"
  by (cases m) auto

lemma map_err_Err [result_simps]: "map_err f m = Inl e \<longleftrightarrow> (\<exists>d. m = Inl d \<and> e = f d)"
  by (cases m) auto

lemma map_ok_Ok [result_simps]: "map_ok f m = Inr y \<longleftrightarrow> (\<exists>x. m = Inr x \<and> y = f x)"
  by (cases m) auto

lemma map_ok_Err [result_simps]: "map_ok f m = Inl e \<longleftrightarrow> m = Inl e"
  by (cases m) auto

lemma ok_or_Ok [result_simps]: "ok_or m e = Inr y \<longleftrightarrow> m = Some y"
  by (cases m) auto

lemma ok_or_Err [result_simps]: "ok_or m e = Inl d \<longleftrightarrow> m = None \<and> d = e"
  by (cases m) auto

lemma ensure_Ok [result_simps]: "ensure b e = Inr u \<longleftrightarrow> b"
  by (simp add: ensure_def)

lemma ensure_Err [result_simps]: "ensure b e = Inl d \<longleftrightarrow> \<not> b \<and> d = e"
  by (auto simp: ensure_def)

lemma ensure_simps [simp]: "ensure True e = Inr ()" "ensure False e = Inl e"
  by (simp_all add: ensure_def)

lemma is_ok_iff [result_simps]: "is_ok m \<longleftrightarrow> (\<exists>x. m = Inr x)"
  by (cases m) auto

lemma collect_results_Ok [result_simps]:
  "collect_results f xs = Inr ys \<longleftrightarrow> list_all2 (\<lambda>x y. f x = Inr y) xs ys"
  by (induction xs arbitrary: ys) (auto simp: and_then_Ok list_all2_Cons1)

lemma collect_results_map:
  "(\<And>x. x \<in> set xs \<Longrightarrow> f x = Inr (g x)) \<Longrightarrow> collect_results f xs = Inr (map g xs)"
  by (induction xs) auto

lemma collect_results_cong [fundef_cong]:
  "xs = xs' \<Longrightarrow> (\<And>x. x \<in> set xs' \<Longrightarrow> f x = f' x) \<Longrightarrow> collect_results f xs = collect_results f' xs'"
  by (induction xs' arbitrary: xs) auto

end
