(* ===== verification/Native_Error.thy ===== *)
theory Native_Error
  imports Rust_Prelude
begin

text \<open>
  The structured error contract of \<open>error.rs\<close>: the package-owned codes, the
  transported record, and the classification of upstream errors.

  The upstream error enums are given by the variants the source matches on;
  payloads the source never reads are text.  An \<open>anyhow::Error\<close> is the typed
  value it carries, possibly below context messages; \<open>downcast_ref\<close> looks
  through the contexts.  The texts and kind names upstream gives its errors
  (\<open>WalletError::kind\<close>, \<open>Display\<close>, the static name of a \<open>JsonRPCError\<close>,
  the alternate format of \<open>anyhow\<close>) are the fields of a parameter.
\<close>

section \<open>Package-owned contract\<close>

datatype native_xelis_error_source =
  XelisWalletFlutter | XelisWallet | XelisCommon | Dependency | Unknown

datatype native_xelis_error_code =
  InvalidInput | Offline | Network | RemoteRejected | InsufficientFunds | Conflict
| NotFound | Unsupported | Storage | Serialization | Initialization | Internal
| AuthenticationOrCorruptData | NetworkMismatch | Cancelled | OperationInProgress
| OperationFailed | StreamLagged | StreamClosedUnexpectedly

record native_xelis_error =
  ne_version :: u16
  ne_source :: native_xelis_error_source
  ne_code :: native_xelis_error_code
  ne_native_kind :: "string option"
  ne_native_code :: "int option"
  ne_diagnostic_message :: string

definition NATIVE_XELIS_ERROR_VERSION :: u16 where
  "NATIVE_XELIS_ERROR_VERSION = 1"

definition new_native_error ::
  "native_xelis_error_source \<Rightarrow> native_xelis_error_code \<Rightarrow> string option \<Rightarrow> int option \<Rightarrow> string
   \<Rightarrow> native_xelis_error" where
  "new_native_error src code native_kind native_code diagnostic_message =
     \<lparr> ne_version = NATIVE_XELIS_ERROR_VERSION, ne_source = src, ne_code = code,
       ne_native_kind = native_kind, ne_native_code = native_code,
       ne_diagnostic_message = diagnostic_message \<rparr>"

definition xelis_wallet_error ::
  "native_xelis_error_code \<Rightarrow> string \<Rightarrow> string \<Rightarrow> native_xelis_error" where
  "xelis_wallet_error code native_kind msg =
     new_native_error XelisWallet code (Some native_kind) None msg"

definition xelis_common_error ::
  "native_xelis_error_code \<Rightarrow> string \<Rightarrow> string \<Rightarrow> native_xelis_error" where
  "xelis_common_error code native_kind msg =
     new_native_error XelisCommon code (Some native_kind) None msg"

definition xelis_wallet_flutter_error ::
  "native_xelis_error_code \<Rightarrow> string \<Rightarrow> string \<Rightarrow> native_xelis_error" where
  "xelis_wallet_flutter_error code native_kind msg =
     new_native_error XelisWalletFlutter code (Some native_kind) None msg"

definition dependency_error ::
  "native_xelis_error_code \<Rightarrow> string \<Rightarrow> string \<Rightarrow> native_xelis_error" where
  "dependency_error code native_kind msg =
     new_native_error Dependency code (Some native_kind) None msg"

section \<open>Upstream errors\<close>

datatype mnemonics_error =
  InvalidWordsCount | InvalidChecksum | InvalidChecksumIndex | InvalidLanguageIndex
| InvalidLanguage | UnknownWord string nat | InvalidKeySize | InvalidKeyFromBytes
| InvalidChecksumCalculation | NoIndicesFound | WordListSanityCheckError | OutOfBounds

datatype reader_error =
  ReaderInvalidSize | ReaderInvalidValue | ReaderInvalidHex | ReaderErrorTryInto
| ReaderTrailingBytes | ReaderTryFromSliceError string | ReaderAny string

datatype proof_generation_error = ProofInsufficientFunds | ProofOther string

datatype generation_error = GenerationProof proof_generation_error | GenerationOther string

datatype pending_multisig_error =
  PendingAlreadyPending | PendingGenerationOverflow | PendingNotFound | PendingRequestMismatch

datatype anyhow_error =
  AnyJsonRpc json_rpc_error
| AnyWallet wallet_error
| AnyMnemonics mnemonics_error
| AnyReader reader_error
| AnyPendingMultisig pending_multisig_error
| AnyOther string
| AnyContext string anyhow_error
and json_rpc_error =
  RpcNoResponse string string | RpcTimedOut string | RpcHttpError string
| RpcConnectionError string | RpcSocketError string | RpcSendError string string
| RpcInvalidBatch | RpcMissingResult | RpcSerializationError string | RpcEventNotRegistered
| RpcAny anyhow_error
| RpcParseError | RpcInvalidRequest | RpcMethodNotFound | RpcInvalidParams
| RpcInternalError string "string option"
| RpcServerError int string "string option"
and network_error =
  NetAlreadyRunning | NetNotRunning | NetTaskError string | NetDaemonAPIError anyhow_error
| NetNetworkMismatch
and wallet_error =
  WAny anyhow_error string
| WNetworkError network_error
| WNotOnlineMode | WNoNetworkHandler | WNoAPIServer | WRPCServerNotRunning
| WAlreadyOnlineMode | WAssetAlreadyRegistered | WRPCServerAlreadyRunning | WTxNotBuilt
| WNotEnoughFunds string | WNotEnoughFundsForFee string
| WProofGenerationError proof_generation_error | WGenerationError generation_error
| WAssetNotTracked string | WBalanceNotFound string
| WDatabaseError string
| WInvalidEncryptedValue | WNoSalt | WNoMasterKeyFound | WNoPasswordSaltFound
| WInvalidSaltSize | WNoSaltFound
| WNoHandlerAvailable | WUnsupported
| WAEADCipherFormatError string | WDecompressionError string
| WInvalidDatetime | WTransactionTooBig string | WInvalidKeyPair | WInvalidSignature
| WExpectedOneTx | WTooManyTx | WTxOwnerIsReceiver | WInvalidAddressParams
| WExtraDataTooBig string | WRescanTopoheightTooHigh | WInvalidFeeProvided string
| WEmptyName | WNotTransactionSigner
| WCipher | WCryptoError string | WAlgorithmHashingError string | WCiphertextDecode
| WNonceGeneration | WPoisonError | WSemaphoreError string

record upstream_text =
  wallet_kind :: "wallet_error \<Rightarrow> string"
  wallet_text :: "wallet_error \<Rightarrow> string"
  rpc_kind :: "json_rpc_error \<Rightarrow> string"
  rpc_text :: "json_rpc_error \<Rightarrow> string"
  anyhow_text :: "anyhow_error \<Rightarrow> string"

fun downcast_json_rpc :: "anyhow_error \<Rightarrow> json_rpc_error option" where
  "downcast_json_rpc (AnyJsonRpc e) = Some e"
| "downcast_json_rpc (AnyContext msg e) = downcast_json_rpc e"
| "downcast_json_rpc _ = None"

fun downcast_wallet :: "anyhow_error \<Rightarrow> wallet_error option" where
  "downcast_wallet (AnyWallet e) = Some e"
| "downcast_wallet (AnyContext msg e) = downcast_wallet e"
| "downcast_wallet _ = None"

fun downcast_mnemonics :: "anyhow_error \<Rightarrow> mnemonics_error option" where
  "downcast_mnemonics (AnyMnemonics e) = Some e"
| "downcast_mnemonics (AnyContext msg e) = downcast_mnemonics e"
| "downcast_mnemonics _ = None"

fun downcast_reader :: "anyhow_error \<Rightarrow> reader_error option" where
  "downcast_reader (AnyReader e) = Some e"
| "downcast_reader (AnyContext msg e) = downcast_reader e"
| "downcast_reader _ = None"

fun downcast_pending_multisig :: "anyhow_error \<Rightarrow> pending_multisig_error option" where
  "downcast_pending_multisig (AnyPendingMultisig e) = Some e"
| "downcast_pending_multisig (AnyContext msg e) = downcast_pending_multisig e"
| "downcast_pending_multisig _ = None"

end
