(* ===== verification/Error_Classification.thy ===== *)
theory Error_Classification
  imports Native_Error
begin

text \<open>
  The classification half of \<open>error.rs\<close>: from an upstream error to the
  package-owned source, code, kind name and native code, the diagnostics, and
  the constructors every bridge operation uses at its boundary.
\<close>

section \<open>Classification\<close>

record native_error_classification =
  cl_source :: native_xelis_error_source
  cl_code :: native_xelis_error_code
  cl_native_kind :: "string option"
  cl_native_code :: "int option"

datatype wallet_operation_error_policy = PolicyStandard | PolicyAuthentication

definition native_kind_option :: "string \<Rightarrow> string option" where
  "native_kind_option native_kind =
     (if native_kind \<noteq> ''UNSPECIFIED'' then Some native_kind else None)"

definition typed_classification ::
  "native_xelis_error_source \<Rightarrow> native_xelis_error_code \<Rightarrow> string \<Rightarrow> native_error_classification"
where
  "typed_classification src code native_kind =
     \<lparr> cl_source = src, cl_code = code, cl_native_kind = native_kind_option native_kind,
       cl_native_code = None \<rparr>"

text \<open>The two matches at the end of \<open>classify_json_rpc_error\<close>: code and native code of a variant.\<close>

fun json_rpc_code :: "json_rpc_error \<Rightarrow> native_xelis_error_code" where
  "json_rpc_code (RpcNoResponse _ _) = Network"
| "json_rpc_code (RpcTimedOut _) = Network"
| "json_rpc_code (RpcHttpError _) = Network"
| "json_rpc_code (RpcConnectionError _) = Network"
| "json_rpc_code (RpcSocketError _) = Network"
| "json_rpc_code (RpcSendError _ _) = Network"
| "json_rpc_code RpcInvalidBatch = Serialization"
| "json_rpc_code RpcMissingResult = Serialization"
| "json_rpc_code (RpcSerializationError _) = Serialization"
| "json_rpc_code RpcEventNotRegistered = NotFound"
| "json_rpc_code (RpcAny _) = Internal"
| "json_rpc_code RpcParseError = RemoteRejected"
| "json_rpc_code RpcInvalidRequest = RemoteRejected"
| "json_rpc_code RpcMethodNotFound = RemoteRejected"
| "json_rpc_code RpcInvalidParams = RemoteRejected"
| "json_rpc_code (RpcInternalError _ _) = RemoteRejected"
| "json_rpc_code (RpcServerError _ _ _) = RemoteRejected"

fun json_rpc_native_code :: "json_rpc_error \<Rightarrow> int option" where
  "json_rpc_native_code RpcParseError = Some (-32700)"
| "json_rpc_native_code RpcInvalidRequest = Some (-32600)"
| "json_rpc_native_code RpcMethodNotFound = Some (-32601)"
| "json_rpc_native_code RpcInvalidParams = Some (-32602)"
| "json_rpc_native_code (RpcInternalError _ _) = Some (-32603)"
| "json_rpc_native_code (RpcServerError code _ _) = Some code"
| "json_rpc_native_code _ = None"

definition json_rpc_classification ::
  "upstream_text \<Rightarrow> json_rpc_error \<Rightarrow> native_error_classification" where
  "json_rpc_classification up e =
     \<lparr> cl_source = XelisCommon, cl_code = json_rpc_code e,
       cl_native_kind = native_kind_option (rpc_kind up e),
       cl_native_code = json_rpc_native_code e \<rparr>"

text \<open>The arms of \<open>classify_wallet_error\<close> that do not look into a nested error.\<close>

definition wallet_error_class ::
  "wallet_error \<Rightarrow> native_xelis_error_source \<times> native_xelis_error_code" where
  "wallet_error_class w = (case w of
     WNotOnlineMode \<Rightarrow> (XelisWallet, Offline)
   | WNoNetworkHandler \<Rightarrow> (XelisWallet, Offline)
   | WNoAPIServer \<Rightarrow> (XelisWallet, Offline)
   | WRPCServerNotRunning \<Rightarrow> (XelisWallet, Offline)
   | WAlreadyOnlineMode \<Rightarrow> (XelisWallet, Conflict)
   | WAssetAlreadyRegistered \<Rightarrow> (XelisWallet, Conflict)
   | WRPCServerAlreadyRunning \<Rightarrow> (XelisWallet, Conflict)
   | WTxNotBuilt \<Rightarrow> (XelisWallet, Conflict)
   | WNotEnoughFunds _ \<Rightarrow> (XelisWallet, InsufficientFunds)
   | WNotEnoughFundsForFee _ \<Rightarrow> (XelisWallet, InsufficientFunds)
   | WProofGenerationError ProofInsufficientFunds \<Rightarrow> (XelisCommon, InsufficientFunds)
   | WGenerationError (GenerationProof ProofInsufficientFunds) \<Rightarrow> (XelisCommon, InsufficientFunds)
   | WAssetNotTracked _ \<Rightarrow> (XelisWallet, NotFound)
   | WBalanceNotFound _ \<Rightarrow> (XelisWallet, NotFound)
   | WDatabaseError _ \<Rightarrow> (XelisWallet, Storage)
   | WInvalidEncryptedValue \<Rightarrow> (XelisWallet, AuthenticationOrCorruptData)
   | WNoSalt \<Rightarrow> (XelisWallet, AuthenticationOrCorruptData)
   | WNoMasterKeyFound \<Rightarrow> (XelisWallet, AuthenticationOrCorruptData)
   | WNoPasswordSaltFound \<Rightarrow> (XelisWallet, AuthenticationOrCorruptData)
   | WInvalidSaltSize \<Rightarrow> (XelisWallet, AuthenticationOrCorruptData)
   | WNoSaltFound \<Rightarrow> (XelisWallet, AuthenticationOrCorruptData)
   | WNoHandlerAvailable \<Rightarrow> (XelisWallet, Unsupported)
   | WUnsupported \<Rightarrow> (XelisWallet, Unsupported)
   | WAEADCipherFormatError _ \<Rightarrow> (XelisCommon, InvalidInput)
   | WGenerationError _ \<Rightarrow> (XelisCommon, InvalidInput)
   | WProofGenerationError _ \<Rightarrow> (XelisCommon, InvalidInput)
   | WDecompressionError _ \<Rightarrow> (XelisCommon, InvalidInput)
   | WInvalidDatetime \<Rightarrow> (XelisWallet, InvalidInput)
   | WTransactionTooBig _ \<Rightarrow> (XelisWallet, InvalidInput)
   | WInvalidKeyPair \<Rightarrow> (XelisWallet, InvalidInput)
   | WInvalidSignature \<Rightarrow> (XelisWallet, InvalidInput)
   | WExpectedOneTx \<Rightarrow> (XelisWallet, InvalidInput)
   | WTooManyTx \<Rightarrow> (XelisWallet, InvalidInput)
   | WTxOwnerIsReceiver \<Rightarrow> (XelisWallet, InvalidInput)
   | WInvalidAddressParams \<Rightarrow> (XelisWallet, InvalidInput)
   | WExtraDataTooBig _ \<Rightarrow> (XelisWallet, InvalidInput)
   | WRescanTopoheightTooHigh \<Rightarrow> (XelisWallet, InvalidInput)
   | WInvalidFeeProvided _ \<Rightarrow> (XelisWallet, InvalidInput)
   | WEmptyName \<Rightarrow> (XelisWallet, InvalidInput)
   | WNotTransactionSigner \<Rightarrow> (XelisWallet, InvalidInput)
   | _ \<Rightarrow> (XelisWallet, Internal))"

lemma downcast_json_rpc_size: "downcast_json_rpc e = Some r \<Longrightarrow> size r < size e"
  by (induction e rule: downcast_json_rpc.induct) auto

lemma downcast_wallet_size: "downcast_wallet e = Some w \<Longrightarrow> size w < size e"
  by (induction e rule: downcast_wallet.induct) auto

function classify_anyhow_error_with_policy ::
  "upstream_text \<Rightarrow> anyhow_error \<Rightarrow> wallet_operation_error_policy \<Rightarrow> native_error_classification option"
and classify_wallet_error_with_policy ::
  "upstream_text \<Rightarrow> wallet_error \<Rightarrow> wallet_operation_error_policy \<Rightarrow> native_error_classification"
and classify_wallet_error :: "upstream_text \<Rightarrow> wallet_error \<Rightarrow> native_error_classification"
and classify_network_error :: "upstream_text \<Rightarrow> network_error \<Rightarrow> native_error_classification"
and classify_json_rpc_error :: "upstream_text \<Rightarrow> json_rpc_error \<Rightarrow> native_error_classification"
where
  "classify_anyhow_error_with_policy up e policy =
     (case downcast_json_rpc e of
        Some r \<Rightarrow> Some (classify_json_rpc_error up r)
      | None \<Rightarrow>
          (case downcast_wallet e of
             Some w \<Rightarrow> Some (classify_wallet_error_with_policy up w policy)
           | None \<Rightarrow> None))"
| "classify_wallet_error_with_policy up w policy =
     (case w of
        WCryptoError _ \<Rightarrow>
          (if policy = PolicyAuthentication
           then typed_classification XelisWallet AuthenticationOrCorruptData (wallet_kind up w)
           else classify_wallet_error up w)
      | WAny inner kind \<Rightarrow>
          (case classify_anyhow_error_with_policy up inner policy of
             Some c \<Rightarrow> c
           | None \<Rightarrow> typed_classification XelisWallet Internal kind)
      | _ \<Rightarrow> classify_wallet_error up w)"
| "classify_wallet_error up w =
     (case w of
        WAny inner kind \<Rightarrow>
          (case classify_anyhow_error_with_policy up inner PolicyStandard of
             Some c \<Rightarrow> c
           | None \<Rightarrow> typed_classification XelisWallet Internal kind)
      | WNetworkError e \<Rightarrow> classify_network_error up e
      | _ \<Rightarrow> typed_classification (fst (wallet_error_class w)) (snd (wallet_error_class w))
               (wallet_kind up w))"
| "classify_network_error up n =
     (case n of
        NetAlreadyRunning \<Rightarrow> typed_classification XelisWallet Conflict ''NETWORK_ALREADY_RUNNING''
      | NetNotRunning \<Rightarrow> typed_classification XelisWallet Offline ''NETWORK_NOT_RUNNING''
      | NetTaskError _ \<Rightarrow> typed_classification XelisWallet Internal ''NETWORK_TASK_ERROR''
      | NetDaemonAPIError e \<Rightarrow>
          (case classify_anyhow_error_with_policy up e PolicyStandard of
             Some c \<Rightarrow> c
           | None \<Rightarrow> typed_classification XelisWallet Network ''DAEMON_API_ERROR'')
      | NetNetworkMismatch \<Rightarrow>
          typed_classification XelisWallet NetworkMismatch ''NETWORK_MISMATCH'')"
| "classify_json_rpc_error up r =
     (case r of
        RpcAny inner \<Rightarrow>
          (case classify_anyhow_error_with_policy up inner PolicyStandard of
             Some c \<Rightarrow> c
           | None \<Rightarrow> json_rpc_classification up r)
      | _ \<Rightarrow> json_rpc_classification up r)"
  by pat_completeness auto
termination
  by (relation "measure (\<lambda>x. case x of
        Inl (Inl (_, e, _)) \<Rightarrow> 2 * size e
      | Inl (Inr (_, w, _)) \<Rightarrow> 2 * size w + 1
      | Inr (Inl (_, w)) \<Rightarrow> 2 * size w
      | Inr (Inr (Inl (_, n))) \<Rightarrow> 2 * size n
      | Inr (Inr (Inr (_, r))) \<Rightarrow> 2 * size r)")
    (auto dest!: downcast_json_rpc_size downcast_wallet_size)

declare classify_anyhow_error_with_policy.simps [simp del]
  classify_wallet_error_with_policy.simps [simp del]
  classify_wallet_error.simps [simp del]
  classify_network_error.simps [simp del]
  classify_json_rpc_error.simps [simp del]

definition classify_anyhow_error ::
  "upstream_text \<Rightarrow> anyhow_error \<Rightarrow> native_error_classification option" where
  "classify_anyhow_error up e = classify_anyhow_error_with_policy up e PolicyStandard"

function classify_storage_operation_error ::
  "upstream_text \<Rightarrow> anyhow_error \<Rightarrow> native_error_classification option" where
  "classify_storage_operation_error up e =
     (case downcast_json_rpc e of
        Some r \<Rightarrow> Some (classify_json_rpc_error up r)
      | None \<Rightarrow>
          (case downcast_wallet e of
             None \<Rightarrow> None
           | Some w \<Rightarrow>
               (case w of
                  WAny inner kind \<Rightarrow> classify_storage_operation_error up inner
                | _ \<Rightarrow> Some (classify_wallet_error up w))))"
  by pat_completeness auto
termination
  by (relation "measure (\<lambda>(_, e). size e)") (auto dest: downcast_wallet_size)

declare classify_storage_operation_error.simps [simp del]

section \<open>Diagnostics\<close>

definition append_json_rpc_data :: "string \<Rightarrow> json_rpc_error \<Rightarrow> string" where
  "append_json_rpc_data diagnostic e =
     (case (case e of
              RpcInternalError _ d \<Rightarrow> d
            | RpcServerError _ _ d \<Rightarrow> d
            | _ \<Rightarrow> None) of
        Some d \<Rightarrow> diagnostic @ CHR 0x0A # ''RPC data: '' @ d
      | None \<Rightarrow> diagnostic)"

definition anyhow_diagnostic_message :: "upstream_text \<Rightarrow> anyhow_error \<Rightarrow> string" where
  "anyhow_diagnostic_message up e =
     (case downcast_json_rpc e of
        Some r \<Rightarrow> append_json_rpc_data (anyhow_text up e) r
      | None \<Rightarrow> anyhow_text up e)"

definition wallet_diagnostic_message :: "upstream_text \<Rightarrow> wallet_error \<Rightarrow> string" where
  "wallet_diagnostic_message up w =
     (case w of
        WAny inner _ \<Rightarrow> anyhow_diagnostic_message up inner
      | WNetworkError (NetDaemonAPIError inner) \<Rightarrow> anyhow_diagnostic_message up inner
      | _ \<Rightarrow> wallet_text up w)"

definition json_rpc_diagnostic_message :: "upstream_text \<Rightarrow> json_rpc_error \<Rightarrow> string" where
  "json_rpc_diagnostic_message up r =
     append_json_rpc_data
       (case r of RpcAny inner \<Rightarrow> anyhow_diagnostic_message up inner | _ \<Rightarrow> rpc_text up r) r"

section \<open>Boundary constructors\<close>

definition from_classification ::
  "native_error_classification \<Rightarrow> string \<Rightarrow> native_xelis_error" where
  "from_classification c msg =
     new_native_error (cl_source c) (cl_code c) (cl_native_kind c) (cl_native_code c) msg"

definition from_wallet_operation_with_policy ::
  "upstream_text \<Rightarrow> anyhow_error \<Rightarrow> native_xelis_error_code \<Rightarrow> string
   \<Rightarrow> wallet_operation_error_policy \<Rightarrow> native_xelis_error" where
  "from_wallet_operation_with_policy up e fallback_code fallback_kind policy =
     from_classification
       (unwrap_or (classify_anyhow_error_with_policy up e policy)
          (typed_classification XelisWallet fallback_code fallback_kind))
       (anyhow_diagnostic_message up e)"

definition from_wallet_operation ::
  "upstream_text \<Rightarrow> anyhow_error \<Rightarrow> native_xelis_error_code \<Rightarrow> string \<Rightarrow> native_xelis_error" where
  "from_wallet_operation up e fallback_code fallback_kind =
     from_wallet_operation_with_policy up e fallback_code fallback_kind PolicyStandard"

definition from_wallet_authentication_operation ::
  "upstream_text \<Rightarrow> anyhow_error \<Rightarrow> native_xelis_error_code \<Rightarrow> string \<Rightarrow> native_xelis_error" where
  "from_wallet_authentication_operation up e fallback_code fallback_kind =
     from_wallet_operation_with_policy up e fallback_code fallback_kind PolicyAuthentication"

definition from_wallet_storage_operation ::
  "upstream_text \<Rightarrow> anyhow_error \<Rightarrow> string \<Rightarrow> native_xelis_error" where
  "from_wallet_storage_operation up e fallback_kind =
     from_classification
       (unwrap_or (classify_storage_operation_error up e)
          (typed_classification XelisWallet Storage fallback_kind))
       (anyhow_diagnostic_message up e)"

definition from_wallet_error :: "upstream_text \<Rightarrow> wallet_error \<Rightarrow> native_xelis_error" where
  "from_wallet_error up w =
     from_classification (classify_wallet_error up w) (wallet_diagnostic_message up w)"

definition from_json_rpc_error :: "upstream_text \<Rightarrow> json_rpc_error \<Rightarrow> native_xelis_error" where
  "from_json_rpc_error up r =
     from_classification (classify_json_rpc_error up r) (json_rpc_diagnostic_message up r)"

fun safe_mnemonics_recovery_error :: "mnemonics_error \<Rightarrow> string \<times> string" where
  "safe_mnemonics_recovery_error InvalidWordsCount =
     (''MNEMONICS_INVALID_WORDS_COUNT'', ''Mnemonic has an invalid word count'')"
| "safe_mnemonics_recovery_error InvalidChecksum =
     (''MNEMONICS_INVALID_CHECKSUM'', ''Mnemonic checksum is invalid'')"
| "safe_mnemonics_recovery_error InvalidChecksumIndex =
     (''MNEMONICS_INVALID_CHECKSUM_INDEX'', ''Mnemonic checksum index is invalid'')"
| "safe_mnemonics_recovery_error InvalidLanguageIndex =
     (''MNEMONICS_INVALID_LANGUAGE_INDEX'', ''Mnemonic language index is invalid'')"
| "safe_mnemonics_recovery_error InvalidLanguage =
     (''MNEMONICS_INVALID_LANGUAGE'', ''Mnemonic language is invalid'')"
| "safe_mnemonics_recovery_error (UnknownWord _ position) =
     (''MNEMONICS_UNKNOWN_WORD'',
      ''Unknown mnemonic word at position '' @ decimal_of_nat position)"
| "safe_mnemonics_recovery_error InvalidKeySize =
     (''MNEMONICS_INVALID_KEY_SIZE'', ''Mnemonic produced an invalid key size'')"
| "safe_mnemonics_recovery_error InvalidKeyFromBytes =
     (''MNEMONICS_INVALID_KEY_FROM_BYTES'', ''Mnemonic key bytes are invalid'')"
| "safe_mnemonics_recovery_error InvalidChecksumCalculation =
     (''MNEMONICS_INVALID_CHECKSUM_CALCULATION'', ''Mnemonic checksum calculation failed'')"
| "safe_mnemonics_recovery_error NoIndicesFound =
     (''MNEMONICS_NO_INDICES_FOUND'', ''Mnemonic word indices are unavailable'')"
| "safe_mnemonics_recovery_error WordListSanityCheckError =
     (''MNEMONICS_WORD_LIST_SANITY_CHECK_FAILED'', ''Mnemonic word list validation failed'')"
| "safe_mnemonics_recovery_error OutOfBounds =
     (''MNEMONICS_OUT_OF_BOUNDS'', ''Mnemonic data is out of bounds'')"

fun safe_private_key_reader_error :: "reader_error \<Rightarrow> string \<times> string" where
  "safe_private_key_reader_error ReaderInvalidSize =
     (''PRIVATE_KEY_INVALID_SIZE'', ''Private key has an invalid size'')"
| "safe_private_key_reader_error ReaderInvalidValue =
     (''PRIVATE_KEY_INVALID_VALUE'', ''Private key contains an invalid value'')"
| "safe_private_key_reader_error ReaderInvalidHex =
     (''PRIVATE_KEY_INVALID_HEX'', ''Private key is not valid hexadecimal data'')"
| "safe_private_key_reader_error (ReaderAny _) =
     (''PRIVATE_KEY_INVALID_DATA'', ''Private key data could not be decoded'')"
| "safe_private_key_reader_error _ =
     (''PRIVATE_KEY_INVALID_ENCODING'', ''Private key encoding is invalid'')"

definition from_wallet_seed_recovery_operation ::
  "upstream_text \<Rightarrow> anyhow_error \<Rightarrow> native_xelis_error" where
  "from_wallet_seed_recovery_operation up e =
     (case downcast_mnemonics e of
        Some m \<Rightarrow>
          new_native_error XelisWallet InvalidInput (Some (fst (safe_mnemonics_recovery_error m)))
            None (snd (safe_mnemonics_recovery_error m))
      | None \<Rightarrow> from_wallet_operation up e Internal ''WALLET_RECOVER_SEED_FAILED'')"

definition from_wallet_private_key_recovery_operation ::
  "upstream_text \<Rightarrow> anyhow_error \<Rightarrow> native_xelis_error" where
  "from_wallet_private_key_recovery_operation up e =
     (case downcast_reader e of
        Some r \<Rightarrow>
          new_native_error XelisCommon InvalidInput (Some (fst (safe_private_key_reader_error r)))
            None (snd (safe_private_key_reader_error r))
      | None \<Rightarrow> from_wallet_operation up e Internal ''WALLET_RECOVER_PRIVATE_KEY_FAILED'')"

section \<open>Specification of the boundaries\<close>

text \<open>
  An error has a typed cause when unwrapping contexts and \<open>WalletError::Any\<close>
  layers ends in a JSON-RPC error or in a wallet error that is not itself such
  a layer.
\<close>

inductive has_typed_cause :: "anyhow_error \<Rightarrow> bool" where
  rpc: "downcast_json_rpc e = Some r \<Longrightarrow> has_typed_cause e"
| wallet: "downcast_wallet e = Some w \<Longrightarrow> (\<And>inner kind. w \<noteq> WAny inner kind) \<Longrightarrow> has_typed_cause e"
| any: "downcast_wallet e = Some (WAny inner kind) \<Longrightarrow> has_typed_cause inner \<Longrightarrow> has_typed_cause e"

inductive_cases has_typed_causeE: "has_typed_cause e"

text \<open>The classification of an error whose cause is a cryptographic failure.\<close>

definition crypto_upgrade ::
  "native_error_classification \<Rightarrow> native_error_classification \<Rightarrow> bool" where
  "crypto_upgrade std auth \<longleftrightarrow>
     cl_source std = XelisWallet \<and> cl_code std = Internal \<and>
     auth = std\<lparr> cl_code := AuthenticationOrCorruptData \<rparr>"

section \<open>Lemmas\<close>

lemmas classify_simps =
  classify_anyhow_error_with_policy.simps classify_wallet_error_with_policy.simps
  classify_wallet_error.simps classify_network_error.simps classify_json_rpc_error.simps

lemma downcasts_exclusive: "downcast_json_rpc e = Some r \<Longrightarrow> downcast_wallet e = None"
  by (induction e rule: downcast_json_rpc.induct) auto

lemma classify_wallet_standard:
  "classify_wallet_error_with_policy up w PolicyStandard = classify_wallet_error up w"
  by (cases w) (simp_all add: classify_wallet_error_with_policy.simps classify_wallet_error.simps)

lemma typed_classified: "has_typed_cause e \<Longrightarrow> classify_anyhow_error up e \<noteq> None"
  by (erule has_typed_causeE)
    (simp_all add: classify_anyhow_error_def classify_anyhow_error_with_policy.simps
      split: option.split)

lemma classify_storage_iff_typed:
  "classify_storage_operation_error up e =
     (if has_typed_cause e then classify_anyhow_error up e else None)"
proof (induction up e rule: classify_storage_operation_error.induct)
  case (1 up e)
  show ?case
  proof (cases "downcast_json_rpc e")
    case (Some r)
    then show ?thesis
      by (simp add: classify_storage_operation_error.simps [of up e] has_typed_cause.rpc
          classify_anyhow_error_def classify_anyhow_error_with_policy.simps)
  next
    case no_rpc: None
    show ?thesis
    proof (cases "downcast_wallet e")
      case None
      then show ?thesis
        using no_rpc by (auto simp: classify_storage_operation_error.simps [of up e]
            elim: has_typed_causeE)
    next
      case (Some w)
      show ?thesis
      proof (cases "\<exists>inner kind. w = WAny inner kind")
        case True
        then obtain inner kind where w: "w = WAny inner kind" by blast
        have typed: "has_typed_cause e \<longleftrightarrow> has_typed_cause inner"
          using Some no_rpc w by (auto intro: has_typed_cause.any elim: has_typed_causeE)
        show ?thesis
          using 1 [OF no_rpc Some w] no_rpc Some typed w typed_classified [of inner up]
          by (auto simp: classify_storage_operation_error.simps [of up e] classify_anyhow_error_def
              classify_anyhow_error_with_policy.simps [of up e]
              classify_wallet_error_with_policy.simps split: option.splits)
      next
        case False
        then have "classify_storage_operation_error up e = Some (classify_wallet_error up w)"
          using no_rpc Some
          by (cases w) (simp_all add: classify_storage_operation_error.simps [of up e])
        moreover have "has_typed_cause e"
          using False Some by (blast intro: has_typed_cause.wallet)
        ultimately show ?thesis
          using no_rpc Some by (simp add: classify_anyhow_error_def classify_wallet_standard
              classify_anyhow_error_with_policy.simps [of up e])
      qed
    qed
  qed
qed

lemma authentication_policy_cases:
  "rel_option (\<lambda>std auth. auth = std \<or> crypto_upgrade std auth)
     (classify_anyhow_error_with_policy up e PolicyStandard)
     (classify_anyhow_error_with_policy up e PolicyAuthentication)"
proof (induction e rule: measure_induct_rule [of size])
  case (less e)
  have leaf: "auth = std \<or> crypto_upgrade std auth"
    if w: "downcast_wallet e = Some w"
      and std: "std = classify_wallet_error_with_policy up w PolicyStandard"
      and auth: "auth = classify_wallet_error_with_policy up w PolicyAuthentication"
    for w std auth
  proof (cases "\<exists>inner kind. w = WAny inner kind")
    case True
    then obtain inner kind where "w = WAny inner kind" by blast
    moreover from this have "size inner < size e"
      using downcast_wallet_size [OF w] by simp
    ultimately show ?thesis
      using less [of inner] std auth
      by (auto simp: classify_wallet_error_with_policy.simps split: option.splits)
  next
    case False
    then show ?thesis
      using std auth
      by (cases w) (simp_all add: classify_wallet_error_with_policy.simps
          classify_wallet_error.simps wallet_error_class_def crypto_upgrade_def
          typed_classification_def)
  qed
  show ?case
    using leaf
    by (auto simp: classify_anyhow_error_with_policy.simps [of up e] split: option.split)
qed

lemma from_operation_version:
  "ne_version (from_wallet_operation_with_policy up e c k p) = NATIVE_XELIS_ERROR_VERSION"
  "ne_version (from_wallet_storage_operation up e k) = NATIVE_XELIS_ERROR_VERSION"
  by (simp_all add: from_wallet_operation_with_policy_def from_wallet_storage_operation_def
      from_classification_def new_native_error_def)

section \<open>Properties\<close>

text \<open>
  At a storage boundary an error keeps the code the general classification
  gives its typed cause, and an error without one is reported as a storage
  failure with the fallback kind of the operation, never as internal.
\<close>

theorem storage_boundary_code:
  "ne_code (from_wallet_storage_operation up e kind) =
     (if has_typed_cause e then ne_code (from_wallet_operation up e Storage kind) else Storage)"
  using typed_classified [of e up]
  by (auto simp: from_wallet_storage_operation_def from_wallet_operation_def
      from_wallet_operation_with_policy_def classify_storage_iff_typed from_classification_def
      new_native_error_def typed_classification_def classify_anyhow_error_def)

text \<open>
  Opening a wallet with the authentication policy reports exactly what the
  standard policy reports, except that a cryptographic failure of the wallet,
  internal otherwise, becomes \<open>AuthenticationOrCorruptData\<close>.
\<close>

theorem authentication_boundary_code:
  "let std = ne_code (from_wallet_operation up e code kind);
       auth = ne_code (from_wallet_authentication_operation up e code kind)
   in auth = std \<or> (std = Internal \<and> auth = AuthenticationOrCorruptData)"
  using authentication_policy_cases [of up e]
  by (auto simp: from_wallet_operation_def from_wallet_authentication_operation_def Let_def
      from_wallet_operation_with_policy_def from_classification_def new_native_error_def
      crypto_upgrade_def elim!: option.rel_cases)

end
