(* ===== verification/Prepared_Store.thy ===== *)
theory Prepared_Store
  imports Rust_Prelude
begin

text \<open>
  The single-slot store of \<open>wallet/transactions/prepared.rs\<close>: a slot that is
  empty, holds a reviewed transaction, or is in flight; a counter that gives
  every preparation a fresh generation; and the two guards that own a running
  preparation or submission and undo it when they are dropped.  Every method
  that takes \<open>&mut self\<close> returns its result and the store after it; a method
  that consumes a guard includes the guard's \<open>Drop\<close>.  Hashes and transactions
  are type parameters.
\<close>

named_theorems store_simps \<open>definitions of the store's operations\<close>

section \<open>Model\<close>

datatype prepared_transaction_error =
  PreparationInProgress | ReplacementDuringSubmission | CancellationDuringSubmission
| AlreadySubmitting | CannotDelete | PreparedNotFound | GenerationOverflow
| PreparationStateInconsistent | CancellationStateInconsistent
| SubmissionStateInconsistent | EmptyGuard

fun prepared_native_kind :: "prepared_transaction_error \<Rightarrow> string" where
  "prepared_native_kind PreparationInProgress = ''PREPARED_TRANSACTION_PREPARATION_IN_PROGRESS''"
| "prepared_native_kind ReplacementDuringSubmission =
     ''PREPARED_TRANSACTION_SUBMISSION_IN_PROGRESS''"
| "prepared_native_kind CancellationDuringSubmission =
     ''PREPARED_TRANSACTION_CANCELLATION_IN_PROGRESS''"
| "prepared_native_kind AlreadySubmitting = ''PREPARED_TRANSACTION_ALREADY_SUBMITTING''"
| "prepared_native_kind CannotDelete = ''PREPARED_TRANSACTION_NOT_FOUND''"
| "prepared_native_kind PreparedNotFound = ''PREPARED_TRANSACTION_NOT_FOUND''"
| "prepared_native_kind GenerationOverflow = ''PREPARED_TRANSACTION_GENERATION_OVERFLOW''"
| "prepared_native_kind PreparationStateInconsistent =
     ''PREPARED_TRANSACTION_PREPARATION_STATE_INCONSISTENT''"
| "prepared_native_kind CancellationStateInconsistent =
     ''PREPARED_TRANSACTION_CANCELLATION_STATE_INCONSISTENT''"
| "prepared_native_kind SubmissionStateInconsistent =
     ''PREPARED_TRANSACTION_SUBMISSION_STATE_INCONSISTENT''"
| "prepared_native_kind EmptyGuard = ''PREPARED_TRANSACTION_GUARD_EMPTY''"

fun prepared_display :: "prepared_transaction_error \<Rightarrow> string" where
  "prepared_display PreparationInProgress =
     ''Cannot replace a prepared transaction while another preparation is in progress''"
| "prepared_display ReplacementDuringSubmission =
     ''Cannot replace a prepared transaction while another transaction is being submitted''"
| "prepared_display CancellationDuringSubmission =
     ''Cannot cancel a transaction while it is being submitted''"
| "prepared_display AlreadySubmitting = ''Transaction is already being submitted''"
| "prepared_display CannotDelete = ''Cannot delete prepared transaction''"
| "prepared_display PreparedNotFound = ''Cannot find prepared transaction''"
| "prepared_display GenerationOverflow = ''Prepared transaction generation overflow''"
| "prepared_display PreparationStateInconsistent =
     ''Prepared transaction preparation state is inconsistent''"
| "prepared_display CancellationStateInconsistent =
     ''Prepared transaction state changed during cancellation''"
| "prepared_display SubmissionStateInconsistent =
     ''Prepared transaction submission state is inconsistent''"
| "prepared_display EmptyGuard = ''Prepared transaction guard is empty''"

datatype ('h, 't) prepared_transaction_state =
  Empty
| Ready u64 'h 't
| InFlight u64 'h

record ('h, 't) prepared_transaction_store =
  state :: "('h, 't) prepared_transaction_state"
  next_generation :: u64
  active_preparation :: "u64 option"

type_synonym 'a prepared_result = "('a, prepared_transaction_error) result"

definition default_prepared_store :: "('h, 't) prepared_transaction_store" where
  "default_prepared_store = \<lparr> state = Empty, next_generation = 0, active_preparation = None \<rparr>"

fun is_in_flight :: "('h, 't) prepared_transaction_state \<Rightarrow> bool" where
  "is_in_flight (InFlight g h) = True"
| "is_in_flight _ = False"

definition allocate_generation ::
  "('h, 't) prepared_transaction_store \<Rightarrow> u64 prepared_result \<times> ('h, 't) prepared_transaction_store"
where
  "allocate_generation s =
     (case checked_add (next_generation s) 1 of
        None \<Rightarrow> (Err GenerationOverflow, s)
      | Some g \<Rightarrow> (Ok g, s\<lparr> next_generation := g \<rparr>))"

definition ensure_replaceable :: "('h, 't) prepared_transaction_store \<Rightarrow> unit prepared_result" where
  "ensure_replaceable s =
     (if active_preparation s \<noteq> None then Err PreparationInProgress
      else if is_in_flight (state s) then Err ReplacementDuringSubmission
      else Ok ())"

definition ensure_slot_operation_available ::
  "('h, 't) prepared_transaction_store \<Rightarrow> unit prepared_result" where
  "ensure_slot_operation_available s =
     (if active_preparation s \<noteq> None then Err PreparationInProgress else Ok ())"

definition ensure_ready_exact ::
  "u64 \<Rightarrow> 'h \<Rightarrow> ('h, 't) prepared_transaction_store \<Rightarrow> unit prepared_result" where
  "ensure_ready_exact g h s =
     and_then (ensure_slot_operation_available s) (\<lambda>_.
       case state s of
         Ready g' h' t \<Rightarrow> if g' = g \<and> h' = h then Ok () else Err PreparedNotFound
       | InFlight g' h' \<Rightarrow> if g' = g \<and> h' = h then Err AlreadySubmitting else Err PreparedNotFound
       | Empty \<Rightarrow> Err PreparedNotFound)"

definition ready_exact ::
  "u64 \<Rightarrow> 'h \<Rightarrow> ('h, 't) prepared_transaction_store \<Rightarrow> 't prepared_result" where
  "ready_exact g h s =
     and_then (ensure_ready_exact g h s) (\<lambda>_.
       case state s of Ready g' h' t \<Rightarrow> Ok t | _ \<Rightarrow> Err PreparedNotFound)"

definition replace_prepared ::
  "'h \<Rightarrow> 't \<Rightarrow> ('h, 't) prepared_transaction_store
   \<Rightarrow> u64 prepared_result \<times> ('h, 't) prepared_transaction_store" where
  "replace_prepared h t s =
     (case ensure_replaceable s of
        Inl e \<Rightarrow> (Err e, s)
      | Inr _ \<Rightarrow>
          (case allocate_generation s of
             (Inl e, s') \<Rightarrow> (Err e, s')
           | (Inr g, s') \<Rightarrow> (Ok g, s'\<lparr> state := Ready g h t \<rparr>)))"

definition begin_preparation ::
  "('h, 't) prepared_transaction_store \<Rightarrow> u64 prepared_result \<times> ('h, 't) prepared_transaction_store"
where
  "begin_preparation s =
     (case ensure_replaceable s of
        Inl e \<Rightarrow> (Err e, s)
      | Inr _ \<Rightarrow>
          (case allocate_generation s of
             (Inl e, s') \<Rightarrow> (Err e, s')
           | (Inr g, s') \<Rightarrow> (Ok g, s'\<lparr> active_preparation := Some g \<rparr>)))"

definition commit_preparation ::
  "u64 \<Rightarrow> 'h \<Rightarrow> 't \<Rightarrow> ('h, 't) prepared_transaction_store
   \<Rightarrow> unit prepared_result \<times> ('h, 't) prepared_transaction_store" where
  "commit_preparation g h t s =
     (if active_preparation s \<noteq> Some g then (Err PreparationStateInconsistent, s)
      else if is_in_flight (state s) then (Err ReplacementDuringSubmission, s)
      else (Ok (), s\<lparr> state := Ready g h t, active_preparation := None \<rparr>))"

definition abandon_preparation ::
  "u64 \<Rightarrow> ('h, 't) prepared_transaction_store \<Rightarrow> bool \<times> ('h, 't) prepared_transaction_store" where
  "abandon_preparation g s =
     (if active_preparation s = Some g then (True, s\<lparr> active_preparation := None \<rparr>)
      else (False, s))"

text \<open>The \<open>mem::take\<close> that ends both cancellations.\<close>

definition take_cancelled ::
  "('h, 't) prepared_transaction_store \<Rightarrow> 't prepared_result \<times> ('h, 't) prepared_transaction_store"
where
  "take_cancelled s =
     (case state s of
        Ready g h t \<Rightarrow> (Ok t, s\<lparr> state := Empty \<rparr>)
      | previous \<Rightarrow> (Err CancellationStateInconsistent, s\<lparr> state := previous \<rparr>))"

definition cancel_prepared ::
  "'h \<Rightarrow> ('h, 't) prepared_transaction_store
   \<Rightarrow> 't prepared_result \<times> ('h, 't) prepared_transaction_store" where
  "cancel_prepared h s =
     (case ensure_slot_operation_available s of
        Inl e \<Rightarrow> (Err e, s)
      | Inr _ \<Rightarrow>
          (case state s of
             InFlight g' h' \<Rightarrow>
               if h' = h then (Err CancellationDuringSubmission, s) else (Err CannotDelete, s)
           | Ready g' h' t \<Rightarrow> if h' = h then take_cancelled s else (Err CannotDelete, s)
           | Empty \<Rightarrow> (Err CannotDelete, s)))"

definition cancel_exact ::
  "u64 \<Rightarrow> 'h \<Rightarrow> ('h, 't) prepared_transaction_store
   \<Rightarrow> 't prepared_result \<times> ('h, 't) prepared_transaction_store" where
  "cancel_exact g h s =
     (case ensure_slot_operation_available s of
        Inl e \<Rightarrow> (Err e, s)
      | Inr _ \<Rightarrow>
          (case state s of
             InFlight g' h' \<Rightarrow>
               if g' = g \<and> h' = h then (Err CancellationDuringSubmission, s)
               else (Err PreparedNotFound, s)
           | Ready g' h' t \<Rightarrow>
               if g' = g \<and> h' = h then take_cancelled s else (Err PreparedNotFound, s)
           | Empty \<Rightarrow> (Err PreparedNotFound, s)))"

definition take_ready_for_submission ::
  "('h, 't) prepared_transaction_store
   \<Rightarrow> (u64 \<times> 't) prepared_result \<times> ('h, 't) prepared_transaction_store" where
  "take_ready_for_submission s =
     (case state s of
        Ready g h t \<Rightarrow> (Ok (g, t), s\<lparr> state := InFlight g h \<rparr>)
      | previous \<Rightarrow> (Err SubmissionStateInconsistent, s\<lparr> state := previous \<rparr>))"

definition take_for_submission ::
  "'h \<Rightarrow> ('h, 't) prepared_transaction_store
   \<Rightarrow> (u64 \<times> 't) prepared_result \<times> ('h, 't) prepared_transaction_store" where
  "take_for_submission h s =
     (case ensure_slot_operation_available s of
        Inl e \<Rightarrow> (Err e, s)
      | Inr _ \<Rightarrow>
          (case state s of
             InFlight g' h' \<Rightarrow>
               if h' = h then (Err AlreadySubmitting, s) else (Err PreparedNotFound, s)
           | Ready g' h' t \<Rightarrow>
               if h' = h then take_ready_for_submission s else (Err PreparedNotFound, s)
           | Empty \<Rightarrow> (Err PreparedNotFound, s)))"

definition take_for_submission_exact ::
  "u64 \<Rightarrow> 'h \<Rightarrow> ('h, 't) prepared_transaction_store
   \<Rightarrow> 't prepared_result \<times> ('h, 't) prepared_transaction_store" where
  "take_for_submission_exact g h s =
     (case ensure_slot_operation_available s of
        Inl e \<Rightarrow> (Err e, s)
      | Inr _ \<Rightarrow>
          (case state s of
             InFlight g' h' \<Rightarrow>
               if g' = g \<and> h' = h then (Err AlreadySubmitting, s) else (Err PreparedNotFound, s)
           | Ready g' h' t \<Rightarrow>
               if g' = g \<and> h' = h
               then (case take_ready_for_submission s of
                       (Inl e, s') \<Rightarrow> (Err e, s')
                     | (Inr (stored, t), s') \<Rightarrow>
                         if stored \<noteq> g then (Err SubmissionStateInconsistent, s') else (Ok t, s'))
               else (Err PreparedNotFound, s)
           | Empty \<Rightarrow> (Err PreparedNotFound, s)))"

definition restore_after_submission ::
  "u64 \<Rightarrow> 'h \<Rightarrow> 't \<Rightarrow> ('h, 't) prepared_transaction_store
   \<Rightarrow> unit prepared_result \<times> ('h, 't) prepared_transaction_store" where
  "restore_after_submission g h t s =
     (case state s of
        InFlight g' h' \<Rightarrow>
          if g' = g \<and> h' = h then (Ok (), s\<lparr> state := Ready g h t \<rparr>)
          else (Err SubmissionStateInconsistent, s)
      | _ \<Rightarrow> (Err SubmissionStateInconsistent, s))"

definition finish_submission ::
  "u64 \<Rightarrow> 'h \<Rightarrow> ('h, 't) prepared_transaction_store
   \<Rightarrow> bool \<times> ('h, 't) prepared_transaction_store" where
  "finish_submission g h s =
     (case state s of
        InFlight g' h' \<Rightarrow> if g' = g \<and> h' = h then (True, s\<lparr> state := Empty \<rparr>) else (False, s)
      | _ \<Rightarrow> (False, s))"

end
