(* ===== verification/Capability.thy ===== *)
theory Capability
  imports Rust_Prelude
begin

text \<open>
  Two interfaces that several components of the wallet implement.

  A \<open>generation_source\<close> hands out 64-bit generations by incrementing a counter
  with \<open>checked_add\<close> and fails, leaving its state alone, when the counter is
  exhausted.

  A \<open>capability_slot\<close> holds at most one item under a generation and a content.
  A step keeps the item, drops it, or holds a new one under a generation above
  every generation used so far.  Clients rely on what follows: a generation
  names one content for ever, and once it is spent it never comes back.
\<close>

definition spent_capability ::
  "('s \<Rightarrow> (u64 \<times> 'c) option) \<Rightarrow> ('s \<Rightarrow> u64) \<Rightarrow> u64 \<Rightarrow> 's \<Rightarrow> bool" where
  "spent_capability held used g s \<longleftrightarrow> 
     g \<le> used s \<and> (case held s of None \<Rightarrow> True | Some (g', _) \<Rightarrow> g' \<noteq> g)"

lemma spent_iff:
  "spent_capability held used g s \<longleftrightarrow> g \<le> used s \<and> (\<forall>c. held s \<noteq> Some (g, c))"
  by (auto simp: spent_capability_def split: option.split)

locale generation_source =
  fixes alloc :: "'s \<Rightarrow> (u64, 'e) result \<times> 's"
    and counter :: "'s \<Rightarrow> u64"
  assumes alloc_Ok: "alloc s = (Ok g, s') \<Longrightarrow> unat g = unat (counter s) + 1 \<and> counter s' = g"
    and alloc_Err: "alloc s = (Err e, s') \<Longrightarrow> counter s = u64_MAX \<and> s' = s"
begin

lemma alloc_fresh: "alloc s = (Ok g, s') \<Longrightarrow> counter s < g"
  using alloc_Ok [of s g s'] by (simp add: word_less_nat_alt)

lemma alloc_total: "counter s \<noteq> u64_MAX \<Longrightarrow> \<exists>g s'. alloc s = (Ok g, s')"
  using alloc_Err by (cases "alloc s", cases "fst (alloc s)") auto

lemma alloc_exhausted: "counter s = u64_MAX \<Longrightarrow> \<exists>e. alloc s = (Err e, s)"
proof (cases "alloc s")
  case (Pair r s')
  assume max: "counter s = u64_MAX"
  show ?thesis
  proof (cases r)
    case (Inr g)
    then have "unat g = unat u64_MAX + 1"
      using alloc_Ok Pair max by simp
    moreover have "unat g < 2 ^ 64"
      using unsigned_less [of g] by simp
    ultimately show ?thesis
      by simp
  qed (use alloc_Err Pair in auto)
qed

end

locale capability_slot =
  fixes invar :: "'s \<Rightarrow> bool"
    and held :: "'s \<Rightarrow> (u64 \<times> 'c) option"
    and used :: "'s \<Rightarrow> u64"
    and step :: "'s \<Rightarrow> 's \<Rightarrow> bool"
  assumes held_used: "invar s \<Longrightarrow> held s = Some (g, c) \<Longrightarrow> g \<le> used s"
    and step_invar: "invar s \<Longrightarrow> step s s' \<Longrightarrow> invar s'"
    and step_used: "invar s \<Longrightarrow> step s s' \<Longrightarrow> used s \<le> used s'"
    and step_held: "invar s \<Longrightarrow> step s s' \<Longrightarrow> held s' = Some (g, c) \<Longrightarrow>
      held s = Some (g, c) \<or> used s < g"
begin

lemma invar_star: "step\<^sup>*\<^sup>* s s' \<Longrightarrow> invar s \<Longrightarrow> invar s'"
  by (induction rule: rtranclp_induct) (auto intro: step_invar)

lemma used_mono: "step\<^sup>*\<^sup>* s s' \<Longrightarrow> invar s \<Longrightarrow> used s \<le> used s'"
  by (induction rule: rtranclp_induct) (auto dest: step_used invar_star intro: order_trans)

lemma spent_step: "invar s \<Longrightarrow> step s s' \<Longrightarrow> spent_capability held used g s \<Longrightarrow> spent_capability held used g s'"
  unfolding spent_iff using step_used step_held by (meson leD order_trans)

lemma spent_forever: "step\<^sup>*\<^sup>* s s' \<Longrightarrow> invar s \<Longrightarrow> spent_capability held used g s \<Longrightarrow> spent_capability held used g s'"
  by (induction rule: rtranclp_induct) (auto dest: invar_star intro: spent_step)

lemma content_unique:
  assumes "step\<^sup>*\<^sup>* s s'" "invar s" "held s = Some (g, c)"
  shows "held s' = Some (g, c) \<or> spent_capability held used g s'"
  using assms
proof (induction rule: rtranclp_induct)
  case (step s1 s2)
  have inv: "invar s1" using step.hyps(1) step.prems(1) by (rule invar_star)
  have le: "g \<le> used s1"
    using step held_used [OF inv] by (auto simp: spent_iff)
  consider "held s1 = Some (g, c)" | "spent_capability held used g s1" using step by blast
  then show ?case
  proof cases
    case 1
    then show ?thesis
      using step_held [OF inv step.hyps(2)] step_used [OF inv step.hyps(2)] le
      by (fastforce simp: spent_iff dest: leD order_trans)
  qed (use spent_step [OF inv step.hyps(2)] in blast)
qed simp

end

end
