(* ===== verification/Prepared_Guards.thy ===== *)
theory Prepared_Guards
  imports Prepared_Store Capability
begin

text \<open>
  The guards of \<open>wallet/transactions/prepared.rs\<close> and the system they form with
  the store: any number of callers interleave, each holding guards it has
  taken.  A guard is owned, so every step that consumes it removes it from the
  system.  \<open>slot_step\<close> has one rule per public entry point; the ghost field
  \<open>issued\<close> records the capabilities handed to callers.
\<close>

section \<open>Guards\<close>

record preparation_guard =
  pg_generation :: u64
  pg_active :: bool

definition preparation_begin ::
  "('h, 't) prepared_transaction_store
   \<Rightarrow> preparation_guard prepared_result \<times> ('h, 't) prepared_transaction_store" where
  "preparation_begin s =
     (case begin_preparation s of
        (Inl e, s') \<Rightarrow> (Err e, s')
      | (Inr g, s') \<Rightarrow> (Ok \<lparr> pg_generation = g, pg_active = True \<rparr>, s'))"

definition preparation_drop ::
  "preparation_guard \<Rightarrow> ('h, 't) prepared_transaction_store \<Rightarrow> ('h, 't) prepared_transaction_store"
where
  "preparation_drop gd s =
     (if pg_active gd then snd (abandon_preparation (pg_generation gd) s) else s)"

definition preparation_commit ::
  "preparation_guard \<Rightarrow> 'h \<Rightarrow> 't \<Rightarrow> ('h, 't) prepared_transaction_store
   \<Rightarrow> u64 prepared_result \<times> ('h, 't) prepared_transaction_store" where
  "preparation_commit gd h t s =
     (case commit_preparation (pg_generation gd) h t s of
        (Inl e, s') \<Rightarrow> (Err e, preparation_drop gd s')
      | (Inr _, s') \<Rightarrow> (Ok (pg_generation gd), preparation_drop (gd\<lparr> pg_active := False \<rparr>) s'))"

record ('h, 't) transaction_guard =
  tg_generation :: u64
  tg_hash :: 'h
  tg_transaction :: "'t option"

definition guard_take ::
  "'h \<Rightarrow> ('h, 't) prepared_transaction_store
   \<Rightarrow> ('h, 't) transaction_guard prepared_result \<times> ('h, 't) prepared_transaction_store" where
  "guard_take h s =
     (case take_for_submission h s of
        (Inl e, s') \<Rightarrow> (Err e, s')
      | (Inr (g, t), s') \<Rightarrow>
          (Ok \<lparr> tg_generation = g, tg_hash = h, tg_transaction = Some t \<rparr>, s'))"

definition guard_take_exact ::
  "u64 \<Rightarrow> 'h \<Rightarrow> ('h, 't) prepared_transaction_store
   \<Rightarrow> ('h, 't) transaction_guard prepared_result \<times> ('h, 't) prepared_transaction_store" where
  "guard_take_exact g h s =
     (case take_for_submission_exact g h s of
        (Inl e, s') \<Rightarrow> (Err e, s')
      | (Inr t, s') \<Rightarrow> (Ok \<lparr> tg_generation = g, tg_hash = h, tg_transaction = Some t \<rparr>, s'))"

definition guard_transaction :: "('h, 't) transaction_guard \<Rightarrow> 't prepared_result" where
  "guard_transaction gd = ok_or (tg_transaction gd) EmptyGuard"

definition guard_drop ::
  "('h, 't) transaction_guard \<Rightarrow> ('h, 't) prepared_transaction_store
   \<Rightarrow> ('h, 't) prepared_transaction_store" where
  "guard_drop gd s =
     (case tg_transaction gd of
        None \<Rightarrow> s
      | Some t \<Rightarrow> snd (restore_after_submission (tg_generation gd) (tg_hash gd) t s))"

definition guard_restore ::
  "('h, 't) transaction_guard \<Rightarrow> ('h, 't) prepared_transaction_store
   \<Rightarrow> unit prepared_result \<times> ('h, 't) prepared_transaction_store" where
  "guard_restore gd s =
     (case tg_transaction gd of
        None \<Rightarrow> (Err EmptyGuard, guard_drop gd s)
      | Some t \<Rightarrow>
          (case restore_after_submission (tg_generation gd) (tg_hash gd) t s of
             (r, s') \<Rightarrow> (r, guard_drop (gd\<lparr> tg_transaction := None \<rparr>) s')))"

definition guard_finish ::
  "('h, 't) transaction_guard \<Rightarrow> ('h, 't) prepared_transaction_store
   \<Rightarrow> 't prepared_result \<times> ('h, 't) prepared_transaction_store" where
  "guard_finish gd s =
     (case tg_transaction gd of
        None \<Rightarrow> (Err EmptyGuard, guard_drop gd s)
      | Some t \<Rightarrow>
          (case finish_submission (tg_generation gd) (tg_hash gd) s of
             (True, s') \<Rightarrow> (Ok t, guard_drop (gd\<lparr> tg_transaction := None \<rparr>) s')
           | (False, s') \<Rightarrow>
               (Err SubmissionStateInconsistent, guard_drop (gd\<lparr> tg_transaction := Some t \<rparr>) s')))"

section \<open>Interleaved callers\<close>

record ('h, 't) slot_system =
  sy_store :: "('h, 't) prepared_transaction_store"
  sy_preparing :: "preparation_guard multiset"
  sy_submitting :: "('h, 't) transaction_guard multiset"
  sy_issued :: "(u64 \<times> 'h \<times> 't) list"

definition init_system :: "('h, 't) slot_system" where
  "init_system = \<lparr> sy_store = default_prepared_store, sy_preparing = {#}, sy_submitting = {#},
     sy_issued = [] \<rparr>"

definition issue ::
  "u64 prepared_result \<Rightarrow> 'h \<Rightarrow> 't \<Rightarrow> (u64 \<times> 'h \<times> 't) list \<Rightarrow> (u64 \<times> 'h \<times> 't) list" where
  "issue r h t l = (case r of Inr g \<Rightarrow> (g, h, t) # l | Inl _ \<Rightarrow> l)"

definition hold :: "'g prepared_result \<Rightarrow> 'g multiset \<Rightarrow> 'g multiset" where
  "hold r M = (case r of Inr gd \<Rightarrow> add_mset gd M | Inl _ \<Rightarrow> M)"

inductive slot_step :: "('h, 't) slot_system \<Rightarrow> ('h, 't) slot_system \<Rightarrow> bool" where
  step_begin: "preparation_begin (sy_store c) = (r, s') \<Longrightarrow>
     slot_step c (c\<lparr> sy_store := s', sy_preparing := hold r (sy_preparing c) \<rparr>)"
| step_commit: "gd \<in># sy_preparing c \<Longrightarrow> preparation_commit gd h t (sy_store c) = (r, s') \<Longrightarrow>
     slot_step c (c\<lparr> sy_store := s', sy_preparing := sy_preparing c - {#gd#},
       sy_issued := issue r h t (sy_issued c) \<rparr>)"
| step_abandon: "gd \<in># sy_preparing c \<Longrightarrow>
     slot_step c (c\<lparr> sy_store := preparation_drop gd (sy_store c),
       sy_preparing := sy_preparing c - {#gd#} \<rparr>)"
| step_replace: "replace_prepared h t (sy_store c) = (r, s') \<Longrightarrow>
     slot_step c (c\<lparr> sy_store := s', sy_issued := issue r h t (sy_issued c) \<rparr>)"
| step_cancel: "cancel_prepared h (sy_store c) = (r, s') \<Longrightarrow> slot_step c (c\<lparr> sy_store := s' \<rparr>)"
| step_cancel_exact: "cancel_exact g h (sy_store c) = (r, s') \<Longrightarrow>
     slot_step c (c\<lparr> sy_store := s' \<rparr>)"
| step_take: "guard_take h (sy_store c) = (r, s') \<Longrightarrow>
     slot_step c (c\<lparr> sy_store := s', sy_submitting := hold r (sy_submitting c) \<rparr>)"
| step_take_exact: "guard_take_exact g h (sy_store c) = (r, s') \<Longrightarrow>
     slot_step c (c\<lparr> sy_store := s', sy_submitting := hold r (sy_submitting c) \<rparr>)"
| step_restore: "gd \<in># sy_submitting c \<Longrightarrow> guard_restore gd (sy_store c) = (r, s') \<Longrightarrow>
     slot_step c (c\<lparr> sy_store := s', sy_submitting := sy_submitting c - {#gd#} \<rparr>)"
| step_finish: "gd \<in># sy_submitting c \<Longrightarrow> guard_finish gd (sy_store c) = (r, s') \<Longrightarrow>
     slot_step c (c\<lparr> sy_store := s', sy_submitting := sy_submitting c - {#gd#} \<rparr>)"
| step_drop: "gd \<in># sy_submitting c \<Longrightarrow>
     slot_step c (c\<lparr> sy_store := guard_drop gd (sy_store c),
       sy_submitting := sy_submitting c - {#gd#} \<rparr>)"

inductive_cases slot_stepE: "slot_step c c'"

section \<open>Invariant\<close>

text \<open>What the slot and the outstanding guards owe each other.\<close>

definition slot_inv :: "('h, 't) slot_system \<Rightarrow> bool" where
  "slot_inv c \<longleftrightarrow>
     (case active_preparation (sy_store c) of
        None \<Rightarrow> sy_preparing c = {#}
      | Some g \<Rightarrow> sy_preparing c = {#\<lparr> pg_generation = g, pg_active = True \<rparr>#} \<and>
          g = next_generation (sy_store c) \<and> 0 < g \<and> g \<notin> fst ` set (sy_issued c) \<and>
          \<not> is_in_flight (state (sy_store c))) \<and>
     (case state (sy_store c) of
        Empty \<Rightarrow> sy_submitting c = {#}
      | Ready g h t \<Rightarrow> sy_submitting c = {#} \<and> (g, h, t) \<in> set (sy_issued c)
      | InFlight g h \<Rightarrow> (\<exists>t. (g, h, t) \<in> set (sy_issued c) \<and>
          sy_submitting c = {#\<lparr> tg_generation = g, tg_hash = h, tg_transaction = Some t \<rparr>#})) \<and>
     distinct (map fst (sy_issued c)) \<and>
     (\<forall>g \<in> fst ` set (sy_issued c). g \<le> next_generation (sy_store c))"

definition slot_held :: "('h, 't) slot_system \<Rightarrow> (u64 \<times> 'h) option" where
  "slot_held c =
     (case state (sy_store c) of
        Empty \<Rightarrow> None | Ready g h t \<Rightarrow> Some (g, h) | InFlight g h \<Rightarrow> Some (g, h))"

definition slot_used :: "('h, 't) slot_system \<Rightarrow> u64" where
  "slot_used c =
     (case active_preparation (sy_store c) of
        None \<Rightarrow> next_generation (sy_store c)
      | Some g \<Rightarrow> next_generation (sy_store c) - 1)"

section \<open>Lemmas\<close>

lemma pred_le: "0 < g \<Longrightarrow> g - 1 \<le> (g :: u64)"
  by (metis diff_le_self unat_minus_one word_gt_0 word_le_nat_alt)

lemmas store_defs [store_simps] =
  allocate_generation_def ensure_replaceable_def ensure_slot_operation_available_def
  ensure_ready_exact_def ready_exact_def replace_prepared_def begin_preparation_def
  commit_preparation_def abandon_preparation_def take_cancelled_def cancel_prepared_def
  cancel_exact_def take_ready_for_submission_def take_for_submission_def
  take_for_submission_exact_def restore_after_submission_def finish_submission_def

lemmas guard_defs [store_simps] =
  preparation_begin_def preparation_drop_def preparation_commit_def guard_take_def
  guard_take_exact_def guard_transaction_def guard_drop_def guard_restore_def guard_finish_def
  hold_def issue_def

interpretation prepared_generation: generation_source allocate_generation next_generation
  by unfold_locales
    (auto simp: allocate_generation_def checked_succ_None checked_succ_Some(4) split: option.splits)

lemma pred_less: "0 < g \<Longrightarrow> g - 1 < (g :: u64)"
  by (metis less_le measure_unat pred_le word_gt_0 word_less_nat_alt)

lemma slot_inv_init: "slot_inv init_system"
  by (simp add: slot_inv_def init_system_def default_prepared_store_def)

lemma fresh_generation:
  assumes "slot_inv c" "allocate_generation (sy_store c) = (Ok g, s')"
    and "active_preparation (sy_store c) = None"
  shows "g \<notin> fst ` set (sy_issued c)" "\<forall>g' \<in> fst ` set (sy_issued c). g' \<le> g" "0 < g"
    "s' = (sy_store c)\<lparr> next_generation := g \<rparr>"
proof -
  have less: "next_generation (sy_store c) < g"
    using assms(2) by (rule prepared_generation.alloc_fresh)
  then show "g \<notin> fst ` set (sy_issued c)" "\<forall>g' \<in> fst ` set (sy_issued c). g' \<le> g"
    using assms(1) by (auto simp: slot_inv_def)
  show "0 < g"
    using less word_coorder.not_eq_extremum by fastforce
  show "s' = (sy_store c)\<lparr> next_generation := g \<rparr>"
    using assms(2) by (auto simp: allocate_generation_def split: option.splits)
qed

lemma inv_begin:
  assumes "slot_inv c" "preparation_begin (sy_store c) = (r, s')"
  shows "slot_inv (c\<lparr> sy_store := s', sy_preparing := hold r (sy_preparing c) \<rparr>)"
proof (cases r)
  case (Inl e)
  then show ?thesis
    using assms by (auto simp: preparation_begin_def begin_preparation_def ensure_replaceable_def
        allocate_generation_def hold_def split: sum.splits option.splits if_splits prod.splits)
next
  case (Inr gd)
  then obtain g s1 where alloc: "allocate_generation (sy_store c) = (Ok g, s1)"
    and gd: "gd = \<lparr> pg_generation = g, pg_active = True \<rparr>"
    and s': "s' = s1\<lparr> active_preparation := Some g \<rparr>"
    and idle: "active_preparation (sy_store c) = None" "\<not> is_in_flight (state (sy_store c))"
    using assms(2) by (auto simp: preparation_begin_def begin_preparation_def ensure_replaceable_def
        split: sum.splits if_splits prod.splits)
  show ?thesis
    using assms(1) fresh_generation [OF assms(1) alloc idle(1)] idle gd s' Inr
    by (auto simp: slot_inv_def hold_def split: prepared_transaction_state.splits)
qed

lemma inv_replace:
  assumes "slot_inv c" "replace_prepared h t (sy_store c) = (r, s')"
  shows "slot_inv (c\<lparr> sy_store := s', sy_issued := issue r h t (sy_issued c) \<rparr>)"
proof (cases r)
  case (Inl e)
  then show ?thesis
    using assms by (auto simp: replace_prepared_def ensure_replaceable_def
        allocate_generation_def issue_def split: sum.splits option.splits if_splits prod.splits)
next
  case (Inr g)
  then obtain s1 where alloc: "allocate_generation (sy_store c) = (Ok g, s1)"
    and s': "s' = s1\<lparr> state := Ready g h t \<rparr>"
    and idle: "active_preparation (sy_store c) = None" "\<not> is_in_flight (state (sy_store c))"
    using assms(2) by (auto simp: replace_prepared_def ensure_replaceable_def
        split: sum.splits if_splits prod.splits)
  show ?thesis
    using assms(1) fresh_generation [OF assms(1) alloc idle(1)] idle s' Inr
    by (auto simp: slot_inv_def issue_def split: prepared_transaction_state.splits)
qed

lemma inv_commit:
  assumes "slot_inv c" "gd \<in># sy_preparing c" "preparation_commit gd h t (sy_store c) = (r, s')"
  shows "slot_inv (c\<lparr> sy_store := s', sy_preparing := sy_preparing c - {#gd#},
    sy_issued := issue r h t (sy_issued c) \<rparr>)"
  using assms
  by (cases gd) (auto simp: slot_inv_def preparation_commit_def commit_preparation_def preparation_drop_def
      issue_def split: option.splits prepared_transaction_state.splits; force)

lemma inv_abandon:
  assumes "slot_inv c" "gd \<in># sy_preparing c"
  shows "slot_inv (c\<lparr> sy_store := preparation_drop gd (sy_store c),
    sy_preparing := sy_preparing c - {#gd#} \<rparr>)"
  using assms
  by (cases gd) (auto simp: slot_inv_def preparation_drop_def abandon_preparation_def
      split: option.splits prepared_transaction_state.splits)

lemma inv_cancel:
  assumes "slot_inv c"
  shows "cancel_prepared h (sy_store c) = (r, s') \<Longrightarrow> slot_inv (c\<lparr> sy_store := s' \<rparr>)"
    and "cancel_exact g h (sy_store c) = (r', s') \<Longrightarrow> slot_inv (c\<lparr> sy_store := s' \<rparr>)"
  using assms
  by (auto simp: slot_inv_def cancel_prepared_def cancel_exact_def take_cancelled_def
      ensure_slot_operation_available_def
      split: option.splits prepared_transaction_state.splits if_splits)

lemma inv_take:
  assumes "slot_inv c"
  shows "guard_take h (sy_store c) = (r, s') \<Longrightarrow>
      slot_inv (c\<lparr> sy_store := s', sy_submitting := hold r (sy_submitting c) \<rparr>)"
    and "guard_take_exact g h (sy_store c) = (r, s') \<Longrightarrow>
      slot_inv (c\<lparr> sy_store := s', sy_submitting := hold r (sy_submitting c) \<rparr>)"
  using assms
  by (auto simp: slot_inv_def guard_take_def guard_take_exact_def take_for_submission_def
      take_for_submission_exact_def take_ready_for_submission_def hold_def
      ensure_slot_operation_available_def
      split: option.splits prepared_transaction_state.splits if_splits)

lemma inv_release:
  assumes "slot_inv c" "gd \<in># sy_submitting c"
  shows "guard_restore gd (sy_store c) = (r, s') \<Longrightarrow>
      slot_inv (c\<lparr> sy_store := s', sy_submitting := sy_submitting c - {#gd#} \<rparr>)"
    and "guard_finish gd (sy_store c) = (r', s') \<Longrightarrow>
      slot_inv (c\<lparr> sy_store := s', sy_submitting := sy_submitting c - {#gd#} \<rparr>)"
    and "slot_inv (c\<lparr> sy_store := guard_drop gd (sy_store c),
      sy_submitting := sy_submitting c - {#gd#} \<rparr>)"
  using assms
  by ((cases gd; auto simp: slot_inv_def guard_restore_def guard_finish_def guard_drop_def
      restore_after_submission_def finish_submission_def
      split: option.splits prepared_transaction_state.splits if_splits)+)

lemma slot_inv_step: "slot_step c c' \<Longrightarrow> slot_inv c \<Longrightarrow> slot_inv c'"
  by (induction rule: slot_step.induct)
    (simp_all add: inv_begin inv_replace inv_commit inv_abandon inv_cancel inv_take inv_release)

lemma slot_inv_reachable: "slot_step\<^sup>*\<^sup>* init_system c \<Longrightarrow> slot_inv c"
  by (induction rule: rtranclp_induct) (auto intro: slot_inv_init slot_inv_step)

lemma slot_used_bound: "slot_inv c \<Longrightarrow> g \<in> fst ` set (sy_issued c) \<Longrightarrow> g \<le> slot_used c"
  by (auto simp: slot_inv_def slot_used_def word_le_nat_alt word_less_nat_alt unat_minus_one
      split: option.splits)
    (metis (no_types, lifting) One_nat_def Suc_pred fst_conv image_eqI le_SucE neq0_conv
      unat_0 unat_minus_one word_unat_eq_iff)

lemma slot_used_begin:
  "preparation_begin s = (r, s') \<Longrightarrow>
   slot_used (c\<lparr> sy_store := s', sy_preparing := M \<rparr>) = slot_used (c\<lparr> sy_store := s \<rparr>)"
  by (auto simp: preparation_begin_def begin_preparation_def ensure_replaceable_def
      allocate_generation_def slot_used_def dest: checked_succ_Some(2)
      split: option.splits sum.splits if_splits prod.splits)

lemma slot_used_step: "slot_step c c' \<Longrightarrow> slot_inv c \<Longrightarrow> slot_used c \<le> slot_used c'"
proof (induction rule: slot_step.induct)
  case (step_begin c r s')
  then show ?case
    using slot_used_begin [OF step_begin(1), where c = c] by simp
qed (auto simp: store_simps slot_used_def slot_inv_def pred_le
    dest: checked_succ_Some(1)
    split: option.splits sum.splits if_splits prod.splits prepared_transaction_state.splits)

lemma slot_held_issued: "slot_inv c \<Longrightarrow> slot_held c = Some (g, h) \<Longrightarrow> \<exists>t. (g, h, t) \<in> set (sy_issued c)"
  by (auto simp: slot_inv_def slot_held_def split: prepared_transaction_state.splits)

lemma slot_held_step:
  "slot_step c c' \<Longrightarrow> slot_inv c \<Longrightarrow> slot_held c' = Some (g, h) \<Longrightarrow>
   slot_held c = Some (g, h) \<or> slot_used c < g"
proof (induction rule: slot_step.induct)
  case (step_commit gd c h t r s')
  then show ?case
    by (cases gd) (auto simp: store_simps slot_held_def slot_used_def slot_inv_def pred_less
        split: option.splits if_splits prepared_transaction_state.splits)
next
  case (step_replace h t c r s')
  then show ?case
    by (auto simp: replace_prepared_def ensure_replaceable_def slot_held_def slot_used_def
        dest!: prepared_generation.alloc_fresh prepared_generation.alloc_Err
        split: option.splits sum.splits if_splits prod.splits)
next
  case (step_begin c r s')
  then show ?case
    by (auto simp: store_simps slot_held_def
        split: option.splits sum.splits if_splits prepared_transaction_state.splits)
qed (auto simp: store_simps slot_held_def
    split: option.splits if_splits prepared_transaction_state.splits)

interpretation prepared_slot: capability_slot slot_inv slot_held slot_used slot_step
proof unfold_locales
  fix c c' :: "('h, 't) slot_system" and g h
  assume inv: "slot_inv c"
  show "g \<le> slot_used c" if "slot_held c = Some (g, h)"
    using slot_held_issued [OF inv that] by (force intro: slot_used_bound [OF inv])
  assume step: "slot_step c c'"
  show "slot_inv c'" "slot_used c \<le> slot_used c'"
    using slot_inv_step [OF step inv] slot_used_step [OF step inv] by simp_all
  show "slot_held c = Some (g, h) \<or> slot_used c < g" if "slot_held c' = Some (g, h)"
    using slot_held_step [OF step inv that] .
qed

lemma exact_operations_need_held:
  "ready_exact g h (sy_store c) = Ok t \<Longrightarrow> slot_held c = Some (g, h)"
  "fst (cancel_exact g h (sy_store c)) = Ok t \<Longrightarrow> slot_held c = Some (g, h)"
  "fst (take_for_submission_exact g h (sy_store c)) = Ok t \<Longrightarrow> slot_held c = Some (g, h)"
  by (auto simp: store_simps slot_held_def result_simps
      split: prepared_transaction_state.splits if_splits option.splits)

lemma exact_operations_ready:
  "ready_exact g h s = Ok t \<Longrightarrow> state s = Ready g h t"
  "fst (cancel_exact g h s) = Ok t \<Longrightarrow> state s = Ready g h t"
  "fst (take_for_submission_exact g h s) = Ok t \<Longrightarrow> state s = Ready g h t"
  by (auto simp: store_simps result_simps
      split: prepared_transaction_state.splits if_splits option.splits)

lemma issued_content_unique:
  assumes "slot_inv c" "(g, h, t) \<in> set (sy_issued c)" "state (sy_store c) = Ready g h' t'"
  shows "h' = h \<and> t' = t"
proof -
  have "(g, h', t') \<in> set (sy_issued c)" "distinct (map fst (sy_issued c))"
    using assms(1,3) by (simp_all add: slot_inv_def)
  then show ?thesis
    using assms(2) eq_key_imp_eq_value [of "sy_issued c" g "(h', t')" "(h, t)"] by simp
qed

lemma demo_issue:
  "slot_step\<^sup>*\<^sup>* init_system
     \<lparr> sy_store = \<lparr> state = Ready 1 ''hash'' (7 :: nat), next_generation = 1,
         active_preparation = None \<rparr>,
       sy_preparing = {#}, sy_submitting = {#}, sy_issued = [(1, ''hash'', 7)] \<rparr>"
  (is "slot_step\<^sup>*\<^sup>* _ ?c")
proof -
  have "slot_step init_system ?c"
    using step_replace [of "''hash''" 7 init_system "Ok 1" "sy_store ?c"]
    by (simp add: init_system_def default_prepared_store_def store_simps checked_add_def)
  then show ?thesis by blast
qed

lemma demo_cancel:
  "slot_step\<^sup>*\<^sup>*
     \<lparr> sy_store = \<lparr> state = Ready 1 ''hash'' (7 :: nat), next_generation = 1,
         active_preparation = None \<rparr>,
       sy_preparing = {#}, sy_submitting = {#}, sy_issued = [(1, ''hash'', 7)] \<rparr>
     \<lparr> sy_store = \<lparr> state = Empty, next_generation = 1, active_preparation = None \<rparr>,
       sy_preparing = {#}, sy_submitting = {#}, sy_issued = [(1, ''hash'', 7)] \<rparr>"
  (is "slot_step\<^sup>*\<^sup>* ?c ?c'")
proof -
  have "slot_step ?c ?c'"
    using step_cancel_exact [of 1 "''hash''" ?c "Ok 7" "sy_store ?c'"]
    by (simp add: store_simps)
  then show ?thesis by blast
qed

lemma demo_take:
  "slot_step\<^sup>*\<^sup>*
     \<lparr> sy_store = \<lparr> state = Ready 1 ''hash'' (7 :: nat), next_generation = 1,
         active_preparation = None \<rparr>,
       sy_preparing = {#}, sy_submitting = {#}, sy_issued = [(1, ''hash'', 7)] \<rparr>
     \<lparr> sy_store = \<lparr> state = InFlight 1 ''hash'', next_generation = 1, active_preparation = None \<rparr>,
       sy_preparing = {#},
       sy_submitting = {#\<lparr> tg_generation = 1, tg_hash = ''hash'', tg_transaction = Some 7 \<rparr>#},
       sy_issued = [(1, ''hash'', 7)] \<rparr>"
  (is "slot_step\<^sup>*\<^sup>* ?c ?c'")
proof -
  have "slot_step ?c ?c'"
    using step_take_exact [of 1 "''hash''" ?c
        "Ok \<lparr> tg_generation = 1, tg_hash = ''hash'', tg_transaction = Some 7 \<rparr>" "sy_store ?c'"]
    by (simp add: store_simps)
  then show ?thesis by blast
qed

section \<open>Properties\<close>

text \<open>
  C1: capability exactness.  However callers interleave, a generation that was
  issued for a hash and a transaction reads, cancels or submits that
  transaction and no other, and only together with that hash.
\<close>

theorem prepared_capability_exact:
  assumes "slot_step\<^sup>*\<^sup>* init_system c" "(g, h, t) \<in> set (sy_issued c)"
    and "ready_exact g h' (sy_store c) = Ok t' \<or> fst (cancel_exact g h' (sy_store c)) = Ok t' \<or>
      fst (take_for_submission_exact g h' (sy_store c)) = Ok t'"
  shows "h' = h \<and> t' = t"
  using assms(3) exact_operations_ready [of g h' "sy_store c" t']
    issued_content_unique [OF slot_inv_reachable [OF assms(1)] assms(2)]
  by blast

theorem prepared_capability_exact_witness:
  "ready_exact 1 ''hash'' \<lparr> state = Ready 1 ''hash'' (7 :: nat), next_generation = 1,
     active_preparation = None \<rparr> = Ok 7 \<and> ''hash'' = ''hash'' \<and> (7 :: nat) = 7"
proof -
  have "ready_exact 1 ''hash'' \<lparr> state = Ready 1 ''hash'' (7 :: nat), next_generation = 1,
     active_preparation = None \<rparr> = Ok 7"
    by (simp add: store_simps)
  then show ?thesis
    using prepared_capability_exact [OF demo_issue, of 1 "''hash''" 7 "''hash''" 7] by simp
qed

text \<open>
  C2: capabilities are single use.  Once the slot no longer holds an issued
  generation, because it was cancelled, submitted or replaced, no later
  interleaving makes any exact operation with that generation succeed.
\<close>

theorem prepared_capability_single_use:
  assumes "slot_step\<^sup>*\<^sup>* init_system c" "(g, h, t) \<in> set (sy_issued c)"
    and "\<forall>h'. slot_held c \<noteq> Some (g, h')" "slot_step\<^sup>*\<^sup>* c c'"
  shows "ready_exact g h' (sy_store c') \<noteq> Ok t' \<and> fst (cancel_exact g h' (sy_store c')) \<noteq> Ok t' \<and>
    fst (take_for_submission_exact g h' (sy_store c')) \<noteq> Ok t'"
proof -
  have inv: "slot_inv c" using assms(1) by (rule slot_inv_reachable)
  have "spent_capability slot_held slot_used g c"
    using assms(2,3) slot_used_bound [OF inv] by (force simp: spent_iff)
  then have "slot_held c' \<noteq> Some (g, h')"
    using prepared_slot.spent_forever [OF assms(4) inv] by (simp add: spent_iff)
  then show ?thesis
    using exact_operations_need_held [of g h' c' t'] by blast
qed

theorem prepared_capability_single_use_witness:
  "fst (cancel_exact 1 ''hash'' \<lparr> state = (Empty :: (string, nat) prepared_transaction_state),
     next_generation = 1, active_preparation = None \<rparr>) \<noteq> Ok 7"
  using prepared_capability_single_use
      [OF rtranclp_trans [OF demo_issue demo_cancel] _ _ rtranclp.rtrancl_refl,
        of 1 "''hash''" 7 "''hash''" 7]
  by (simp add: slot_held_def)

text \<open>
  C3: guards keep their word.  In every interleaving, whoever holds a submission
  guard can finish it, which returns the transaction and empties the slot, and
  restoring or dropping it puts the transaction back under its generation and
  hash; whoever holds a preparation guard can commit it.  The inconsistent
  states the code checks for are never reached.
\<close>

theorem guards_never_inconsistent:
  assumes "slot_step\<^sup>*\<^sup>* init_system c"
  shows "(\<forall>gd \<in># sy_submitting c. \<exists>t. tg_transaction gd = Some t \<and>
      guard_finish gd (sy_store c) = (Ok t, (sy_store c)\<lparr> state := Empty \<rparr>) \<and>
      guard_restore gd (sy_store c) = (Ok (), guard_drop gd (sy_store c)) \<and>
      state (guard_drop gd (sy_store c)) = Ready (tg_generation gd) (tg_hash gd) t) \<and>
    (\<forall>gd \<in># sy_preparing c. \<forall>h t. preparation_commit gd h t (sy_store c) =
      (Ok (pg_generation gd), (sy_store c)\<lparr> state := Ready (pg_generation gd) h t,
         active_preparation := None \<rparr>))"
  using slot_inv_reachable [OF assms]
  by (auto simp: slot_inv_def guard_finish_def guard_restore_def guard_drop_def
      restore_after_submission_def finish_submission_def preparation_commit_def
      commit_preparation_def preparation_drop_def
      split: option.splits prepared_transaction_state.splits;
      metis transaction_guard.select_convs(3))

theorem guards_never_inconsistent_witness:
  "fst (guard_finish \<lparr> tg_generation = 1, tg_hash = ''hash'', tg_transaction = Some (7 :: nat) \<rparr>
     \<lparr> state = InFlight 1 ''hash'', next_generation = 1, active_preparation = None \<rparr>) = Ok 7"
  using guards_never_inconsistent [OF rtranclp_trans [OF demo_issue demo_take]] by simp

text \<open>
  C4: one owner at a time.  In every interleaving at most one preparation or
  submission is outstanding, and while one is, no other caller can start a
  preparation, replace the slot or take it for submission.
\<close>

theorem slot_mutual_exclusion:
  assumes "slot_step\<^sup>*\<^sup>* init_system c"
  shows "size (sy_preparing c) + size (sy_submitting c) \<le> 1 \<and>
    (size (sy_preparing c) + size (sy_submitting c) = 1 \<longrightarrow>
      \<not> is_ok (fst (preparation_begin (sy_store c))) \<and>
      \<not> is_ok (fst (replace_prepared h t (sy_store c))) \<and>
      \<not> is_ok (fst (guard_take_exact g h (sy_store c))) \<and>
      \<not> is_ok (fst (guard_take h (sy_store c))))"
  using slot_inv_reachable [OF assms]
  by (auto simp: slot_inv_def store_simps
      split: option.splits prepared_transaction_state.splits)

theorem slot_mutual_exclusion_witness:
  "\<not> is_ok (fst (preparation_begin
     \<lparr> state = (InFlight 1 ''hash'' :: (string, nat) prepared_transaction_state),
       next_generation = 1, active_preparation = None \<rparr>))"
  using slot_mutual_exclusion [OF rtranclp_trans [OF demo_issue demo_take]] by simp

text \<open>
  An interrupted submission or preparation leaves the slot as it was.
  Dropping or restoring a submission guard gives back exactly the store it was
  taken from, and dropping a preparation guard changes nothing but the counter.
\<close>

theorem interrupted_operation_restores:
  "(guard_take_exact g h s = (Ok gd, s1) \<longrightarrow> guard_drop gd s1 = s \<and> guard_restore gd s1 = (Ok (), s)) \<and>
   (guard_take h s = (Ok gd, s1) \<longrightarrow> guard_drop gd s1 = s \<and> guard_restore gd s1 = (Ok (), s)) \<and>
   (preparation_begin s = (Ok pgd, s2) \<longrightarrow>
      preparation_drop pgd s2 = s\<lparr> next_generation := pg_generation pgd \<rparr>)"
  by (auto simp: store_simps
      split: option.splits prepared_transaction_state.splits if_splits sum.splits prod.splits)

theorem interrupted_operation_restores_witness:
  "guard_drop \<lparr> tg_generation = 1, tg_hash = ''hash'', tg_transaction = Some (7 :: nat) \<rparr>
     \<lparr> state = InFlight 1 ''hash'', next_generation = 1, active_preparation = None \<rparr> =
   \<lparr> state = Ready 1 ''hash'' 7, next_generation = 1, active_preparation = None \<rparr>"
  using interrupted_operation_restores [of 1 "''hash''"
      "\<lparr> state = Ready 1 ''hash'' (7 :: nat), next_generation = 1, active_preparation = None \<rparr>"]
  by (simp add: guard_take_exact_def take_for_submission_exact_def take_ready_for_submission_def
      ensure_slot_operation_available_def)

end
