(* ===== verification/Data_Element.thy ===== *)
theory Data_Element
  imports Native_Error
begin

text \<open>
  The tagged wire of \<open>models/address_dtos.rs\<close> for the upstream data elements:
  scalar values with their integer width, arrays, and ordered fields.  An
  \<open>IndexMap\<close> is the association list of its entries in insertion order.
  Hashes are a type parameter; their text forms are the fields of \<open>hash_api\<close>.
\<close>

section \<open>Upstream data\<close>

datatype 'h data_value =
  DBool bool | DString string | DU8 u8 | DU16 u16 | DU32 u32 | DU64 u64 | DU128 u128
| DHash 'h | DBlob "u8 list"

datatype 'h data_element =
  DValue "'h data_value"
| DArray "'h data_element list"
| DFields "('h data_value \<times> 'h data_element) list"

record 'h hash_api =
  to_hex :: "'h \<Rightarrow> string"
  from_hex :: "string \<Rightarrow> ('h, string) result"
  hash_from_str :: "string \<Rightarrow> ('h, string) result"

section \<open>Wire types\<close>

datatype native_unsigned_type = U8 | U16 | U32 | U64 | U128

datatype native_data_value =
  BoolValue bool
| StringValue string
| UnsignedInteger native_unsigned_type string
| HashValue string
| BlobValue "u8 list"

datatype native_data_element =
  NValue native_data_value
| NArray "native_data_element list"
| NFields "(native_data_value \<times> native_data_element) list"

type_synonym native_data_field = "native_data_value \<times> native_data_element"

definition DATA_ELEMENT_COLLECTION_LIMIT :: nat where
  "DATA_ELEMENT_COLLECTION_LIMIT = 255"

definition DATA_ELEMENT_BLOB_LIMIT :: nat where
  "DATA_ELEMENT_BLOB_LIMIT = 65535"

section \<open>To the wire\<close>

definition native_unsigned :: "native_unsigned_type \<Rightarrow> 'a::len word \<Rightarrow> native_data_value" where
  "native_unsigned ty v = UnsignedInteger ty (decimal_of_nat (unat v))"

fun value_from_xelis :: "'h hash_api \<Rightarrow> 'h data_value \<Rightarrow> native_data_value" where
  "value_from_xelis H (DBool b) = BoolValue b"
| "value_from_xelis H (DString s) = StringValue s"
| "value_from_xelis H (DU8 v) = native_unsigned U8 v"
| "value_from_xelis H (DU16 v) = native_unsigned U16 v"
| "value_from_xelis H (DU32 v) = native_unsigned U32 v"
| "value_from_xelis H (DU64 v) = native_unsigned U64 v"
| "value_from_xelis H (DU128 v) = native_unsigned U128 v"
| "value_from_xelis H (DHash h) = HashValue (to_hex H h)"
| "value_from_xelis H (DBlob bytes) = BlobValue bytes"

fun element_from_xelis :: "'h hash_api \<Rightarrow> 'h data_element \<Rightarrow> native_data_element" where
  "element_from_xelis H (DValue v) = NValue (value_from_xelis H v)"
| "element_from_xelis H (DArray vs) = NArray (map (element_from_xelis H) vs)"
| "element_from_xelis H (DFields fs) =
     NFields (map (\<lambda>(k, v). (value_from_xelis H k, element_from_xelis H v)) fs)"

section \<open>From the wire\<close>

text \<open>\<open>str::parse\<close> for an unsigned type: an optional plus sign, digits, and the range check.\<close>

definition digit_value :: "char \<Rightarrow> nat option" where
  "digit_value c =
     (if 48 \<le> (of_char c :: nat) \<and> (of_char c :: nat) \<le> 57 then Some (of_char c - 48) else None)"

fun digits_value :: "nat \<Rightarrow> string \<Rightarrow> nat option" where
  "digits_value acc [] = Some acc"
| "digits_value acc (c # cs) =
     (case digit_value c of None \<Rightarrow> None | Some d \<Rightarrow> digits_value (10 * acc + d) cs)"

definition parse_nat :: "string \<Rightarrow> nat option" where
  "parse_nat s =
     (let ds = (case s of c # cs \<Rightarrow> if c = CHR ''+'' then cs else s | [] \<Rightarrow> [])
      in if ds = [] then None else digits_value 0 ds)"

definition parse_word :: "string \<Rightarrow> 'a::len word option" where
  "parse_word s =
     (case parse_nat s of
        None \<Rightarrow> None
      | Some n \<Rightarrow> if n < 2 ^ LENGTH('a) then Some (word_of_nat n) else None)"

definition parse_canonical :: "string \<Rightarrow> ('a::len word, native_xelis_error) result" where
  "parse_canonical s =
     and_then (ok_or (parse_word s)
         (xelis_wallet_flutter_error InvalidInput ''DATA_ELEMENT_UNSIGNED_INVALID''
            ''Data-element unsigned integer is invalid or outside its declared width''))
       (\<lambda>v :: 'a word.
         if decimal_of_nat (unat v) \<noteq> s
         then Err (xelis_wallet_flutter_error InvalidInput ''DATA_ELEMENT_UNSIGNED_NON_CANONICAL''
                ''Data-element unsigned integer must use canonical base-10 notation'')
         else Ok v)"

fun parse_unsigned ::
  "native_unsigned_type \<Rightarrow> string \<Rightarrow> ('h data_value, native_xelis_error) result" where
  "parse_unsigned U8 s = map_ok DU8 (parse_canonical s)"
| "parse_unsigned U16 s = map_ok DU16 (parse_canonical s)"
| "parse_unsigned U32 s = map_ok DU32 (parse_canonical s)"
| "parse_unsigned U64 s = map_ok DU64 (parse_canonical s)"
| "parse_unsigned U128 s = map_ok DU128 (parse_canonical s)"

definition ensure_collection_limit :: "nat \<Rightarrow> string \<Rightarrow> (unit, native_xelis_error) result" where
  "ensure_collection_limit n collection =
     (if n > DATA_ELEMENT_COLLECTION_LIMIT
      then Err (xelis_wallet_flutter_error InvalidInput ''DATA_ELEMENT_COLLECTION_TOO_LARGE''
        (''Data-element '' @ collection @ '' contains '' @ decimal_of_nat n @
         '' entries; the protocol limit is '' @ decimal_of_nat DATA_ELEMENT_COLLECTION_LIMIT))
      else Ok ())"

fun value_into_xelis ::
  "'h hash_api \<Rightarrow> native_data_value \<Rightarrow> ('h data_value, native_xelis_error) result" where
  "value_into_xelis H (BoolValue b) = Ok (DBool b)"
| "value_into_xelis H (StringValue s) = Ok (DString s)"
| "value_into_xelis H (UnsignedInteger ty s) = parse_unsigned ty s"
| "value_into_xelis H (HashValue s) =
     map_err (\<lambda>msg. xelis_wallet_flutter_error InvalidInput ''DATA_ELEMENT_HASH_INVALID'' msg)
       (map_ok DHash (hash_from_str H s))"
| "value_into_xelis H (BlobValue bytes) =
     (if length bytes > DATA_ELEMENT_BLOB_LIMIT
      then Err (xelis_wallet_flutter_error InvalidInput ''DATA_ELEMENT_BLOB_TOO_LARGE''
        (''Data-element blob contains '' @ decimal_of_nat (length bytes) @
         '' bytes; the protocol limit is '' @ decimal_of_nat DATA_ELEMENT_BLOB_LIMIT))
      else Ok (DBlob bytes))"

fun element_into_xelis ::
  "'h hash_api \<Rightarrow> native_data_element \<Rightarrow> ('h data_element, native_xelis_error) result"
and fields_into_xelis ::
  "'h hash_api \<Rightarrow> native_data_field list \<Rightarrow> ('h data_value \<times> 'h data_element) list
   \<Rightarrow> (('h data_value \<times> 'h data_element) list, native_xelis_error) result" where
  "element_into_xelis H (NValue v) = map_ok DValue (value_into_xelis H v)"
| "element_into_xelis H (NArray vs) =
     and_then (ensure_collection_limit (length vs) ''array'') (\<lambda>_.
       map_ok DArray (collect_results (element_into_xelis H) vs))"
| "element_into_xelis H (NFields fs) =
     and_then (ensure_collection_limit (length fs) ''fields'') (\<lambda>_.
       map_ok DFields (fields_into_xelis H fs []))"
| "fields_into_xelis H [] converted = Ok converted"
| "fields_into_xelis H ((k, v) # fs) converted =
     and_then (value_into_xelis H k) (\<lambda>key.
       if key \<in> fst ` set converted
       then Err (xelis_wallet_flutter_error InvalidInput ''DATA_ELEMENT_FIELD_DUPLICATE''
              ''Data-element fields contain a duplicate key'')
       else and_then (element_into_xelis H v) (\<lambda>val.
              fields_into_xelis H fs (converted @ [(key, val)])))"

section \<open>Specification\<close>

text \<open>The limits the protocol puts on a data element.\<close>

fun value_within_limits :: "'h data_value \<Rightarrow> bool" where
  "value_within_limits (DBlob bytes) \<longleftrightarrow> length bytes \<le> DATA_ELEMENT_BLOB_LIMIT"
| "value_within_limits _ \<longleftrightarrow> True"

fun within_limits :: "'h data_element \<Rightarrow> bool" where
  "within_limits (DValue v) \<longleftrightarrow> value_within_limits v"
| "within_limits (DArray vs) \<longleftrightarrow>
     length vs \<le> DATA_ELEMENT_COLLECTION_LIMIT \<and> list_all within_limits vs"
| "within_limits (DFields fs) \<longleftrightarrow>
     length fs \<le> DATA_ELEMENT_COLLECTION_LIMIT \<and> distinct (map fst fs) \<and>
     list_all (\<lambda>(k, v). value_within_limits k \<and> within_limits v) fs"

text \<open>The hash texts that occur in a wire element.\<close>

fun value_hash_texts :: "native_data_value \<Rightarrow> string set" where
  "value_hash_texts (HashValue s) = {s}"
| "value_hash_texts _ = {}"

fun hash_texts :: "native_data_element \<Rightarrow> string set" where
  "hash_texts (NValue v) = value_hash_texts v"
| "hash_texts (NArray vs) = (\<Union>v \<in> set vs. hash_texts v)"
| "hash_texts (NFields fs) = (\<Union>(k, v) \<in> set fs. value_hash_texts k \<union> hash_texts v)"

section \<open>Lemmas\<close>

lemma digit_value_char: "d < 10 \<Longrightarrow> digit_value (digit_char d) = Some d"
  by (simp add: digit_value_def digit_char_def)

lemma digits_value_append:
  "digits_value acc (xs @ ys) =
     (case digits_value acc xs of None \<Rightarrow> None | Some v \<Rightarrow> digits_value v ys)"
  by (induction acc xs rule: digits_value.induct) (auto split: option.split)

lemma digits_value_decimal: "digits_value 0 (decimal_of_nat n) = Some n"
proof (induction n rule: decimal_of_nat.induct)
  case (1 n)
  then show ?case
    by (cases "n < 10")
      (simp_all add: decimal_of_nat.simps [of n] digits_value_append digit_value_char)
qed

lemma decimal_of_nat_not_Nil [simp]: "decimal_of_nat n \<noteq> []"
  by (simp add: decimal_of_nat.simps [of n])

lemma decimal_of_nat_hd: "\<exists>d cs. decimal_of_nat n = d # cs \<and> d \<noteq> CHR ''+''"
proof (induction n rule: decimal_of_nat.induct)
  case (1 n)
  have plus: "digit_value (CHR ''+'') = None"
    by (simp add: digit_value_def)
  show ?case
  proof (cases "n < 10")
    case True
    then show ?thesis
      using digit_value_char [OF True] plus
      by (auto simp: decimal_of_nat.simps [of n])
  next
    case False
    then show ?thesis
      using 1 by (auto simp: decimal_of_nat.simps [of n])
  qed
qed

lemma parse_nat_decimal: "parse_nat (decimal_of_nat n) = Some n"
  using decimal_of_nat_hd [of n] digits_value_decimal [of n]
  by (auto simp: parse_nat_def Let_def)

lemma decimal_of_nat_inject [simp]: "decimal_of_nat m = decimal_of_nat n \<longleftrightarrow> m = n"
  using parse_nat_decimal by (metis option.inject)

lemma parse_word_decimal: "parse_word (decimal_of_nat (unat v)) = Some v"
  by (simp add: parse_word_def parse_nat_decimal)

lemma parse_canonical_iff: "parse_canonical s = Ok v \<longleftrightarrow> s = decimal_of_nat (unat v)"
  by (auto simp: parse_canonical_def result_simps parse_word_decimal)

lemma parse_unsigned_iff:
  "parse_unsigned ty s = Ok v \<longleftrightarrow>
     (\<exists>w. ty = U8 \<and> v = DU8 w \<and> s = decimal_of_nat (unat w)) \<or>
     (\<exists>w. ty = U16 \<and> v = DU16 w \<and> s = decimal_of_nat (unat w)) \<or>
     (\<exists>w. ty = U32 \<and> v = DU32 w \<and> s = decimal_of_nat (unat w)) \<or>
     (\<exists>w. ty = U64 \<and> v = DU64 w \<and> s = decimal_of_nat (unat w)) \<or>
     (\<exists>w. ty = U128 \<and> v = DU128 w \<and> s = decimal_of_nat (unat w))"
  by (cases ty) (auto simp: result_simps parse_canonical_iff)

lemma ensure_collection_limit_Ok [simp]:
  "ensure_collection_limit n c = Ok u \<longleftrightarrow> n \<le> DATA_ELEMENT_COLLECTION_LIMIT"
  by (simp add: ensure_collection_limit_def)

lemma value_roundtrip:
  assumes "\<And>h. hash_from_str H (to_hex H h) = Ok h"
  shows "value_into_xelis H (value_from_xelis H v) = Ok v' \<longleftrightarrow> v' = v \<and> value_within_limits v"
  using assms
  by (cases v) (auto simp: native_unsigned_def result_simps parse_canonical_iff word_unat_eq_iff)

lemma value_into_limits: "value_into_xelis H w = Ok v \<Longrightarrow> value_within_limits v"
  by (cases w) (auto simp: result_simps parse_unsigned_iff split: if_splits)

lemma value_from_into:
  assumes "value_into_xelis H w = Ok v"
    and "\<And>s h. s \<in> value_hash_texts w \<Longrightarrow> hash_from_str H s = Ok h \<Longrightarrow> to_hex H h = s"
  shows "value_from_xelis H v = w"
  using assms
  by (cases w) (auto simp: result_simps parse_unsigned_iff native_unsigned_def split: if_splits)

text \<open>The loop over the fields: it succeeds exactly when every key and value does and no key
  repeats, and then appends the converted entries in order.\<close>

lemma fields_into_Ok:
  "fields_into_xelis H fs acc = Ok r \<longleftrightarrow>
     (\<exists>out. r = acc @ out \<and>
       list_all2 (\<lambda>(k, v) (k', v'). value_into_xelis H k = Ok k' \<and> element_into_xelis H v = Ok v')
         fs out \<and>
       distinct (map fst out) \<and> fst ` set acc \<inter> fst ` set out = {})"
proof (induction fs arbitrary: acc)
  case (Cons f fs)
  obtain k v where f: "f = (k, v)" by force
  show ?case (is "?l \<longleftrightarrow> (\<exists>out. ?P out)")
  proof
    assume ?l
    then obtain k' v' where k': "value_into_xelis H k = Ok k'" "k' \<notin> fst ` set acc"
      and v': "element_into_xelis H v = Ok v'"
      and rest: "fields_into_xelis H fs (acc @ [(k', v')]) = Ok r"
      by (auto simp: f result_simps split: if_splits)
    from rest obtain out where "r = (acc @ [(k', v')]) @ out"
      "list_all2 (\<lambda>(k, v) (k', v'). value_into_xelis H k = Ok k' \<and> element_into_xelis H v = Ok v')
         fs out" "distinct (map fst out)" "fst ` set (acc @ [(k', v')]) \<inter> fst ` set out = {}"
      unfolding Cons.IH by blast
    then have "?P ((k', v') # out)"
      using k' v' by (auto simp: f)
    then show "\<exists>out. ?P out" by blast
  next
    assume "\<exists>out. ?P out"
    then obtain out where P: "?P out" by blast
    then obtain k' v' out' where out: "out = (k', v') # out'"
      by (auto simp: list_all2_Cons1)
    have "fields_into_xelis H fs (acc @ [(k', v')]) = Ok r"
      unfolding Cons.IH using P by (intro exI [of _ out']) (auto simp: out f)
    then show ?l
      using P by (auto simp: f out result_simps)
  qed
qed auto

lemma list_all2_same_iff:
  assumes "\<And>x y. x \<in> set xs \<Longrightarrow> R (f x) y \<longleftrightarrow> y = x \<and> P x"
  shows "list_all2 R (map f xs) ys \<longleftrightarrow> ys = xs \<and> list_all P xs"
  using assms by (induction xs arbitrary: ys) (auto simp: list_all2_Cons1)

lemma snd_in_snds: "snd p \<in> Basic_BNFs.snds p"
  by (cases p) simp

lemma element_roundtrip:
  fixes H :: "'h hash_api"
  assumes "\<And>h. hash_from_str H (to_hex H h) = Ok h"
  shows "element_into_xelis H (element_from_xelis H e) = Ok e' \<longleftrightarrow> e' = e \<and> within_limits e"
proof (induction e arbitrary: e')
  case (DValue v)
  then show ?case
    using value_roundtrip [OF assms] by (auto simp: result_simps)
next
  case (DArray vs)
  have "list_all2 (\<lambda>x y. element_into_xelis H x = Ok y) (map (element_from_xelis H) vs) ys \<longleftrightarrow>
      ys = vs \<and> list_all within_limits vs" for ys
    by (rule list_all2_same_iff) (simp add: DArray)
  then show ?case
    by (auto simp: result_simps)
next
  case (DFields fs)
  let ?R = "\<lambda>(k, v) (k', v'). value_into_xelis H k = Ok k' \<and> element_into_xelis H v = Ok v'"
  let ?f = "\<lambda>(k, v). (value_from_xelis H k, element_from_xelis H v)"
  have "list_all2 ?R (map ?f fs) out \<longleftrightarrow>
      out = fs \<and> list_all (\<lambda>(k, v). value_within_limits k \<and> within_limits v) fs" for out
  proof (rule list_all2_same_iff)
    fix x y :: "'h data_value \<times> 'h data_element" assume x: "x \<in> set fs"
    obtain k v k' v' where xy: "x = (k, v)" "y = (k', v')" by (cases x; cases y)
    have "element_into_xelis H (element_from_xelis H v) = Ok v' \<longleftrightarrow> v' = v \<and> within_limits v"
      using DFields [OF x, of v] xy by simp
    then show "?R (?f x) y \<longleftrightarrow> y = x \<and> (case x of (k, v) \<Rightarrow> value_within_limits k \<and> within_limits v)"
      using value_roundtrip [OF assms] by (auto simp: xy)
  qed
  then show ?case
    by (auto simp: result_simps fields_into_Ok)
qed

lemma element_into_limits: "element_into_xelis H w = Ok e \<Longrightarrow> within_limits e"
proof (induction w arbitrary: e)
  case (NValue v)
  then show ?case
    using value_into_limits by (auto simp: result_simps)
next
  case (NArray ws)
  then obtain es where e: "e = DArray es" "length ws \<le> DATA_ELEMENT_COLLECTION_LIMIT"
    and all: "list_all2 (\<lambda>x y. element_into_xelis H x = Ok y) ws es"
    by (auto simp: result_simps)
  have "within_limits (es ! i)" if "i < length es" for i
    using all that by (intro NArray.IH [of "ws ! i"]) (auto simp: list_all2_conv_all_nth)
  then show ?case
    using e list_all2_lengthD [OF all] by (simp add: list_all_length)
next
  case (NFields fs)
  then obtain out where e: "e = DFields out" "length fs \<le> DATA_ELEMENT_COLLECTION_LIMIT"
    and all: "list_all2 (\<lambda>(k, v) (k', v').
      value_into_xelis H k = Ok k' \<and> element_into_xelis H v = Ok v') fs out"
    and dist: "distinct (map fst out)"
    by (auto simp: result_simps fields_into_Ok)
  have "value_within_limits (fst (out ! i)) \<and> within_limits (snd (out ! i))" if "i < length out" for i
    using all that NFields.IH [of "fs ! i" "snd (fs ! i)" "snd (out ! i)"]
    by (auto simp: list_all2_conv_all_nth case_prod_beta snd_in_snds intro: value_into_limits)
  then show ?case
    using e dist list_all2_lengthD [OF all] by (simp add: list_all_length case_prod_beta)
qed

lemma element_from_into:
  assumes "element_into_xelis H w = Ok e"
    and "\<And>s h. s \<in> hash_texts w \<Longrightarrow> hash_from_str H s = Ok h \<Longrightarrow> to_hex H h = s"
  shows "element_from_xelis H e = w"
  using assms
proof (induction w arbitrary: e)
  case (NValue v)
  then show ?case
    using value_from_into [of H v] by (auto simp: result_simps)
next
  case (NArray ws)
  then obtain es where e: "e = DArray es"
    and all: "list_all2 (\<lambda>x y. element_into_xelis H x = Ok y) ws es"
    by (auto simp: result_simps)
  have "element_from_xelis H (es ! i) = ws ! i" if "i < length ws" for i
  proof (rule NArray.IH)
    show mem: "ws ! i \<in> set ws" using that by simp
    show "element_into_xelis H (ws ! i) = Ok (es ! i)"
      using all that by (simp add: list_all2_conv_all_nth)
    show "to_hex H h = s" if "s \<in> hash_texts (ws ! i)" "hash_from_str H s = Ok h" for s h
      using NArray.prems(2) that mem by auto
  qed
  then show ?case
    using e list_all2_lengthD [OF all] by (simp add: list_eq_iff_nth_eq)
next
  case (NFields fs)
  then obtain out where e: "e = DFields out"
    and all: "list_all2 (\<lambda>(k, v) (k', v').
      value_into_xelis H k = Ok k' \<and> element_into_xelis H v = Ok v') fs out"
    by (auto simp: result_simps fields_into_Ok)
  have "(value_from_xelis H (fst (out ! i)), element_from_xelis H (snd (out ! i))) = fs ! i"
    if i: "i < length fs" for i
  proof -
    have into: "value_into_xelis H (fst (fs ! i)) = Ok (fst (out ! i))"
      "element_into_xelis H (snd (fs ! i)) = Ok (snd (out ! i))"
      using all i by (auto simp: list_all2_conv_all_nth case_prod_beta)
    have texts: "value_hash_texts (fst (fs ! i)) \<union> hash_texts (snd (fs ! i)) \<subseteq> hash_texts (NFields fs)"
      using i nth_mem [OF i] by (fastforce simp: case_prod_beta)
    have "value_from_xelis H (fst (out ! i)) = fst (fs ! i)"
      using into(1) texts NFields.prems(2) by (intro value_from_into) blast+
    moreover have "element_from_xelis H (snd (out ! i)) = snd (fs ! i)"
    proof (rule NFields.IH [OF nth_mem [OF i] snd_in_snds into(2)])
      show "to_hex H h = s" if "s \<in> hash_texts (snd (fs ! i))" "hash_from_str H s = Ok h" for s h
        using NFields.prems(2) that texts by blast
    qed
    ultimately show ?thesis by simp
  qed
  then show ?case
    using e list_all2_lengthD [OF all] by (simp add: list_eq_iff_nth_eq case_prod_beta)
qed

section \<open>Properties\<close>

text \<open>
  The wire is lossless.  A data element sent to the wire and read back is
  accepted exactly when it respects the protocol limits, and is then the same
  element, integer widths, field order and nested data included.
\<close>

theorem data_element_wire_roundtrip:
  assumes "\<And>h. hash_from_str H (to_hex H h) = Ok h"
  shows "element_into_xelis H (element_from_xelis H e) = Ok e' \<longleftrightarrow> e' = e \<and> within_limits e"
  using assms by (rule element_roundtrip)

theorem data_element_wire_roundtrip_witness:
  "element_into_xelis \<lparr> to_hex = (\<lambda>b. if b then ''1'' else ''0''),
       from_hex = (\<lambda>s. Ok (s = ''1'')), hash_from_str = (\<lambda>s. Ok (s = ''1'')) \<rparr>
     (NFields [(StringValue ''id'', NArray [NValue (UnsignedInteger U16 ''300''),
        NValue (HashValue ''1'')])]) =
   Ok (DFields [(DString ''id'', DArray [DValue (DU16 300), DValue (DHash True)])])"
  (is "element_into_xelis ?H ?w = Ok ?e")
proof -
  have "decimal_of_nat 300 = ''300''"
    by code_simp
  then have "element_from_xelis ?H ?e = ?w"
    by (simp add: native_unsigned_def)
  moreover have "within_limits ?e"
    by (simp add: DATA_ELEMENT_COLLECTION_LIMIT_def)
  ultimately show ?thesis
    using data_element_wire_roundtrip [of ?H ?e ?e] by simp
qed

text \<open>
  Accepted wire data is canonical.  What the wire accepts respects the
  protocol limits, and projecting it again gives back the same wire data, up
  to hash texts that are not in the form hashes print.
\<close>

theorem data_element_wire_canonical:
  assumes "element_into_xelis H w = Ok e"
  shows "within_limits e \<and>
    ((\<forall>s \<in> hash_texts w. \<forall>h. hash_from_str H s = Ok h \<longrightarrow> to_hex H h = s) \<longrightarrow>
      element_from_xelis H e = w)"
  using element_into_limits [OF assms] element_from_into [OF assms] by blast

theorem data_element_wire_canonical_witness:
  "within_limits (DArray [DValue (DBool True), DValue (DBlob [1, 2]) :: bool data_element])"
  using data_element_wire_canonical [of "\<lparr> to_hex = (\<lambda>b. if b then ''1'' else ''0''),
       from_hex = (\<lambda>s. Ok (s = ''1'')), hash_from_str = (\<lambda>s. Ok (s = ''1'')) \<rparr>"
      "NArray [NValue (BoolValue True), NValue (BlobValue [1, 2])]"
      "DArray [DValue (DBool True), DValue (DBlob [1, 2])]"]
  by (simp add: ensure_collection_limit_def DATA_ELEMENT_COLLECTION_LIMIT_def
      DATA_ELEMENT_BLOB_LIMIT_def)

end
