(* ===== verification/Address.thy ===== *)
theory Address
  imports Data_Element
begin

text \<open>
  The address helpers of \<open>utils.rs\<close>.  The address type, its text form and the
  serialized size of a data element belong to \<open>xelis_common\<close>: they are the
  fields of the parameter \<open>address_api\<close>, and \<open>address_laws\<close> states what the
  helpers rely on.
\<close>

section \<open>Parameters\<close>

datatype network = Mainnet | Testnet | Devnet | Stagenet

record ('a, 'k, 'h) address_api =
  address_from_string :: "string \<Rightarrow> ('a, string) result"
  address_to_string :: "'a \<Rightarrow> string"
  address_is_mainnet :: "'a \<Rightarrow> bool"
  address_is_normal :: "'a \<Rightarrow> bool"
  to_public_key :: "'a \<Rightarrow> 'k"
  extract_data :: "'a \<Rightarrow> 'h data_element option \<times> 'a"
  new_address :: "bool \<Rightarrow> 'h data_element option \<Rightarrow> 'k \<Rightarrow> 'a"
  element_size :: "'h data_element \<Rightarrow> nat"
  extra_data_limit_size :: nat

section \<open>Model\<close>

record native_address_descriptor =
  encoded_address :: string
  base_address :: string
  descriptor_is_mainnet :: bool
  integrated_data :: "native_data_element option"

definition is_address_valid ::
  "('a, 'k, 'h) address_api \<Rightarrow> string \<Rightarrow> network \<Rightarrow> bool" where
  "is_address_valid A s n =
     (case address_from_string A s of
        Inr a \<Rightarrow>
          (case n of
             Mainnet \<Rightarrow> address_is_mainnet A a
           | Testnet \<Rightarrow> \<not> address_is_mainnet A a
           | Devnet \<Rightarrow> \<not> address_is_mainnet A a
           | Stagenet \<Rightarrow> \<not> address_is_mainnet A a)
      | Inl _ \<Rightarrow> False)"

definition parse_xelis_address ::
  "('a, 'k, 'h) address_api \<Rightarrow> string \<Rightarrow> ('a, native_xelis_error) result" where
  "parse_xelis_address A s =
     map_err (\<lambda>msg. xelis_common_error InvalidInput ''ADDRESS_INVALID'' msg)
       (address_from_string A s)"

definition address_descriptor ::
  "'h hash_api \<Rightarrow> ('a, 'k, 'h) address_api \<Rightarrow> 'a \<Rightarrow> native_address_descriptor" where
  "address_descriptor H A a =
     \<lparr> encoded_address = address_to_string A a,
       base_address = address_to_string A (snd (extract_data A a)),
       descriptor_is_mainnet = address_is_mainnet A a,
       integrated_data = map_option (element_from_xelis H) (fst (extract_data A a)) \<rparr>"

definition parse_address ::
  "'h hash_api \<Rightarrow> ('a, 'k, 'h) address_api \<Rightarrow> string
   \<Rightarrow> (native_address_descriptor, native_xelis_error) result" where
  "parse_address H A s = map_ok (address_descriptor H A) (parse_xelis_address A s)"

definition make_integrated_address ::
  "'h hash_api \<Rightarrow> ('a, 'k, 'h) address_api \<Rightarrow> string \<Rightarrow> native_data_element
   \<Rightarrow> (native_address_descriptor, native_xelis_error) result" where
  "make_integrated_address H A base wire =
     and_then (parse_xelis_address A base) (\<lambda>a.
       if \<not> address_is_normal A a
       then Err (xelis_common_error InvalidInput ''ADDRESS_NOT_NORMAL''
         ''An integrated address cannot be used as the base of another integrated address'')
       else and_then (element_into_xelis H wire) (\<lambda>element.
         if element_size A element > extra_data_limit_size A
         then Err (xelis_common_error InvalidInput ''INTEGRATED_ADDRESS_DATA_TOO_LARGE''
           (''Integrated-address data serializes to '' @ decimal_of_nat (element_size A element) @
            '' bytes; the protocol limit is '' @ decimal_of_nat (extra_data_limit_size A)))
         else Ok (address_descriptor H A
           (new_address A (address_is_mainnet A a) (Some element) (to_public_key A a)))))"

section \<open>Laws of the address type\<close>

text \<open>
  Building an address and taking it apart are inverse, a normal address is the
  one without data, and the text form of an address whose data respects the
  size limit parses back.
\<close>

definition address_laws :: "('a, 'k, 'h) address_api \<Rightarrow> bool" where
  "address_laws A \<longleftrightarrow>
     (\<forall>m d k. extract_data A (new_address A m d k) = (d, new_address A m None k)) \<and>
     (\<forall>m d k. address_is_mainnet A (new_address A m d k) = m) \<and>
     (\<forall>a. address_is_normal A a \<longrightarrow>
        new_address A (address_is_mainnet A a) None (to_public_key A a) = a) \<and>
     (\<forall>m d k. (\<forall>e. d = Some e \<longrightarrow> element_size A e \<le> extra_data_limit_size A) \<longrightarrow>
        address_from_string A (address_to_string A (new_address A m d k)) = Ok (new_address A m d k))"

section \<open>Lemmas\<close>

lemma make_integrated_Ok:
  "make_integrated_address H A base wire = Ok d \<longleftrightarrow>
     (\<exists>a e. address_from_string A base = Ok a \<and> address_is_normal A a \<and>
        element_into_xelis H wire = Ok e \<and> element_size A e \<le> extra_data_limit_size A \<and>
        d = address_descriptor H A
          (new_address A (address_is_mainnet A a) (Some e) (to_public_key A a)))"
  by (auto simp: make_integrated_address_def parse_xelis_address_def result_simps not_less
      split: if_split)

section \<open>A concrete instance\<close>

text \<open>A small instance of the parameters: a network flag and optional data.\<close>

definition demo_hash_api :: "bool hash_api" where
  "demo_hash_api = \<lparr> to_hex = (\<lambda>b. if b then ''1'' else ''0''),
     from_hex = (\<lambda>s. if s = ''1'' then Ok True else if s = ''0'' then Ok False else Err ''hex''),
     hash_from_str = (\<lambda>s. if s = ''1'' then Ok True else if s = ''0'' then Ok False else Err ''hex'') \<rparr>"

definition demo_address_api :: "(bool \<times> bool data_element option, unit, bool) address_api" where
  "demo_address_api =
     \<lparr> address_from_string = (\<lambda>s.
         if s = ''mn'' then Ok (True, None) else if s = ''tn'' then Ok (False, None)
         else if s = ''mi'' then Ok (True, Some (DValue (DBool True)))
         else if s = ''ti'' then Ok (False, Some (DValue (DBool True))) else Err ''address''),
       address_to_string = (\<lambda>(m, d). (if m then CHR ''m'' else CHR ''t'') #
         (if d = None then ''n'' else ''i'')),
       address_is_mainnet = fst, address_is_normal = (\<lambda>a. snd a = None),
       to_public_key = (\<lambda>_. ()), extract_data = (\<lambda>(m, d). (d, (m, None))),
       new_address = (\<lambda>m d _. (m, d)),
       element_size = (\<lambda>e. if e = DValue (DBool True) then 2 else 5000),
       extra_data_limit_size = 1024 \<rparr>"

lemma demo_address_laws: "address_laws demo_address_api"
  by (auto simp: address_laws_def demo_address_api_def split: if_splits; metis)

section \<open>Properties\<close>

text \<open>
  C15: an integrated address keeps what went into it.  When one is created from
  a base address and data, parsing its text gives the same descriptor, the
  base address and the network class are those of the base, and the data is
  the data supplied, as long as its hash texts are in canonical form.
\<close>

theorem integrated_address_roundtrip:
  assumes "address_laws A" "make_integrated_address H A base wire = Ok d"
    and "\<And>s h. s \<in> hash_texts wire \<Longrightarrow> hash_from_str H s = Ok h \<Longrightarrow> to_hex H h = s"
  shows "parse_address H A (encoded_address d) = Ok d \<and> integrated_data d = Some wire \<and>
    (\<exists>a. address_from_string A base = Ok a \<and> base_address d = address_to_string A a \<and>
      descriptor_is_mainnet d = address_is_mainnet A a)"
proof -
  obtain a e where a: "address_from_string A base = Ok a" "address_is_normal A a"
    and e: "element_into_xelis H wire = Ok e" "element_size A e \<le> extra_data_limit_size A"
    and d: "d = address_descriptor H A
      (new_address A (address_is_mainnet A a) (Some e) (to_public_key A a))"
    using assms(2) by (auto simp: make_integrated_Ok)
  have "element_from_xelis H e = wire"
    using element_from_into [OF e(1) assms(3)] .
  then show ?thesis
    using assms(1) a d e(2)
    by (simp add: address_laws_def address_descriptor_def parse_address_def parse_xelis_address_def)
qed

theorem integrated_address_roundtrip_witness:
  "parse_address demo_hash_api demo_address_api ''mi'' =
   Ok \<lparr> encoded_address = ''mi'', base_address = ''mn'', descriptor_is_mainnet = True,
        integrated_data = Some (NValue (BoolValue True)) \<rparr>"
proof -
  let ?d = "\<lparr> encoded_address = ''mi'', base_address = ''mn'', descriptor_is_mainnet = True,
        integrated_data = Some (NValue (BoolValue True)) \<rparr>"
  have "make_integrated_address demo_hash_api demo_address_api ''mn'' (NValue (BoolValue True)) = Ok ?d"
    by (simp add: make_integrated_address_def parse_xelis_address_def address_descriptor_def
        demo_address_api_def)
  from integrated_address_roundtrip [OF demo_address_laws this] show ?thesis by simp
qed

end
