(* ===== verification/Builders.thy ===== *)
theory Builders
  imports Address
begin

text \<open>
  The transaction builders of \<open>wallet/transactions/builders.rs\<close> that work on
  atomic amounts: fee policies, validation of transfers, the projection a user
  reviews, and the amounts of transfer-all and burn-all.  The native asset is
  the parameter \<open>xelis\<close>.
\<close>

section \<open>Data\<close>

datatype native_fee_policy = Automatic | Fixed u64 | Tip u64 | Multiplier u64

record transfer_request =
  rq_amount :: u64
  rq_destination :: string
  rq_asset :: string
  rq_extra_data :: "string option"
  rq_encrypt_extra_data :: bool

record native_prepared_transfer =
  pt_amount :: u64
  pt_destination :: string
  pt_asset :: string
  pt_has_extra_data :: bool
  pt_encrypt_extra_data :: bool

datatype prepared_extra_data_source = IntegratedAddress | Explicit

record prepared_transfer_extra_data =
  xd_data :: native_data_element
  xd_source :: prepared_extra_data_source
  xd_encrypted :: bool

record native_multisig_participant =
  mp_id :: u8
  mp_address :: string

record native_multisig_signing_transfer =
  st_amount :: u64
  st_asset :: string
  st_destination :: string
  st_has_extra_data :: bool

datatype native_multisig_signing_transaction =
  SigningTransfers "native_multisig_signing_transfer list"
| SigningBurn string u64
| SigningDeleteMultisig

datatype native_prepared_kind =
  KindTransfers "native_prepared_transfer list"
| KindBurn string u64
| KindMultisigSetup u8 "native_multisig_participant list"
| KindMultisigFinalized native_multisig_signing_transaction

record ('a, 'h) transfer_builder =
  tb_destination :: 'a
  tb_amount :: u64
  tb_asset :: 'h
  tb_extra_data :: "'h data_element option"
  tb_encrypt_extra_data :: bool

datatype ('a, 'h) transaction_type_builder =
  TransfersType "('a, 'h) transfer_builder list"
| BurnType u64 'h
| MultiSigType "'a list" u8

section \<open>Operations\<close>

definition FEE_BASIS_POINTS_SCALE :: u128 where
  "FEE_BASIS_POINTS_SCALE = 10000"

definition invalid_transaction_input :: "string \<Rightarrow> string \<Rightarrow> native_xelis_error" where
  "invalid_transaction_input native_kind msg =
     xelis_wallet_flutter_error InvalidInput native_kind msg"

definition fee_overflow :: native_xelis_error where
  "fee_overflow = invalid_transaction_input ''TRANSACTION_FEE_OVERFLOW''
     ''Adjusted transaction fee exceeds the supported range''"

fun apply_fee_policy :: "u64 \<Rightarrow> native_fee_policy \<Rightarrow> (u64, native_xelis_error) result" where
  "apply_fee_policy base_fee Automatic = Ok base_fee"
| "apply_fee_policy base_fee (Fixed fee) = Ok fee"
| "apply_fee_policy base_fee (Tip tip) = ok_or (checked_add base_fee tip) fee_overflow"
| "apply_fee_policy base_fee (Multiplier basis_points) =
     (if basis_points = 0
      then Err (invalid_transaction_input ''TRANSACTION_FEE_POLICY_INVALID''
        ''Fee multiplier basis points must be positive'')
      else and_then
        (ok_or (Option.bind (checked_mul (ucast base_fee :: u128) (ucast basis_points))
           (\<lambda>v. checked_add v (FEE_BASIS_POINTS_SCALE - 1))) fee_overflow)
        (\<lambda>numerator. ok_or (try_from (numerator div FEE_BASIS_POINTS_SCALE)) fee_overflow))"

definition parse_transaction_asset ::
  "'h hash_api \<Rightarrow> string \<Rightarrow> ('h, native_xelis_error) result" where
  "parse_transaction_asset H s =
     map_err (\<lambda>_. invalid_transaction_input ''TRANSACTION_ASSET_INVALID''
       ''Transaction asset is not a valid hash'') (from_hex H s)"

definition parse_transaction_destination ::
  "('a, 'k, 'h) address_api \<Rightarrow> string \<Rightarrow> ('a, native_xelis_error) result" where
  "parse_transaction_destination A s =
     map_err (\<lambda>_. invalid_transaction_input ''TRANSACTION_DESTINATION_INVALID''
       ''Transaction destination is not a valid address'') (address_from_string A s)"

definition project_prepared_transfer ::
  "'h hash_api \<Rightarrow> ('a, 'k, 'h) address_api \<Rightarrow> 'a \<Rightarrow> 'h \<Rightarrow> u64 \<Rightarrow> string option \<Rightarrow> bool
   \<Rightarrow> (native_prepared_transfer \<times> prepared_transfer_extra_data option, native_xelis_error) result"
where
  "project_prepared_transfer H A destination asset amount explicit encrypt =
     (case extract_data A destination of (integrated, public_destination) \<Rightarrow>
       if explicit \<noteq> None \<and> integrated \<noteq> None
       then Err (invalid_transaction_input ''TRANSACTION_EXTRA_DATA_CONFLICT''
         ''Explicit extra data cannot be combined with an integrated address'')
       else
         (let effective =
            (case explicit of
               Some s \<Rightarrow> Some (DValue (DString s), Explicit)
             | None \<Rightarrow> map_option (\<lambda>v. (v, IntegratedAddress)) integrated);
              extra = map_option (\<lambda>(d, src). \<lparr> xd_data = element_from_xelis H d, xd_source = src,
                xd_encrypted = encrypt \<rparr>) effective
          in Ok (\<lparr> pt_amount = amount, pt_destination = address_to_string A public_destination,
                   pt_asset = to_hex H asset, pt_has_extra_data = (extra \<noteq> None),
                   pt_encrypt_extra_data = encrypt \<rparr>, extra)))"

definition encrypt_extra_data_or_default :: "bool option \<Rightarrow> bool" where
  "encrypt_extra_data_or_default v = unwrap_or v True"

definition build_transfer ::
  "'a \<Rightarrow> u64 \<Rightarrow> 'h \<Rightarrow> string option \<Rightarrow> bool option \<Rightarrow> ('a, 'h) transfer_builder" where
  "build_transfer destination amount asset extra encrypt =
     \<lparr> tb_destination = destination, tb_amount = amount, tb_asset = asset,
       tb_extra_data = map_option (\<lambda>s. DValue (DString s)) extra,
       tb_encrypt_extra_data = encrypt_extra_data_or_default encrypt \<rparr>"

fun atomic_transfers_loop ::
  "'h hash_api \<Rightarrow> ('a, 'k, 'h) address_api \<Rightarrow> nat \<Rightarrow> transfer_request list
   \<Rightarrow> (('a, 'h) transfer_builder list \<times> native_prepared_transfer list \<times>
       prepared_transfer_extra_data option list, native_xelis_error) result" where
  "atomic_transfers_loop H A index [] = Ok ([], [], [])"
| "atomic_transfers_loop H A index (t # ts) =
     (if rq_amount t = 0
      then Err (invalid_transaction_input ''TRANSACTION_AMOUNT_INVALID''
        (''Transfer amount at index '' @ decimal_of_nat index @ '' must be greater than zero''))
      else
        and_then (parse_transaction_asset H (rq_asset t)) (\<lambda>asset.
        and_then (parse_transaction_destination A (rq_destination t)) (\<lambda>destination.
        and_then (project_prepared_transfer H A destination asset (rq_amount t)
            (rq_extra_data t) (rq_encrypt_extra_data t)) (\<lambda>(p, x).
        and_then (atomic_transfers_loop H A (index + 1) ts) (\<lambda>(bs, ps, xs).
        Ok (build_transfer destination (rq_amount t) asset (rq_extra_data t)
              (Some (rq_encrypt_extra_data t)) # bs, p # ps, x # xs))))))"

definition build_atomic_transfers ::
  "'h hash_api \<Rightarrow> ('a, 'k, 'h) address_api \<Rightarrow> transfer_request list
   \<Rightarrow> (('a, 'h) transaction_type_builder \<times> native_prepared_kind \<times>
       prepared_transfer_extra_data option list, native_xelis_error) result" where
  "build_atomic_transfers H A transfers =
     (if transfers = []
      then Err (invalid_transaction_input ''TRANSACTION_TRANSFERS_EMPTY''
        ''At least one transfer is required'')
      else and_then (atomic_transfers_loop H A 0 transfers) (\<lambda>(builders, projection, review).
        Ok (TransfersType builders, KindTransfers projection, review)))"

definition amount_after_fee ::
  "'h \<Rightarrow> u64 \<Rightarrow> u64 \<Rightarrow> 'h \<Rightarrow> string \<Rightarrow> (u64, anyhow_error) result" where
  "amount_after_fee xelis amount fee asset insufficient_funds_context =
     and_then
       (if asset = xelis
        then ok_or (checked_sub amount fee) (AnyOther insufficient_funds_context)
        else Ok amount)
       (\<lambda>amount. if amount > 0 then Ok amount else Err (AnyOther insufficient_funds_context))"

definition build_transfer_all_type ::
  "'h \<Rightarrow> 'a \<Rightarrow> u64 \<Rightarrow> u64 \<Rightarrow> 'h \<Rightarrow> string option \<Rightarrow> bool option
   \<Rightarrow> (('a, 'h) transaction_type_builder, anyhow_error) result" where
  "build_transfer_all_type xelis destination balance fee asset extra encrypt =
     and_then (amount_after_fee xelis balance fee asset ''Insufficient balance for fees'')
       (\<lambda>amount. Ok (TransfersType [build_transfer destination amount asset extra encrypt]))"

definition build_burn_type :: "'h \<Rightarrow> u64 \<Rightarrow> ('a, 'h) transaction_type_builder" where
  "build_burn_type asset amount = BurnType amount asset"

definition build_burn_all_type ::
  "'h \<Rightarrow> 'h \<Rightarrow> u64 \<Rightarrow> u64 \<Rightarrow> (('a, 'h) transaction_type_builder, anyhow_error) result" where
  "build_burn_all_type xelis asset balance fee =
     and_then (amount_after_fee xelis balance fee asset
         ''Insufficient balance to pay burn transaction fees'')
       (\<lambda>amount. Ok (build_burn_type asset amount))"

section \<open>Specification\<close>

text \<open>The fee a policy asks for, on unbounded naturals: a multiplier rounds up.\<close>

fun requested_fee :: "nat \<Rightarrow> native_fee_policy \<Rightarrow> nat" where
  "requested_fee base Automatic = base"
| "requested_fee base (Fixed fee) = unat fee"
| "requested_fee base (Tip tip) = base + unat tip"
| "requested_fee base (Multiplier bp) = (base * unat bp + 9999) div 10000"

text \<open>The data a transfer carries: its explicit data, or else that of its destination.\<close>

definition carried_data ::
  "('a, 'k, 'h) address_api \<Rightarrow> ('a, 'h) transfer_builder
   \<Rightarrow> ('h data_element \<times> prepared_extra_data_source) option" where
  "carried_data A b =
     (case tb_extra_data b of
        Some d \<Rightarrow> Some (d, Explicit)
      | None \<Rightarrow> map_option (\<lambda>d. (d, IntegratedAddress)) (fst (extract_data A (tb_destination b))))"

text \<open>A reviewed transfer shows what the builder will send.\<close>

definition faithful_review ::
  "'h hash_api \<Rightarrow> ('a, 'k, 'h) address_api \<Rightarrow> ('a, 'h) transfer_builder \<Rightarrow> native_prepared_transfer
   \<Rightarrow> prepared_transfer_extra_data option \<Rightarrow> bool" where
  "faithful_review H A b p x \<longleftrightarrow>
     pt_amount p = tb_amount b \<and> 0 < tb_amount b \<and> pt_asset p = to_hex H (tb_asset b) \<and>
     pt_destination p = address_to_string A (snd (extract_data A (tb_destination b))) \<and>
     pt_encrypt_extra_data p = tb_encrypt_extra_data b \<and>
     pt_has_extra_data p = (carried_data A b \<noteq> None) \<and>
     x = map_option (\<lambda>(d, src). \<lparr> xd_data = element_from_xelis H d, xd_source = src,
       xd_encrypted = tb_encrypt_extra_data b \<rparr>) (carried_data A b) \<and>
     (tb_extra_data b = None \<or> fst (extract_data A (tb_destination b)) = None)"

section \<open>Lemmas\<close>

lemma ucast_u64_u128 [simp]: "unat (ucast (x :: u64) :: u128) = unat x"
  using unat_u64_less [of x] by (simp add: unsigned_ucast_eq take_bit_nat_eq_self)

lemma fee_product_fits: "unat (a :: u64) * unat (b :: u64) + 9999 < 2 ^ 128"
proof -
  have "unat a \<le> 2 ^ 64 - 1" "unat b \<le> 2 ^ 64 - 1"
    using unat_u64_less [of a] unat_u64_less [of b] by simp_all
  then have "unat a * unat b \<le> (2 ^ 64 - 1) * (2 ^ 64 - 1)"
    by (rule mult_le_mono)
  then show ?thesis by simp
qed

lemma multiplier_numerator:
  obtains v where
    "Option.bind (checked_mul (ucast (a :: u64) :: u128) (ucast (b :: u64)))
       (\<lambda>v. checked_add v (FEE_BASIS_POINTS_SCALE - 1)) = Some v"
    "unat v = unat a * unat b + 9999"
proof -
  have "unat a * unat b < 2 ^ 128"
    using fee_product_fits [of a b] by simp
  then obtain p where p: "checked_mul (ucast a :: u128) (ucast b) = Some p"
    by (cases "checked_mul (ucast a :: u128) (ucast b)") (auto simp: checked_mul_None)
  then have p': "unat p = unat a * unat b"
    by (simp add: checked_mul_Some)
  obtain v where v: "checked_add p (FEE_BASIS_POINTS_SCALE - 1) = Some v"
    using fee_product_fits [of a b] p'
    by (cases "checked_add p (FEE_BASIS_POINTS_SCALE - 1)")
      (auto simp: checked_add_None FEE_BASIS_POINTS_SCALE_def)
  then have "unat v = unat a * unat b + 9999"
    using p' by (simp add: checked_add_Some FEE_BASIS_POINTS_SCALE_def)
  then show ?thesis
    using that p v by simp
qed

lemma apply_fee_multiplier:
  assumes "bp \<noteq> 0"
  shows "apply_fee_policy b (Multiplier bp) =
    (if requested_fee (unat b) (Multiplier bp) < 2 ^ 64
     then Ok (word_of_nat (requested_fee (unat b) (Multiplier bp))) else Err fee_overflow)"
proof -
  obtain v where v: "Option.bind (checked_mul (ucast b :: u128) (ucast bp))
       (\<lambda>v. checked_add v (FEE_BASIS_POINTS_SCALE - 1)) = Some v"
    and n: "unat v = unat b * unat bp + 9999"
    by (rule multiplier_numerator)
  have d: "unat (v div FEE_BASIS_POINTS_SCALE) = (unat b * unat bp + 9999) div 10000"
    by (simp add: unat_div n FEE_BASIS_POINTS_SCALE_def)
  have "(try_from (v div FEE_BASIS_POINTS_SCALE) :: u64 option) =
      (if (unat b * unat bp + 9999) div 10000 < 2 ^ 64
       then Some (word_of_nat ((unat b * unat bp + 9999) div 10000)) else None)"
    by (auto simp: try_from_def d word_unat_eq_iff unsigned_ucast_eq unat_of_nat
        take_bit_nat_eq_self_iff)
  then show ?thesis
    using assms v by simp
qed

lemma amount_after_fee_Ok:
  "amount_after_fee xelis balance fee asset ctx = Ok a \<longleftrightarrow>
     0 < unat a \<and> unat balance = unat a + (if asset = xelis then unat fee else 0)"
  by (auto simp: amount_after_fee_def result_simps checked_sub_Some word_unat_eq_iff
      word_less_nat_alt split: if_splits)

lemma amount_after_fee_Err:
  "amount_after_fee xelis balance fee asset ctx = Err e \<longleftrightarrow>
     e = AnyOther ctx \<and> unat balance \<le> (if asset = xelis then unat fee else 0)"
  by (cases "checked_sub balance fee")
    (auto simp: amount_after_fee_def result_simps checked_sub_None checked_sub_Some
      word_less_nat_alt intro: exI [of _ 0])

lemma project_prepared_transfer_Ok:
  "project_prepared_transfer H A destination asset amount explicit encrypt = Ok (p, x) \<Longrightarrow>
   0 < amount \<Longrightarrow>
   faithful_review H A (build_transfer destination amount asset explicit (Some encrypt)) p x"
  by (auto simp: project_prepared_transfer_def faithful_review_def build_transfer_def
      carried_data_def encrypt_extra_data_or_default_def Let_def
      split: prod.splits if_splits option.splits)

lemma atomic_transfers_loop_Ok:
  assumes "atomic_transfers_loop H A i ts = Ok (bs, ps, xs)"
  shows "length bs = length ts \<and> length ps = length ts \<and> length xs = length ts \<and>
    (\<forall>j < length ts. faithful_review H A (bs ! j) (ps ! j) (xs ! j) \<and>
       tb_amount (bs ! j) = rq_amount (ts ! j) \<and>
       from_hex H (rq_asset (ts ! j)) = Ok (tb_asset (bs ! j)) \<and>
       address_from_string A (rq_destination (ts ! j)) = Ok (tb_destination (bs ! j)))"
  using assms
proof (induction H A i ts arbitrary: bs ps xs rule: atomic_transfers_loop.induct)
  case (2 H A i t ts)
  then obtain asset destination p x bs' ps' xs' where
    nz: "rq_amount t \<noteq> 0"
    and asset: "from_hex H (rq_asset t) = Ok asset"
    and dest: "address_from_string A (rq_destination t) = Ok destination"
    and proj: "project_prepared_transfer H A destination asset (rq_amount t) (rq_extra_data t)
      (rq_encrypt_extra_data t) = Ok (p, x)"
    and rest: "atomic_transfers_loop H A (i + 1) ts = Ok (bs', ps', xs')"
    and out: "bs = build_transfer destination (rq_amount t) asset (rq_extra_data t)
        (Some (rq_encrypt_extra_data t)) # bs'" "ps = p # ps'" "xs = x # xs'"
    by (auto simp: result_simps parse_transaction_asset_def parse_transaction_destination_def
        split: if_splits)
  have IH: "length bs' = length ts \<and> length ps' = length ts \<and> length xs' = length ts \<and>
    (\<forall>j < length ts. faithful_review H A (bs' ! j) (ps' ! j) (xs' ! j) \<and>
       tb_amount (bs' ! j) = rq_amount (ts ! j) \<and>
       from_hex H (rq_asset (ts ! j)) = Ok (tb_asset (bs' ! j)) \<and>
       address_from_string A (rq_destination (ts ! j)) = Ok (tb_destination (bs' ! j)))"
    using 2(1) nz asset dest proj rest
    by (simp add: parse_transaction_asset_def parse_transaction_destination_def)
  have "faithful_review H A (bs ! 0) (ps ! 0) (xs ! 0)"
    using project_prepared_transfer_Ok [OF proj] nz out by (simp add: word_gt_0)
  then show ?case
    using IH out asset dest by (auto simp: nth_Cons build_transfer_def split: nat.split)
qed simp

section \<open>Properties\<close>

text \<open>
  C14: fee policies are exact.  Every policy yields the fee it asks for on
  unbounded integers, a multiplier rounding up to the next unit, and fails
  exactly when the multiplier is zero or that fee does not fit 64 bits; the
  128-bit intermediate product never overflows.
\<close>

theorem apply_fee_policy_exact:
  "apply_fee_policy base policy =
     (if policy = Multiplier 0
      then Err (invalid_transaction_input ''TRANSACTION_FEE_POLICY_INVALID''
        ''Fee multiplier basis points must be positive'')
      else if requested_fee (unat base) policy < 2 ^ 64
      then Ok (word_of_nat (requested_fee (unat base) policy))
      else Err fee_overflow)"
proof (cases policy)
  case (Tip tip)
  then show ?thesis
    by (auto simp: checked_add_def word_unat_eq_iff unat_of_nat unat_word_ariths)
next
  case (Multiplier bp)
  then show ?thesis
    using apply_fee_multiplier [of bp base] by (cases "bp = 0") auto
qed (auto simp: unat_u64_less)

text \<open>
  Transfer-all and burn-all spend exactly the balance.  The amount left
  after the fee is positive and, for the native asset, adds up with the fee to
  the balance; another asset is spent whole.  The computation fails exactly
  when nothing would be left.
\<close>

theorem amount_after_fee_exact:
  "(amount_after_fee xelis balance fee asset ctx = Ok amount \<longleftrightarrow>
      0 < unat amount \<and>
      unat amount + (if asset = xelis then unat fee else 0) = unat balance) \<and>
   ((\<exists>e. amount_after_fee xelis balance fee asset ctx = Err e) \<longleftrightarrow>
      unat balance \<le> (if asset = xelis then unat fee else 0))"
  by (auto simp: amount_after_fee_Ok amount_after_fee_Err)

text \<open>
  What is reviewed is what is sent.  When a list of transfers is accepted,
  the projection shown to the user has one entry per transfer, in order, with
  the amount, asset, destination, encryption flag and extra data, explicit or
  from the integrated address but never both, of the transfer that is built,
  and each built transfer is the requested one.
\<close>

theorem review_matches_transfers:
  assumes "build_atomic_transfers H A ts = Ok (ty, kind, review)"
  shows "ts \<noteq> [] \<and> (\<exists>bs ps. ty = TransfersType bs \<and> kind = KindTransfers ps \<and>
    length bs = length ts \<and> length ps = length ts \<and> length review = length ts \<and>
    (\<forall>j < length ts. faithful_review H A (bs ! j) (ps ! j) (review ! j) \<and>
       tb_amount (bs ! j) = rq_amount (ts ! j) \<and>
       from_hex H (rq_asset (ts ! j)) = Ok (tb_asset (bs ! j)) \<and>
       address_from_string A (rq_destination (ts ! j)) = Ok (tb_destination (bs ! j))))"
proof -
  obtain bs ps where out: "ts \<noteq> []" "ty = TransfersType bs" "kind = KindTransfers ps"
    and loop: "atomic_transfers_loop H A 0 ts = Ok (bs, ps, review)"
    using assms by (auto simp: build_atomic_transfers_def result_simps split: if_splits)
  from atomic_transfers_loop_Ok [OF loop] show ?thesis
    by (simp add: out)
qed

theorem review_matches_transfers_witness:
  "\<exists>b p x. build_atomic_transfers demo_hash_api demo_address_api
     [\<lparr> rq_amount = 5, rq_destination = ''mi'', rq_asset = ''1'', rq_extra_data = None,
        rq_encrypt_extra_data = True \<rparr>] = Ok (TransfersType [b], KindTransfers [p], [x]) \<and>
   faithful_review demo_hash_api demo_address_api b p x"
proof -
  let ?t = "\<lparr> rq_amount = 5, rq_destination = ''mi'', rq_asset = ''1'', rq_extra_data = None,
        rq_encrypt_extra_data = True \<rparr>"
  obtain b p x where "build_atomic_transfers demo_hash_api demo_address_api [?t] =
      Ok (TransfersType [b], KindTransfers [p], [x])"
    by (simp add: build_atomic_transfers_def parse_transaction_asset_def
        parse_transaction_destination_def project_prepared_transfer_def demo_hash_api_def
        demo_address_api_def)
  then show ?thesis
    using review_matches_transfers [of demo_hash_api demo_address_api "[?t]"] by auto
qed

end
