(* ===== verification/Transactions.thy ===== *)
theory Transactions
  imports Builders Error_Classification Prepared_Guards
begin

text \<open>
  Preparing and broadcasting transactions: \<open>wallet/transactions.rs\<close> and
  \<open>wallet/transactions/submission.rs\<close>.  A wallet is the prepared slot and the
  upstream wallet with its storage, an opaque world that the operations of
  \<open>wallet_api\<close> read and change; their errors are given as converted by
  \<open>into()\<close>.  An operation runs from start to end here; what other callers may
  do to the slot in between is the subject of Prepared\_Guards.
\<close>

section \<open>Submission results\<close>

datatype submission_resolution =
  ResSubmitted | ResRetryable wallet_error | ResDaemonRejected wallet_error
| ResLocalFailure wallet_error

datatype submit_error_class = ClassRetryable | ClassDaemonRejected | ClassLocalFailure

definition ensure_wallet_online :: "bool \<Rightarrow> (unit, anyhow_error) result" where
  "ensure_wallet_online online =
     (if \<not> online then Err (AnyOther ''Wallet is offline, transaction cannot be submitted'')
      else Ok ())"

definition is_daemon_rejection :: "anyhow_error \<Rightarrow> bool" where
  "is_daemon_rejection e =
     (case downcast_json_rpc e of
        Some r \<Rightarrow>
          (case r of
             RpcParseError \<Rightarrow> True | RpcInvalidRequest \<Rightarrow> True | RpcMethodNotFound \<Rightarrow> True
           | RpcInvalidParams \<Rightarrow> True | RpcInternalError _ _ \<Rightarrow> True | RpcServerError _ _ _ \<Rightarrow> True
           | _ \<Rightarrow> False)
      | None \<Rightarrow> False)"

definition is_retryable_rpc_error :: "anyhow_error \<Rightarrow> bool" where
  "is_retryable_rpc_error e =
     (case downcast_json_rpc e of
        Some r \<Rightarrow>
          (case r of
             RpcNoResponse _ _ \<Rightarrow> True | RpcTimedOut _ \<Rightarrow> True | RpcHttpError _ \<Rightarrow> True
           | RpcConnectionError _ \<Rightarrow> True | RpcSocketError _ \<Rightarrow> True | RpcSendError _ _ \<Rightarrow> True
           | _ \<Rightarrow> False)
      | None \<Rightarrow> False)"

definition classify_submit_error :: "wallet_error \<Rightarrow> submit_error_class" where
  "classify_submit_error w =
     (case w of
        WAny e _ \<Rightarrow>
          if is_retryable_rpc_error e then ClassRetryable
          else if is_daemon_rejection e then ClassDaemonRejected
          else ClassLocalFailure
      | WNotOnlineMode \<Rightarrow> ClassRetryable
      | WNoNetworkHandler \<Rightarrow> ClassRetryable
      | _ \<Rightarrow> ClassLocalFailure)"

definition resolve_submission :: "(unit, wallet_error) result \<Rightarrow> submission_resolution" where
  "resolve_submission r =
     (case r of
        Inr _ \<Rightarrow> ResSubmitted
      | Inl e \<Rightarrow>
          (case classify_submit_error e of
             ClassRetryable \<Rightarrow> ResRetryable e
           | ClassDaemonRejected \<Rightarrow> ResDaemonRejected e
           | ClassLocalFailure \<Rightarrow> ResLocalFailure e))"

section \<open>The wallet\<close>

record ('tx, 'st) prepared_wallet_transaction =
  pw_transaction :: 'tx
  pw_state :: 'st
  pw_review_extra_data :: "prepared_transfer_extra_data option list"

definition without_review_extra_data :: "'tx \<Rightarrow> 'st \<Rightarrow> ('tx, 'st) prepared_wallet_transaction" where
  "without_review_extra_data tx st =
     \<lparr> pw_transaction = tx, pw_state = st, pw_review_extra_data = [] \<rparr>"

definition review_extra_data ::
  "('tx, 'st) prepared_wallet_transaction \<Rightarrow> nat \<Rightarrow> prepared_transfer_extra_data option" where
  "review_extra_data p i =
     (if i < length (pw_review_extra_data p) then pw_review_extra_data p ! i else None)"

definition transfer_count :: "('tx, 'st) prepared_wallet_transaction \<Rightarrow> nat" where
  "transfer_count p = length (pw_review_extra_data p)"

type_synonym ('h, 'tx, 'st) wallet_slot =
  "('h, ('tx, 'st) prepared_wallet_transaction) prepared_transaction_store"

record ('h, 'tx, 'st, 'w) wallet_state =
  prepared :: "('h, 'tx, 'st) wallet_slot"
  world :: 'w

record ('a, 'h, 'tx, 'st, 'w) wallet_api =
  wallet_is_online :: "'w \<Rightarrow> bool"
  wallet_estimate_fees ::
    "('a, 'h) transaction_type_builder \<Rightarrow> 'w \<Rightarrow> (u64, anyhow_error) result"
  create_transaction ::
    "('a, 'h) transaction_type_builder \<Rightarrow> u64 option \<Rightarrow> 'w \<Rightarrow> ('tx \<times> 'st, anyhow_error) result \<times> 'w"
  get_plaintext_balance_for :: "'h \<Rightarrow> 'w \<Rightarrow> (u64, anyhow_error) result"
  get_tx_version :: "'w \<Rightarrow> (unit, anyhow_error) result"
  get_synced_topoheight :: "'w \<Rightarrow> (unit, anyhow_error) result"
  get_top_block_hash :: "'w \<Rightarrow> (unit, anyhow_error) result"
  submit_transaction :: "'tx \<Rightarrow> 'w \<Rightarrow> (unit, wallet_error) result \<times> 'w"
  apply_changes :: "'st \<Rightarrow> 'tx \<Rightarrow> 'w \<Rightarrow> (unit, wallet_error) result \<times> 'w"
  delete_unconfirmed_balances :: "'w \<Rightarrow> 'w"
  tx_hash :: "'tx \<Rightarrow> 'h"
  tx_fee :: "'tx \<Rightarrow> u64"
  xelis_asset :: 'h
  summary_json :: "string \<Rightarrow> u64 \<Rightarrow> ('a, 'h) transaction_type_builder \<Rightarrow> string"

record native_prepared_transaction =
  np_hash :: string
  np_preparation_id :: u64
  np_fee :: u64
  np_transaction :: native_prepared_kind

datatype prepared_broadcast_outcome =
  OutSubmitted
| OutRetryable native_xelis_error
| OutRejected native_xelis_error
| OutLocalFailure native_xelis_error
| OutSubmittedNeedsResync native_xelis_error

datatype broadcast_transaction_outcome =
  BroadcastSubmitted | BroadcastRetryable | BroadcastRejected | BroadcastLocalFailure
| BroadcastSubmittedNeedsResync

fun prepared_error_code :: "prepared_transaction_error \<Rightarrow> native_xelis_error_code" where
  "prepared_error_code PreparationInProgress = OperationInProgress"
| "prepared_error_code ReplacementDuringSubmission = OperationInProgress"
| "prepared_error_code CancellationDuringSubmission = OperationInProgress"
| "prepared_error_code AlreadySubmitting = OperationInProgress"
| "prepared_error_code CannotDelete = NotFound"
| "prepared_error_code PreparedNotFound = NotFound"
| "prepared_error_code _ = Internal"

definition prepared_transaction_error_native :: "prepared_transaction_error \<Rightarrow> native_xelis_error" where
  "prepared_transaction_error_native e =
     xelis_wallet_flutter_error (prepared_error_code e) (prepared_native_kind e) (prepared_display e)"

definition invalid_prepared_transaction_hash :: native_xelis_error where
  "invalid_prepared_transaction_hash =
     xelis_wallet_flutter_error InvalidInput ''PREPARED_TRANSACTION_HASH_INVALID''
       ''Prepared transaction hash is not valid hexadecimal data''"

section \<open>Preparing\<close>

definition estimate_target_fee ::
  "upstream_text \<Rightarrow> ('a, 'h, 'tx, 'st, 'w) wallet_api \<Rightarrow> ('a, 'h) transaction_type_builder
   \<Rightarrow> native_fee_policy \<Rightarrow> 'w \<Rightarrow> (u64, native_xelis_error) result" where
  "estimate_target_fee up W ty policy w =
     and_then (map_err (\<lambda>e. from_wallet_operation up e OperationFailed
         ''TRANSACTION_FEE_ESTIMATION_FAILED'') (wallet_estimate_fees W ty w))
       (\<lambda>base_fee. apply_fee_policy base_fee policy)"

text \<open>Leaving an operation early drops its preparation guard.\<close>

definition drop_preparation ::
  "preparation_guard \<Rightarrow> ('h, 'tx, 'st, 'w) wallet_state \<Rightarrow> ('h, 'tx, 'st, 'w) wallet_state" where
  "drop_preparation gd s = s\<lparr> prepared := preparation_drop gd (prepared s) \<rparr>"

definition create_and_commit_prepared_transaction ::
  "upstream_text \<Rightarrow> 'h hash_api \<Rightarrow> ('a, 'h, 'tx, 'st, 'w) wallet_api \<Rightarrow> preparation_guard
   \<Rightarrow> ('a, 'h) transaction_type_builder \<Rightarrow> native_prepared_kind
   \<Rightarrow> prepared_transfer_extra_data option list \<Rightarrow> u64 \<Rightarrow> ('h, 'tx, 'st, 'w) wallet_state
   \<Rightarrow> (native_prepared_transaction, native_xelis_error) result \<times> ('h, 'tx, 'st, 'w) wallet_state"
where
  "create_and_commit_prepared_transaction up H W gd ty kind review target_fee s =
     (case create_transaction W ty (Some target_fee) (world s) of
        (Inl e, w) \<Rightarrow>
          (Err (from_wallet_operation up e OperationFailed ''PREPARED_TRANSACTION_CREATION_FAILED''),
           drop_preparation gd (s\<lparr> world := w \<rparr>))
      | (Inr (tx, st), w) \<Rightarrow>
          if tx_fee W tx \<noteq> target_fee
          then (Err (xelis_wallet_flutter_error Internal ''PREPARED_TRANSACTION_FEE_MISMATCH''
                  (''Prepared fee '' @ decimal_of_nat (unat (tx_fee W tx)) @
                   '' differs from requested fixed fee '' @ decimal_of_nat (unat target_fee))),
                drop_preparation gd (s\<lparr> world := w \<rparr>))
          else
            (case preparation_commit gd (tx_hash W tx)
                \<lparr> pw_transaction = tx, pw_state = st, pw_review_extra_data = review \<rparr> (prepared s) of
               (Inl e, p) \<Rightarrow>
                 (Err (prepared_transaction_error_native e), s\<lparr> world := w, prepared := p \<rparr>)
             | (Inr preparation_id, p) \<Rightarrow>
                 (Ok \<lparr> np_hash = to_hex H (tx_hash W tx), np_preparation_id = preparation_id,
                       np_fee = tx_fee W tx, np_transaction = kind \<rparr>,
                  s\<lparr> world := w, prepared := p \<rparr>)))"

text \<open>
  The common frame of the preparing operations: check the policy, take the
  preparation guard, work out what to build and for which fee, then create and
  commit it.
\<close>

type_synonym ('a, 'h) preparation_plan =
  "('a, 'h) transaction_type_builder \<times> native_prepared_kind \<times>
   prepared_transfer_extra_data option list \<times> u64"

definition run_preparation ::
  "upstream_text \<Rightarrow> 'h hash_api \<Rightarrow> ('a, 'h, 'tx, 'st, 'w) wallet_api \<Rightarrow> native_fee_policy
   \<Rightarrow> ('w \<Rightarrow> (('a, 'h) preparation_plan, native_xelis_error) result)
   \<Rightarrow> ('h, 'tx, 'st, 'w) wallet_state
   \<Rightarrow> (native_prepared_transaction, native_xelis_error) result \<times> ('h, 'tx, 'st, 'w) wallet_state"
where
  "run_preparation up H W policy plan s =
     (case apply_fee_policy 0 policy of
        Inl e \<Rightarrow> (Err e, s)
      | Inr _ \<Rightarrow>
          (case preparation_begin (prepared s) of
             (Inl e, p) \<Rightarrow> (Err (prepared_transaction_error_native e), s\<lparr> prepared := p \<rparr>)
           | (Inr gd, p) \<Rightarrow>
               (case plan (world s) of
                  Inl e \<Rightarrow> (Err e, drop_preparation gd (s\<lparr> prepared := p \<rparr>))
                | Inr (ty, kind, review, fee) \<Rightarrow>
                    create_and_commit_prepared_transaction up H W gd ty kind review fee
                      (s\<lparr> prepared := p \<rparr>))))"

definition estimate_transfer_fees_atomic ::
  "upstream_text \<Rightarrow> 'h hash_api \<Rightarrow> ('a, 'k, 'h) address_api \<Rightarrow> ('a, 'h, 'tx, 'st, 'w) wallet_api
   \<Rightarrow> transfer_request list \<Rightarrow> native_fee_policy \<Rightarrow> 'w \<Rightarrow> (u64, native_xelis_error) result" where
  "estimate_transfer_fees_atomic up H A W transfers policy w =
     and_then (apply_fee_policy 0 policy) (\<lambda>_.
     and_then (build_atomic_transfers H A transfers) (\<lambda>(ty, _, _).
     estimate_target_fee up W ty policy w))"

definition transfers_plan ::
  "upstream_text \<Rightarrow> 'h hash_api \<Rightarrow> ('a, 'k, 'h) address_api \<Rightarrow> ('a, 'h, 'tx, 'st, 'w) wallet_api
   \<Rightarrow> transfer_request list \<Rightarrow> native_fee_policy \<Rightarrow> 'w
   \<Rightarrow> (('a, 'h) preparation_plan, native_xelis_error) result" where
  "transfers_plan up H A W transfers policy w =
     and_then (build_atomic_transfers H A transfers) (\<lambda>(ty, kind, review).
     and_then (estimate_target_fee up W ty policy w) (\<lambda>target_fee.
     Ok (ty, kind, review, target_fee)))"

definition prepare_transfers_transaction ::
  "upstream_text \<Rightarrow> 'h hash_api \<Rightarrow> ('a, 'k, 'h) address_api \<Rightarrow> ('a, 'h, 'tx, 'st, 'w) wallet_api
   \<Rightarrow> transfer_request list \<Rightarrow> native_fee_policy \<Rightarrow> ('h, 'tx, 'st, 'w) wallet_state
   \<Rightarrow> (native_prepared_transaction, native_xelis_error) result \<times> ('h, 'tx, 'st, 'w) wallet_state"
where
  "prepare_transfers_transaction up H A W transfers policy =
     run_preparation up H W policy (transfers_plan up H A W transfers policy)"

definition transfer_all_plan ::
  "upstream_text \<Rightarrow> 'h hash_api \<Rightarrow> ('a, 'k, 'h) address_api \<Rightarrow> ('a, 'h, 'tx, 'st, 'w) wallet_api
   \<Rightarrow> string \<Rightarrow> string \<Rightarrow> string option \<Rightarrow> bool \<Rightarrow> native_fee_policy \<Rightarrow> 'w
   \<Rightarrow> (('a, 'h) preparation_plan, native_xelis_error) result" where
  "transfer_all_plan up H A W dest asset extra encrypt policy w =
     (let insufficient = (\<lambda>e. from_wallet_operation up e InsufficientFunds
            ''TRANSFER_ALL_BALANCE_INSUFFICIENT'') in
      and_then (parse_transaction_asset H asset) (\<lambda>asset.
      and_then (parse_transaction_destination A dest) (\<lambda>destination.
      and_then (map_err (\<lambda>e. from_wallet_storage_operation up e ''TRANSFER_ALL_BALANCE_READ_FAILED'')
        (get_plaintext_balance_for W asset w)) (\<lambda>balance.
      and_then (map_err insufficient
        (build_transfer_all_type (xelis_asset W) destination balance 0 asset extra (Some encrypt)))
        (\<lambda>estimated.
      and_then (estimate_target_fee up W estimated policy w) (\<lambda>target_fee.
      and_then (map_err insufficient
        (amount_after_fee (xelis_asset W) balance target_fee asset ''Insufficient balance for fees''))
        (\<lambda>amount.
      and_then (map_err insufficient
        (build_transfer_all_type (xelis_asset W) destination balance target_fee asset extra
          (Some encrypt))) (\<lambda>ty.
      and_then (project_prepared_transfer H A destination asset amount extra encrypt) (\<lambda>(p, x).
      Ok (ty, KindTransfers [p], [x], target_fee))))))))))"

definition prepare_transfer_all_transaction ::
  "upstream_text \<Rightarrow> 'h hash_api \<Rightarrow> ('a, 'k, 'h) address_api \<Rightarrow> ('a, 'h, 'tx, 'st, 'w) wallet_api
   \<Rightarrow> string \<Rightarrow> string \<Rightarrow> string option \<Rightarrow> bool \<Rightarrow> native_fee_policy
   \<Rightarrow> ('h, 'tx, 'st, 'w) wallet_state
   \<Rightarrow> (native_prepared_transaction, native_xelis_error) result \<times> ('h, 'tx, 'st, 'w) wallet_state"
where
  "prepare_transfer_all_transaction up H A W dest asset extra encrypt policy =
     run_preparation up H W policy (transfer_all_plan up H A W dest asset extra encrypt policy)"

definition burn_plan ::
  "upstream_text \<Rightarrow> 'h hash_api \<Rightarrow> ('a, 'h, 'tx, 'st, 'w) wallet_api \<Rightarrow> u64 \<Rightarrow> string
   \<Rightarrow> native_fee_policy \<Rightarrow> 'w \<Rightarrow> (('a, 'h) preparation_plan, native_xelis_error) result" where
  "burn_plan up H W amount asset policy w =
     (if amount = 0
      then Err (xelis_wallet_flutter_error InvalidInput ''TRANSACTION_AMOUNT_INVALID''
        ''Burn amount must be greater than zero'')
      else
        and_then (parse_transaction_asset H asset) (\<lambda>asset.
        and_then (estimate_target_fee up W (build_burn_type asset amount) policy w) (\<lambda>target_fee.
        Ok (build_burn_type asset amount, KindBurn (to_hex H asset) amount, [], target_fee))))"

definition prepare_burn_transaction ::
  "upstream_text \<Rightarrow> 'h hash_api \<Rightarrow> ('a, 'h, 'tx, 'st, 'w) wallet_api \<Rightarrow> u64 \<Rightarrow> string
   \<Rightarrow> native_fee_policy \<Rightarrow> ('h, 'tx, 'st, 'w) wallet_state
   \<Rightarrow> (native_prepared_transaction, native_xelis_error) result \<times> ('h, 'tx, 'st, 'w) wallet_state"
where
  "prepare_burn_transaction up H W amount asset policy =
     run_preparation up H W policy (burn_plan up H W amount asset policy)"

definition burn_all_plan ::
  "upstream_text \<Rightarrow> 'h hash_api \<Rightarrow> ('a, 'h, 'tx, 'st, 'w) wallet_api \<Rightarrow> string
   \<Rightarrow> native_fee_policy \<Rightarrow> 'w \<Rightarrow> (('a, 'h) preparation_plan, native_xelis_error) result" where
  "burn_all_plan up H W asset policy w =
     (let insufficient = (\<lambda>e. from_wallet_operation up e InsufficientFunds
            ''BURN_ALL_BALANCE_INSUFFICIENT'') in
      and_then (parse_transaction_asset H asset) (\<lambda>asset.
      and_then (map_err (\<lambda>e. from_wallet_storage_operation up e ''BURN_ALL_BALANCE_READ_FAILED'')
        (get_plaintext_balance_for W asset w)) (\<lambda>balance.
      and_then (map_err insufficient (build_burn_all_type (xelis_asset W) asset balance 0))
        (\<lambda>estimated.
      and_then (estimate_target_fee up W estimated policy w) (\<lambda>target_fee.
      and_then (map_err insufficient
        (amount_after_fee (xelis_asset W) balance target_fee asset
          ''Insufficient balance to pay burn transaction fees'')) (\<lambda>amount.
      and_then (map_err insufficient (build_burn_all_type (xelis_asset W) asset balance target_fee))
        (\<lambda>ty.
      Ok (ty, KindBurn (to_hex H asset) amount, [], target_fee))))))))"

definition prepare_burn_all_transaction ::
  "upstream_text \<Rightarrow> 'h hash_api \<Rightarrow> ('a, 'h, 'tx, 'st, 'w) wallet_api \<Rightarrow> string
   \<Rightarrow> native_fee_policy \<Rightarrow> ('h, 'tx, 'st, 'w) wallet_state
   \<Rightarrow> (native_prepared_transaction, native_xelis_error) result \<times> ('h, 'tx, 'st, 'w) wallet_state"
where
  "prepare_burn_all_transaction up H W asset policy =
     run_preparation up H W policy (burn_all_plan up H W asset policy)"

section \<open>Preparing without a capability\<close>

text \<open>The older entry points, which replace the slot and report errors as \<open>anyhow\<close> values.\<close>

definition build_and_store_prepared ::
  "'h hash_api \<Rightarrow> ('a, 'h, 'tx, 'st, 'w) wallet_api \<Rightarrow> ('a, 'h) transaction_type_builder
   \<Rightarrow> ('w \<Rightarrow> ('h \<times> u64 \<times> ('tx, 'st) prepared_wallet_transaction, anyhow_error) result \<times> 'w)
   \<Rightarrow> ('h, 'tx, 'st, 'w) wallet_state
   \<Rightarrow> (string, anyhow_error) result \<times> ('h, 'tx, 'st, 'w) wallet_state" where
  "build_and_store_prepared H W ty build s =
     (case build (world s) of
        (Inl e, w) \<Rightarrow> (Err e, s\<lparr> world := w \<rparr>)
      | (Inr (hash, fee, p), w) \<Rightarrow>
          (case replace_prepared hash p (prepared s) of
             (Inl e, store) \<Rightarrow>
               (Err (AnyOther (prepared_display e)), s\<lparr> world := w, prepared := store \<rparr>)
           | (Inr _, store) \<Rightarrow>
               (Ok (summary_json W (to_hex H hash) fee ty), s\<lparr> world := w, prepared := store \<rparr>)))"

definition create_and_store_prepared_transaction ::
  "'h hash_api \<Rightarrow> ('a, 'h, 'tx, 'st, 'w) wallet_api \<Rightarrow> ('a, 'h) transaction_type_builder
   \<Rightarrow> ('h, 'tx, 'st, 'w) wallet_state
   \<Rightarrow> (string, anyhow_error) result \<times> ('h, 'tx, 'st, 'w) wallet_state" where
  "create_and_store_prepared_transaction H W ty =
     build_and_store_prepared H W ty
       (\<lambda>w. case create_transaction W ty None w of
          (Inl e, w') \<Rightarrow> (Err e, w')
        | (Inr (tx, st), w') \<Rightarrow>
            (Ok (tx_hash W tx, tx_fee W tx, without_review_extra_data tx st), w'))"

definition create_transfer_all_transaction ::
  "'h hash_api \<Rightarrow> ('a, 'k, 'h) address_api \<Rightarrow> ('a, 'h, 'tx, 'st, 'w) wallet_api
   \<Rightarrow> string \<Rightarrow> string option \<Rightarrow> string option \<Rightarrow> bool option \<Rightarrow> ('h, 'tx, 'st, 'w) wallet_state
   \<Rightarrow> (string, anyhow_error) result \<times> ('h, 'tx, 'st, 'w) wallet_state" where
  "create_transfer_all_transaction H A W str_address asset_hash extra encrypt s =
     (let plan =
        and_then
          (case asset_hash of
             None \<Rightarrow> Ok (xelis_asset W)
           | Some v \<Rightarrow> map_err (\<lambda>e. AnyContext ''Invalid asset'' (AnyOther e)) (from_hex H v))
          (\<lambda>asset.
        and_then (get_plaintext_balance_for W asset (world s)) (\<lambda>balance.
        and_then (map_err (\<lambda>e. AnyContext ''Invalid address'' (AnyOther e))
          (address_from_string A str_address)) (\<lambda>address.
        and_then (build_transfer_all_type (xelis_asset W) address balance 0 asset extra encrypt)
          (\<lambda>estimated.
        and_then (map_err (AnyContext ''Error while estimating fees'')
          (wallet_estimate_fees W estimated (world s))) (\<lambda>fees.
        build_transfer_all_type (xelis_asset W) address balance fees asset extra encrypt)))))
      in case plan of
           Inl e \<Rightarrow> (Err e, s)
         | Inr ty \<Rightarrow> create_and_store_prepared_transaction H W ty s)"

definition create_burn_all_transaction ::
  "'h hash_api \<Rightarrow> ('a, 'h, 'tx, 'st, 'w) wallet_api \<Rightarrow> string \<Rightarrow> ('h, 'tx, 'st, 'w) wallet_state
   \<Rightarrow> (string, anyhow_error) result \<times> ('h, 'tx, 'st, 'w) wallet_state" where
  "create_burn_all_transaction H W asset_hash s =
     (let plan =
        and_then (map_err (\<lambda>e. AnyContext ''Invalid asset'' (AnyOther e)) (from_hex H asset_hash))
          (\<lambda>asset.
        and_then (get_plaintext_balance_for W asset (world s)) (\<lambda>balance.
        and_then (build_burn_all_type (xelis_asset W) asset balance 0) (\<lambda>estimated.
        and_then (map_err (AnyContext ''Error while estimating fees'')
          (wallet_estimate_fees W estimated (world s))) (\<lambda>fees.
        build_burn_all_type (xelis_asset W) asset balance fees))))
      in case plan of
           Inl e \<Rightarrow> (Err e, s)
         | Inr ty \<Rightarrow> create_and_store_prepared_transaction H W ty s)"

definition clear_transaction_internal ::
  "'h hash_api \<Rightarrow> string \<Rightarrow> ('h, 'tx, 'st, 'w) wallet_state
   \<Rightarrow> ('tx \<times> 'st, anyhow_error) result \<times> ('h, 'tx, 'st, 'w) wallet_state" where
  "clear_transaction_internal H hash_text s =
     (case from_hex H hash_text of
        Inl e \<Rightarrow> (Err (AnyOther e), s)
      | Inr hash \<Rightarrow>
          (case cancel_prepared hash (prepared s) of
             (Inl e, p) \<Rightarrow> (Err (AnyOther (prepared_display e)), s\<lparr> prepared := p \<rparr>)
           | (Inr t, p) \<Rightarrow> (Ok (pw_transaction t, pw_state t), s\<lparr> prepared := p \<rparr>)))"

section \<open>Inspecting, cancelling, broadcasting\<close>

definition inspect_prepared_transfer_extra_data ::
  "'h hash_api \<Rightarrow> u64 \<Rightarrow> string \<Rightarrow> u32 \<Rightarrow> ('h, 'tx, 'st, 'w) wallet_state
   \<Rightarrow> (prepared_transfer_extra_data, native_xelis_error) result" where
  "inspect_prepared_transfer_extra_data H preparation_id hash_text index s =
     and_then (map_err (\<lambda>_. invalid_prepared_transaction_hash) (from_hex H hash_text)) (\<lambda>hash.
     and_then (map_err prepared_transaction_error_native
       (ready_exact preparation_id hash (prepared s))) (\<lambda>p.
     if unat index \<ge> transfer_count p
     then Err (xelis_wallet_flutter_error InvalidInput ''PREPARED_TRANSFER_INDEX_INVALID''
       (''Prepared transfer index '' @ decimal_of_nat (unat index) @
        '' is outside the transaction transfer count '' @ decimal_of_nat (transfer_count p)))
     else ok_or (review_extra_data p (unat index))
       (xelis_wallet_flutter_error NotFound ''PREPARED_TRANSFER_EXTRA_DATA_NOT_FOUND''
         ''The selected prepared transfer does not contain extra data'')))"

definition cancel_prepared_transaction ::
  "'h hash_api \<Rightarrow> u64 \<Rightarrow> string \<Rightarrow> ('h, 'tx, 'st, 'w) wallet_state
   \<Rightarrow> (unit, native_xelis_error) result \<times> ('h, 'tx, 'st, 'w) wallet_state" where
  "cancel_prepared_transaction H preparation_id hash_text s =
     (case from_hex H hash_text of
        Inl _ \<Rightarrow> (Err invalid_prepared_transaction_hash, s)
      | Inr hash \<Rightarrow>
          (case cancel_exact preparation_id hash (prepared s) of
             (Inl e, p) \<Rightarrow> (Err (prepared_transaction_error_native e), s\<lparr> prepared := p \<rparr>)
           | (Inr _, p) \<Rightarrow> (Ok (), s\<lparr> prepared := p \<rparr>)))"

definition offline_prepared_transaction_outcome ::
  "upstream_text \<Rightarrow> u64 \<Rightarrow> 'h \<Rightarrow> ('h, 'tx, 'st) wallet_slot
   \<Rightarrow> (prepared_broadcast_outcome, native_xelis_error) result" where
  "offline_prepared_transaction_outcome up preparation_id hash store =
     and_then (map_err prepared_transaction_error_native (ensure_ready_exact preparation_id hash store))
       (\<lambda>_. Ok (OutRetryable (from_wallet_error up WNotOnlineMode)))"

definition clear_unconfirmed_transaction_state ::
  "('a, 'h, 'tx, 'st, 'w) wallet_api \<Rightarrow> ('h, 'tx, 'st, 'w) wallet_state
   \<Rightarrow> ('h, 'tx, 'st, 'w) wallet_state" where
  "clear_unconfirmed_transaction_state W s =
     s\<lparr> world := delete_unconfirmed_balances W (world s) \<rparr>"

text \<open>The match on the resolution at the end of \<open>broadcast_prepared_transaction\<close>.\<close>

definition settle_prepared ::
  "upstream_text \<Rightarrow> ('a, 'h, 'tx, 'st, 'w) wallet_api
   \<Rightarrow> ('h, ('tx, 'st) prepared_wallet_transaction) transaction_guard \<Rightarrow> submission_resolution
   \<Rightarrow> ('h, 'tx, 'st, 'w) wallet_state
   \<Rightarrow> (prepared_broadcast_outcome, native_xelis_error) result \<times> ('h, 'tx, 'st, 'w) wallet_state"
where
  "settle_prepared up W gd resolution s =
     (case resolution of
        ResSubmitted \<Rightarrow>
          (case guard_finish gd (prepared s) of
             (Inl e, p) \<Rightarrow> (Err (prepared_transaction_error_native e), s\<lparr> prepared := p \<rparr>)
           | (Inr t, p) \<Rightarrow>
               (case apply_changes W (pw_state t) (pw_transaction t) (world s) of
                  (Inl e, w) \<Rightarrow>
                    (Ok (OutSubmittedNeedsResync (from_wallet_storage_operation up (AnyWallet e)
                        ''PREPARED_TRANSACTION_LOCAL_APPLY_FAILED'')),
                     s\<lparr> prepared := p, world := delete_unconfirmed_balances W w \<rparr>)
                | (Inr _, w) \<Rightarrow> (Ok OutSubmitted, s\<lparr> prepared := p, world := w \<rparr>)))
      | ResRetryable e \<Rightarrow>
          (case guard_restore gd (prepared s) of
             (Inl d, p) \<Rightarrow> (Err (prepared_transaction_error_native d), s\<lparr> prepared := p \<rparr>)
           | (Inr _, p) \<Rightarrow>
               (Ok (OutRetryable (from_wallet_error up e)),
                clear_unconfirmed_transaction_state W (s\<lparr> prepared := p \<rparr>)))
      | ResDaemonRejected e \<Rightarrow>
          (case guard_finish gd (prepared s) of
             (Inl d, p) \<Rightarrow> (Err (prepared_transaction_error_native d), s\<lparr> prepared := p \<rparr>)
           | (Inr _, p) \<Rightarrow>
               (Ok (OutRejected (from_wallet_error up e)),
                clear_unconfirmed_transaction_state W (s\<lparr> prepared := p \<rparr>)))
      | ResLocalFailure e \<Rightarrow>
          (case guard_finish gd (prepared s) of
             (Inl d, p) \<Rightarrow> (Err (prepared_transaction_error_native d), s\<lparr> prepared := p \<rparr>)
           | (Inr _, p) \<Rightarrow>
               (Ok (OutLocalFailure (from_wallet_error up e)),
                clear_unconfirmed_transaction_state W (s\<lparr> prepared := p \<rparr>))))"

definition storage_context ::
  "upstream_text \<Rightarrow> ('a, 'h, 'tx, 'st, 'w) wallet_api \<Rightarrow> 'w \<Rightarrow> (unit, native_xelis_error) result"
where
  "storage_context up W w =
     and_then (map_err (\<lambda>e. from_wallet_storage_operation up e
         ''PREPARED_TRANSACTION_STORAGE_VERSION_READ_FAILED'') (get_tx_version W w)) (\<lambda>_.
     and_then (map_err (\<lambda>e. from_wallet_storage_operation up e
         ''PREPARED_TRANSACTION_TOPOHEIGHT_READ_FAILED'') (get_synced_topoheight W w)) (\<lambda>_.
     map_err (\<lambda>e. from_wallet_storage_operation up e
         ''PREPARED_TRANSACTION_TOP_BLOCK_READ_FAILED'') (get_top_block_hash W w)))"

definition broadcast_prepared_transaction ::
  "upstream_text \<Rightarrow> 'h hash_api \<Rightarrow> ('a, 'h, 'tx, 'st, 'w) wallet_api \<Rightarrow> u64 \<Rightarrow> string
   \<Rightarrow> ('h, 'tx, 'st, 'w) wallet_state
   \<Rightarrow> (prepared_broadcast_outcome, native_xelis_error) result \<times> ('h, 'tx, 'st, 'w) wallet_state"
where
  "broadcast_prepared_transaction up H W preparation_id hash_text s =
     (case from_hex H hash_text of
        Inl _ \<Rightarrow> (Err invalid_prepared_transaction_hash, s)
      | Inr hash \<Rightarrow>
          if \<not> wallet_is_online W (world s)
          then (offline_prepared_transaction_outcome up preparation_id hash (prepared s), s)
          else
            (case guard_take_exact preparation_id hash (prepared s) of
               (Inl e, p) \<Rightarrow> (Err (prepared_transaction_error_native e), s\<lparr> prepared := p \<rparr>)
             | (Inr gd, p) \<Rightarrow>
                 (case and_then (storage_context up W (world s)) (\<lambda>_.
                     map_err prepared_transaction_error_native (guard_transaction gd)) of
                    Inl e \<Rightarrow> (Err e, s\<lparr> prepared := guard_drop gd p \<rparr>)
                  | Inr t \<Rightarrow>
                      (case submit_transaction W (pw_transaction t) (world s) of
                         (r, w) \<Rightarrow> settle_prepared up W gd (resolve_submission r)
                           (s\<lparr> prepared := p, world := w \<rparr>)))))"

definition settle_legacy ::
  "('a, 'h, 'tx, 'st, 'w) wallet_api
   \<Rightarrow> ('h, ('tx, 'st) prepared_wallet_transaction) transaction_guard \<Rightarrow> submission_resolution
   \<Rightarrow> ('h, 'tx, 'st, 'w) wallet_state
   \<Rightarrow> (broadcast_transaction_outcome, anyhow_error) result \<times> ('h, 'tx, 'st, 'w) wallet_state" where
  "settle_legacy W gd resolution s =
     (case resolution of
        ResSubmitted \<Rightarrow>
          (case guard_finish gd (prepared s) of
             (Inl e, p) \<Rightarrow> (Err (AnyOther (prepared_display e)), s\<lparr> prepared := p \<rparr>)
           | (Inr t, p) \<Rightarrow>
               (case apply_changes W (pw_state t) (pw_transaction t) (world s) of
                  (Inl _, w) \<Rightarrow>
                    (Ok BroadcastSubmittedNeedsResync,
                     s\<lparr> prepared := p, world := delete_unconfirmed_balances W w \<rparr>)
                | (Inr _, w) \<Rightarrow> (Ok BroadcastSubmitted, s\<lparr> prepared := p, world := w \<rparr>)))
      | ResRetryable _ \<Rightarrow>
          (case guard_restore gd (prepared s) of
             (Inl d, p) \<Rightarrow> (Err (AnyOther (prepared_display d)), s\<lparr> prepared := p \<rparr>)
           | (Inr _, p) \<Rightarrow>
               (Ok BroadcastRetryable, clear_unconfirmed_transaction_state W (s\<lparr> prepared := p \<rparr>)))
      | ResDaemonRejected _ \<Rightarrow>
          (case guard_finish gd (prepared s) of
             (Inl d, p) \<Rightarrow> (Err (AnyOther (prepared_display d)), s\<lparr> prepared := p \<rparr>)
           | (Inr _, p) \<Rightarrow>
               (Ok BroadcastRejected, clear_unconfirmed_transaction_state W (s\<lparr> prepared := p \<rparr>)))
      | ResLocalFailure _ \<Rightarrow>
          (case guard_finish gd (prepared s) of
             (Inl d, p) \<Rightarrow> (Err (AnyOther (prepared_display d)), s\<lparr> prepared := p \<rparr>)
           | (Inr _, p) \<Rightarrow>
               (Ok BroadcastLocalFailure,
                clear_unconfirmed_transaction_state W (s\<lparr> prepared := p \<rparr>))))"

definition broadcast_transaction ::
  "'h hash_api \<Rightarrow> ('a, 'h, 'tx, 'st, 'w) wallet_api \<Rightarrow> string \<Rightarrow> ('h, 'tx, 'st, 'w) wallet_state
   \<Rightarrow> (broadcast_transaction_outcome, anyhow_error) result \<times> ('h, 'tx, 'st, 'w) wallet_state" where
  "broadcast_transaction H W hash_text s =
     (case and_then (ensure_wallet_online (wallet_is_online W (world s))) (\<lambda>_.
           and_then (get_tx_version W (world s)) (\<lambda>_.
           and_then (get_synced_topoheight W (world s)) (\<lambda>_.
           and_then (get_top_block_hash W (world s)) (\<lambda>_.
           map_err AnyOther (from_hex H hash_text))))) of
        Inl e \<Rightarrow> (Err e, s)
      | Inr hash \<Rightarrow>
          (case guard_take hash (prepared s) of
             (Inl e, p) \<Rightarrow> (Err (AnyOther (prepared_display e)), s\<lparr> prepared := p \<rparr>)
           | (Inr gd, p) \<Rightarrow>
               (case guard_transaction gd of
                  Inl e \<Rightarrow>
                    (Err (AnyOther (prepared_display e)), s\<lparr> prepared := guard_drop gd p \<rparr>)
                | Inr t \<Rightarrow>
                    (case submit_transaction W (pw_transaction t) (world s) of
                       (r, w) \<Rightarrow> settle_legacy W gd (resolve_submission r)
                         (s\<lparr> prepared := p, world := w \<rparr>)))))"

section \<open>Specification\<close>

text \<open>
  What broadcasting a prepared transaction promises, without guards: the exact
  capability must be ready; nothing else in the slot is touched; the slot is
  emptied exactly when the outcome is final.
\<close>

definition empty_slot ::
  "('h, 'tx, 'st, 'w) wallet_state \<Rightarrow> ('h, 'tx, 'st, 'w) wallet_state" where
  "empty_slot s = s\<lparr> prepared := (prepared s)\<lparr> state := Empty \<rparr> \<rparr>"

definition broadcast_spec ::
  "upstream_text \<Rightarrow> 'h hash_api \<Rightarrow> ('a, 'h, 'tx, 'st, 'w) wallet_api \<Rightarrow> u64 \<Rightarrow> string
   \<Rightarrow> ('h, 'tx, 'st, 'w) wallet_state
   \<Rightarrow> (prepared_broadcast_outcome, native_xelis_error) result \<times> ('h, 'tx, 'st, 'w) wallet_state"
where
  "broadcast_spec up H W preparation_id hash_text s =
     (case and_then (map_err (\<lambda>_. invalid_prepared_transaction_hash) (from_hex H hash_text)) (\<lambda>hash.
           map_err prepared_transaction_error_native (ready_exact preparation_id hash (prepared s))) of
        Inl e \<Rightarrow> (Err e, s)
      | Inr t \<Rightarrow>
          if \<not> wallet_is_online W (world s)
          then (Ok (OutRetryable (from_wallet_error up WNotOnlineMode)), s)
          else case storage_context up W (world s) of
            Inl e \<Rightarrow> (Err e, s)
          | Inr _ \<Rightarrow>
              (case submit_transaction W (pw_transaction t) (world s) of
                 (Inr _, w) \<Rightarrow>
                   (case apply_changes W (pw_state t) (pw_transaction t) w of
                      (Inl e, w') \<Rightarrow>
                        (Ok (OutSubmittedNeedsResync (from_wallet_storage_operation up (AnyWallet e)
                           ''PREPARED_TRANSACTION_LOCAL_APPLY_FAILED'')),
                         empty_slot (s\<lparr> world := delete_unconfirmed_balances W w' \<rparr>))
                    | (Inr _, w') \<Rightarrow> (Ok OutSubmitted, empty_slot (s\<lparr> world := w' \<rparr>)))
               | (Inl e, w) \<Rightarrow>
                   (let s' = s\<lparr> world := delete_unconfirmed_balances W w \<rparr> in
                    case classify_submit_error e of
                      ClassRetryable \<Rightarrow> (Ok (OutRetryable (from_wallet_error up e)), s')
                    | ClassDaemonRejected \<Rightarrow>
                        (Ok (OutRejected (from_wallet_error up e)), empty_slot s')
                    | ClassLocalFailure \<Rightarrow>
                        (Ok (OutLocalFailure (from_wallet_error up e)), empty_slot s'))))"

section \<open>Lemmas\<close>

text \<open>What taking, finishing, restoring and dropping a guard come to.\<close>

lemma ready_exact_Ok:
  "ready_exact g h s = Ok t \<longleftrightarrow> state s = Ready g h t \<and> active_preparation s = None"
  by (auto simp: store_simps result_simps split: prepared_transaction_state.splits if_splits)

lemma ensure_ready_exact_ready: "ensure_ready_exact g h s = map_ok (\<lambda>_. ()) (ready_exact g h s)"
  by (auto simp: store_simps split: prepared_transaction_state.splits if_splits)

lemma guard_take_exact_ready:
  "guard_take_exact g h s =
     (case ready_exact g h s of
        Inl e \<Rightarrow> (Err e, s)
      | Inr t \<Rightarrow> (Ok \<lparr> tg_generation = g, tg_hash = h, tg_transaction = Some t \<rparr>,
                  s\<lparr> state := InFlight g h \<rparr>))"
  by (auto simp: store_simps split: prepared_transaction_state.splits if_splits)

lemma taken_guard:
  assumes "state s = Ready g h t"
    and "gd = \<lparr> tg_generation = g, tg_hash = h, tg_transaction = Some t \<rparr>"
  shows "guard_drop gd (s\<lparr> state := InFlight g h \<rparr>) = s"
    and "guard_restore gd (s\<lparr> state := InFlight g h \<rparr>) = (Ok (), s)"
    and "guard_finish gd (s\<lparr> state := InFlight g h \<rparr>) = (Ok t, s\<lparr> state := Empty \<rparr>)"
  using assms by (auto simp: store_simps)

lemma begun_preparation:
  assumes "preparation_begin s = (Ok gd, s1)"
  shows "preparation_drop gd s1 = s\<lparr> next_generation := pg_generation gd \<rparr>"
    and "preparation_commit gd h t s1 =
      (Ok (pg_generation gd), s\<lparr> next_generation := pg_generation gd,
         state := Ready (pg_generation gd) h t \<rparr>)"
    and "active_preparation s = None" and "\<not> is_in_flight (state s)"
    and "checked_add (next_generation s) 1 = Some (pg_generation gd)"
  using assms
  by (auto simp: store_simps split: prepared_transaction_state.splits if_splits option.splits
      sum.splits prod.splits)

lemma refused_preparation: "preparation_begin s = (Err e, s1) \<Longrightarrow> s1 = s"
  by (auto simp: store_simps split: if_splits option.splits sum.splits prod.splits)

lemma rpc_leaf_code:
  "(\<And>inner. r \<noteq> RpcAny inner) \<Longrightarrow> cl_code (classify_json_rpc_error up r) = json_rpc_code r"
  by (cases r) (auto simp: classify_json_rpc_error.simps json_rpc_classification_def)

lemma wrapped_rpc_code:
  assumes "downcast_json_rpc e = Some r" "\<And>inner. r \<noteq> RpcAny inner"
  shows "cl_code (classify_wallet_error up (WAny e kind)) = json_rpc_code r"
  using assms rpc_leaf_code [of r up]
  by (simp add: classify_wallet_error.simps classify_anyhow_error_with_policy.simps)

lemma submit_class_any:
  "is_retryable_rpc_error e \<Longrightarrow> cl_code (classify_wallet_error up (WAny e kind)) = Network"
  "is_daemon_rejection e \<Longrightarrow> cl_code (classify_wallet_error up (WAny e kind)) = RemoteRejected"
  by (auto simp: is_retryable_rpc_error_def is_daemon_rejection_def wrapped_rpc_code
      split: option.splits json_rpc_error.splits)

lemma submit_class_code:
  assumes "classify_submit_error w = c"
  shows "c = ClassRetryable \<Longrightarrow> cl_code (classify_wallet_error up w) \<in> {Network, Offline}"
    and "c = ClassDaemonRejected \<Longrightarrow> cl_code (classify_wallet_error up w) = RemoteRejected"
proof -
  have leaf: "cl_code (classify_wallet_error up w) \<in> {Network, Offline}"
    if "classify_submit_error w = ClassRetryable"
    using that submit_class_any(1)
    by (cases w) (simp_all add: classify_submit_error_def classify_wallet_error.simps
        wallet_error_class_def typed_classification_def split: if_splits)
  show "c = ClassRetryable \<Longrightarrow> cl_code (classify_wallet_error up w) \<in> {Network, Offline}"
    using assms leaf by simp
  show "c = ClassDaemonRejected \<Longrightarrow> cl_code (classify_wallet_error up w) = RemoteRejected"
    using assms submit_class_any(2)
    by (cases w) (auto simp: classify_submit_error_def split: if_splits)
qed

lemma from_wallet_error_code: "ne_code (from_wallet_error up w) = cl_code (classify_wallet_error up w)"
  by (simp add: from_wallet_error_def from_classification_def new_native_error_def)

lemma resolve_submission_code:
  "resolve_submission r = ResRetryable e \<Longrightarrow> ne_code (from_wallet_error up e) \<in> {Network, Offline}"
  "resolve_submission r = ResDaemonRejected e \<Longrightarrow> ne_code (from_wallet_error up e) = RemoteRejected"
  by (auto simp: resolve_submission_def from_wallet_error_code split: sum.splits
      submit_error_class.splits dest: submit_class_code)

lemma settle_taken:
  assumes "state (prepared s) = Ready g h t"
    and gd: "gd = \<lparr> tg_generation = g, tg_hash = h, tg_transaction = Some t \<rparr>"
  shows "settle_prepared up W gd (resolve_submission r)
      (s\<lparr> prepared := (prepared s)\<lparr> state := InFlight g h \<rparr>, world := w \<rparr>) =
    (case r of
       Inr _ \<Rightarrow>
         (case apply_changes W (pw_state t) (pw_transaction t) w of
            (Inl e, w') \<Rightarrow>
              (Ok (OutSubmittedNeedsResync (from_wallet_storage_operation up (AnyWallet e)
                 ''PREPARED_TRANSACTION_LOCAL_APPLY_FAILED'')),
               empty_slot (s\<lparr> world := delete_unconfirmed_balances W w' \<rparr>))
          | (Inr _, w') \<Rightarrow> (Ok OutSubmitted, empty_slot (s\<lparr> world := w' \<rparr>)))
     | Inl e \<Rightarrow>
         (let s' = s\<lparr> world := delete_unconfirmed_balances W w \<rparr> in
          case classify_submit_error e of
            ClassRetryable \<Rightarrow> (Ok (OutRetryable (from_wallet_error up e)), s')
          | ClassDaemonRejected \<Rightarrow> (Ok (OutRejected (from_wallet_error up e)), empty_slot s')
          | ClassLocalFailure \<Rightarrow> (Ok (OutLocalFailure (from_wallet_error up e)), empty_slot s')))"
  using taken_guard [OF assms]
  by (auto simp: settle_prepared_def resolve_submission_def clear_unconfirmed_transaction_state_def
      empty_slot_def Let_def split: sum.split submit_error_class.split prod.split)

lemma broadcast_refines_spec:
  "broadcast_prepared_transaction up H W g hx s = broadcast_spec up H W g hx s"
proof (cases "from_hex H hx")
  case (Inl e)
  then show ?thesis
    by (simp add: broadcast_prepared_transaction_def broadcast_spec_def)
next
  case hash: (Inr h)
  show ?thesis
  proof (cases "ready_exact g h (prepared s)")
    case (Inl e)
    then show ?thesis
      using hash by (simp add: broadcast_prepared_transaction_def broadcast_spec_def
          offline_prepared_transaction_outcome_def ensure_ready_exact_ready guard_take_exact_ready)
  next
    case (Inr t)
    then have ready: "state (prepared s) = Ready g h t"
      by (simp add: ready_exact_Ok)
    obtain r w where sub: "submit_transaction W (pw_transaction t) (world s) = (r, w)" by force
    have online: "broadcast_prepared_transaction up H W g hx s =
        (if wallet_is_online W (world s)
         then case storage_context up W (world s) of
             Inl e \<Rightarrow> (Err e, s)
           | Inr _ \<Rightarrow> settle_prepared up W \<lparr> tg_generation = g, tg_hash = h, tg_transaction = Some t \<rparr>
               (resolve_submission r)
               (s\<lparr> prepared := (prepared s)\<lparr> state := InFlight g h \<rparr>, world := w \<rparr>)
         else (Ok (OutRetryable (from_wallet_error up WNotOnlineMode)), s))"
      using hash Inr taken_guard(1) [OF ready refl] sub
      by (simp add: broadcast_prepared_transaction_def guard_transaction_def
          offline_prepared_transaction_outcome_def ensure_ready_exact_ready guard_take_exact_ready
          split: sum.split)
    show ?thesis
      unfolding online settle_taken [OF ready refl]
      using hash Inr sub by (simp add: broadcast_spec_def split: sum.split)
  qed
qed

lemma run_preparation_Err:
  "run_preparation up H W policy plan s = (Err e, s') \<Longrightarrow>
   state (prepared s') = state (prepared s) \<and>
   active_preparation (prepared s') = active_preparation (prepared s)"
  by (auto simp: run_preparation_def create_and_commit_prepared_transaction_def drop_preparation_def
      begun_preparation dest: refused_preparation
      split: sum.splits prod.splits if_splits)

lemma run_preparation_Ok:
  assumes "run_preparation up H W policy plan s = (Ok np, s')"
  obtains ty kind review tx st where
    "plan (world s) = Ok (ty, kind, review, np_fee np)"
    "create_transaction W ty (Some (np_fee np)) (world s) = (Ok (tx, st), world s')"
    "np_hash np = to_hex H (tx_hash W tx)" "tx_fee W tx = np_fee np" "np_transaction np = kind"
    "state (prepared s') = Ready (np_preparation_id np) (tx_hash W tx)
       \<lparr> pw_transaction = tx, pw_state = st, pw_review_extra_data = review \<rparr>"
    "active_preparation (prepared s') = None"
    "next_generation (prepared s) < np_preparation_id np"
proof -
  obtain gd p where begun: "preparation_begin (prepared s) = (Ok gd, p)"
    using assms by (auto simp: run_preparation_def split: sum.splits prod.splits)
  obtain ty kind review fee where plan: "plan (world s) = Ok (ty, kind, review, fee)"
    and run: "create_and_commit_prepared_transaction up H W gd ty kind review fee
      (s\<lparr> prepared := p \<rparr>) = (Ok np, s')"
    using assms begun by (auto simp: run_preparation_def split: sum.splits prod.splits)
  then obtain tx st w where created: "create_transaction W ty (Some fee) (world s) = (Ok (tx, st), w)"
    and fee: "tx_fee W tx = fee"
    by (auto simp: create_and_commit_prepared_transaction_def split: sum.splits prod.splits if_splits)
  from run have np: "np = \<lparr> np_hash = to_hex H (tx_hash W tx), np_preparation_id = pg_generation gd,
      np_fee = fee, np_transaction = kind \<rparr>"
    and s': "s' = s\<lparr> world := w, prepared := (prepared s)\<lparr> next_generation := pg_generation gd,
      state := Ready (pg_generation gd) (tx_hash W tx)
        \<lparr> pw_transaction = tx, pw_state = st, pw_review_extra_data = review \<rparr> \<rparr> \<rparr>"
    using begun_preparation(2) [OF begun]
    by (auto simp: create_and_commit_prepared_transaction_def created fee)
  show ?thesis
    using that plan created fee np s' begun_preparation(3,5) [OF begun] checked_succ_Some(1)
    by simp
qed

lemma estimate_target_fee_Ok:
  "estimate_target_fee up W ty policy w = Ok fee \<longleftrightarrow>
     (\<exists>base. wallet_estimate_fees W ty w = Ok base \<and> apply_fee_policy base policy = Ok fee)"
  by (auto simp: estimate_target_fee_def result_simps)

lemma transfers_plan_Ok:
  "transfers_plan up H A W ts policy w = Ok (ty, kind, review, fee) \<longleftrightarrow>
     build_atomic_transfers H A ts = Ok (ty, kind, review) \<and>
     estimate_target_fee up W ty policy w = Ok fee"
  by (auto simp: transfers_plan_def result_simps)

lemma transfer_all_plan_Ok:
  assumes "transfer_all_plan up H A W dest asset extra encrypt policy w = Ok (ty, kind, review, fee)"
  obtains a d balance amount p x where
    "from_hex H asset = Ok a" "address_from_string A dest = Ok d"
    "get_plaintext_balance_for W a w = Ok balance"
    "amount_after_fee (xelis_asset W) balance fee a ''Insufficient balance for fees'' = Ok amount"
    "ty = TransfersType [build_transfer d amount a extra (Some encrypt)]"
    "kind = KindTransfers [p]" "review = [x]"
    "project_prepared_transfer H A d a amount extra encrypt = Ok (p, x)"
  using assms
  by (auto simp: transfer_all_plan_def Let_def result_simps parse_transaction_asset_def
      parse_transaction_destination_def build_transfer_all_type_def)

section \<open>A concrete instance\<close>

text \<open>An upstream wallet that is online, always builds what it is asked for, and whose
  transaction is its fee.\<close>

definition demo_wallet_api ::
  "(bool \<times> bool data_element option, bool, u64, unit, unit) wallet_api" where
  "demo_wallet_api =
     \<lparr> wallet_is_online = (\<lambda>_. True), wallet_estimate_fees = (\<lambda>_ _. Ok 20),
       create_transaction = (\<lambda>_ fee w. (Ok (case fee of Some f \<Rightarrow> (f, ()) | None \<Rightarrow> (20, ())), w)),
       get_plaintext_balance_for = (\<lambda>_ _. Ok 100), get_tx_version = (\<lambda>_. Ok ()),
       get_synced_topoheight = (\<lambda>_. Ok ()), get_top_block_hash = (\<lambda>_. Ok ()),
       submit_transaction = (\<lambda>_ w. (Ok (), w)), apply_changes = (\<lambda>_ _ w. (Ok (), w)),
       delete_unconfirmed_balances = (\<lambda>w. w), tx_hash = (\<lambda>_. True), tx_fee = (\<lambda>f. f),
       xelis_asset = True, summary_json = (\<lambda>_ _ _. []) \<rparr>"

definition demo_upstream_text :: upstream_text where
  "demo_upstream_text = \<lparr> wallet_kind = (\<lambda>_. []), wallet_text = (\<lambda>_. []), rpc_kind = (\<lambda>_. []),
     rpc_text = (\<lambda>_. []), anyhow_text = (\<lambda>_. []) \<rparr>"

lemma demo_prepare_transfers:
  "\<exists>s'. prepare_transfers_transaction demo_upstream_text demo_hash_api demo_address_api
     demo_wallet_api [\<lparr> rq_amount = 5, rq_destination = ''mi'', rq_asset = ''1'',
       rq_extra_data = None, rq_encrypt_extra_data = True \<rparr>] (Tip 1)
     \<lparr> prepared = default_prepared_store, world = () \<rparr> =
   (Ok \<lparr> np_hash = ''1'', np_preparation_id = 1, np_fee = 21,
         np_transaction = KindTransfers [\<lparr> pt_amount = 5, pt_destination = ''mn'', pt_asset = ''1'',
           pt_has_extra_data = True, pt_encrypt_extra_data = True \<rparr>] \<rparr>, s')"
  by (simp add: prepare_transfers_transaction_def run_preparation_def transfers_plan_def
      build_atomic_transfers_def parse_transaction_asset_def parse_transaction_destination_def
      project_prepared_transfer_def demo_hash_api_def demo_address_api_def demo_wallet_api_def
      estimate_target_fee_def create_and_commit_prepared_transaction_def default_prepared_store_def
      preparation_begin_def begin_preparation_def ensure_replaceable_def allocate_generation_def
      preparation_commit_def commit_preparation_def preparation_drop_def checked_add_def)

lemma demo_prepare_transfer_all:
  "\<exists>s' k. prepare_transfer_all_transaction demo_upstream_text demo_hash_api demo_address_api
     demo_wallet_api ''mn'' ''1'' None True Automatic
     \<lparr> prepared = default_prepared_store, world = () \<rparr> =
   (Ok \<lparr> np_hash = ''1'', np_preparation_id = 1, np_fee = 20, np_transaction = k \<rparr>, s')"
  by (simp add: prepare_transfer_all_transaction_def run_preparation_def transfer_all_plan_def
      parse_transaction_asset_def parse_transaction_destination_def Let_def
      project_prepared_transfer_def demo_hash_api_def demo_address_api_def demo_wallet_api_def
      estimate_target_fee_def create_and_commit_prepared_transaction_def default_prepared_store_def
      preparation_begin_def begin_preparation_def ensure_replaceable_def allocate_generation_def
      preparation_commit_def commit_preparation_def preparation_drop_def checked_add_def
      build_transfer_all_type_def amount_after_fee_def checked_sub_def)

section \<open>Properties\<close>

text \<open>
  C5: broadcasting a prepared transaction implements its contract.  With
  guards, submission and settlement it gives exactly the outcome and the
  wallet of the guard-free specification: a capability that is not ready is
  refused, an offline wallet or a failed storage read leaves everything as it
  was, and each answer of the daemon has its outcome.
\<close>

theorem broadcast_implements_contract:
  "broadcast_prepared_transaction up H W preparation_id hash_text s =
   broadcast_spec up H W preparation_id hash_text s"
  by (rule broadcast_refines_spec)

text \<open>
  A reviewed transaction is never lost and never sent twice.  After a
  broadcast that fails or may be retried the slot is exactly what it was
  before; after any other outcome it is empty, so the capability is spent.
\<close>

theorem broadcast_retains_or_consumes:
  "case broadcast_prepared_transaction up H W preparation_id hash_text s of
     (Inl e, s') \<Rightarrow> prepared s' = prepared s
   | (Inr (OutRetryable failure), s') \<Rightarrow> prepared s' = prepared s
   | (Inr out, s') \<Rightarrow> prepared s' = (prepared s)\<lparr> state := Empty \<rparr>"
  unfolding broadcast_refines_spec
  by (auto simp: broadcast_spec_def empty_slot_def Let_def
      split: sum.splits prod.splits submit_error_class.splits)

text \<open>
  Broadcast outcomes and error codes agree.  A failure reported as
  retryable has a network or offline code, and one reported as rejected has
  the code of a remote rejection.
\<close>

theorem broadcast_outcome_codes:
  "case fst (broadcast_prepared_transaction up H W preparation_id hash_text s) of
     Inr (OutRetryable failure) \<Rightarrow> ne_code failure \<in> {Network, Offline}
   | Inr (OutRejected failure) \<Rightarrow> ne_code failure = RemoteRejected
   | _ \<Rightarrow> True"
proof -
  have offline: "ne_code (from_wallet_error up WNotOnlineMode) = Offline"
    by (simp add: from_wallet_error_code classify_wallet_error.simps wallet_error_class_def
        typed_classification_def)
  show ?thesis
    unfolding broadcast_refines_spec
    using offline submit_class_code
    by (auto simp: broadcast_spec_def Let_def from_wallet_error_code
        split: sum.splits prod.splits submit_error_class.splits)
qed

text \<open>
  C6: a prepared capability stands for what was reviewed.  When transfers are
  prepared, the slot holds, under the returned generation and hash, the
  transaction the upstream wallet created for exactly the requested transfers
  with the fee of the policy; the projection shows those transfers; and
  inspecting transfer \<open>j\<close> with the returned capability gives the extra data
  that transfer carries.
\<close>

theorem prepared_transfers_are_reviewed:
  assumes "prepare_transfers_transaction up H A W ts policy s = (Ok np, s')"
    and "\<And>h. from_hex H (to_hex H h) = Ok h"
  shows "\<exists>bs ps review tx st. np_transaction np = KindTransfers ps \<and>
    length bs = length ts \<and> length ps = length ts \<and>
    estimate_target_fee up W (TransfersType bs) policy (world s) = Ok (np_fee np) \<and>
    create_transaction W (TransfersType bs) (Some (np_fee np)) (world s) = (Ok (tx, st), world s') \<and>
    tx_fee W tx = np_fee np \<and> np_hash np = to_hex H (tx_hash W tx) \<and>
    state (prepared s') = Ready (np_preparation_id np) (tx_hash W tx)
      \<lparr> pw_transaction = tx, pw_state = st, pw_review_extra_data = review \<rparr> \<and>
    (\<forall>j < length ts. faithful_review H A (bs ! j) (ps ! j) (review ! j) \<and>
      (j < 2 ^ 32 \<longrightarrow> inspect_prepared_transfer_extra_data H (np_preparation_id np) (np_hash np)
         (word_of_nat j) s' =
       ok_or (review ! j) (xelis_wallet_flutter_error NotFound
         ''PREPARED_TRANSFER_EXTRA_DATA_NOT_FOUND''
         ''The selected prepared transfer does not contain extra data'')))"
proof -
  obtain ty kind review tx st where plan: "transfers_plan up H A W ts policy (world s) =
      Ok (ty, kind, review, np_fee np)"
    and made: "create_transaction W ty (Some (np_fee np)) (world s) = (Ok (tx, st), world s')"
      "np_hash np = to_hex H (tx_hash W tx)" "tx_fee W tx = np_fee np" "np_transaction np = kind"
    and slot: "state (prepared s') = Ready (np_preparation_id np) (tx_hash W tx)
       \<lparr> pw_transaction = tx, pw_state = st, pw_review_extra_data = review \<rparr>"
      "active_preparation (prepared s') = None"
    using assms(1) unfolding prepare_transfers_transaction_def by (rule run_preparation_Ok)
  obtain bs ps where built: "ty = TransfersType bs" "kind = KindTransfers ps"
    and loop: "atomic_transfers_loop H A 0 ts = Ok (bs, ps, review)"
    using plan by (auto simp: transfers_plan_Ok build_atomic_transfers_def result_simps
        split: if_splits)
  have ready: "ready_exact (np_preparation_id np) (tx_hash W tx) (prepared s') =
      Ok \<lparr> pw_transaction = tx, pw_state = st, pw_review_extra_data = review \<rparr>"
    using slot by (simp add: ready_exact_Ok)
  have inspect: "inspect_prepared_transfer_extra_data H (np_preparation_id np) (np_hash np)
      (word_of_nat j) s' =
     ok_or (review ! j) (xelis_wallet_flutter_error NotFound
       ''PREPARED_TRANSFER_EXTRA_DATA_NOT_FOUND''
       ''The selected prepared transfer does not contain extra data'')"
    if "j < length review" "j < 2 ^ 32" for j
  proof -
    have "unat (word_of_nat j :: u32) = j"
      using that(2) by (simp add: unat_of_nat)
    then show ?thesis
      using that(1) ready made(2) assms(2)
      by (simp add: inspect_prepared_transfer_extra_data_def review_extra_data_def transfer_count_def)
  qed
  from atomic_transfers_loop_Ok [OF loop] show ?thesis
    using plan made slot built inspect by (auto simp: transfers_plan_Ok)
qed

theorem prepared_transfers_are_reviewed_witness:
  "\<exists>b x. faithful_review demo_hash_api demo_address_api b \<lparr> pt_amount = 5, pt_destination = ''mn'',
     pt_asset = ''1'', pt_has_extra_data = True, pt_encrypt_extra_data = True \<rparr> x"
proof -
  have hex: "from_hex demo_hash_api (to_hex demo_hash_api h) = Ok h" for h
    by (simp add: demo_hash_api_def)
  obtain s' where run: "prepare_transfers_transaction demo_upstream_text demo_hash_api
      demo_address_api demo_wallet_api [\<lparr> rq_amount = 5, rq_destination = ''mi'', rq_asset = ''1'',
       rq_extra_data = None, rq_encrypt_extra_data = True \<rparr>] (Tip 1)
      \<lparr> prepared = default_prepared_store, world = () \<rparr> =
     (Ok \<lparr> np_hash = ''1'', np_preparation_id = 1, np_fee = 21,
         np_transaction = KindTransfers [\<lparr> pt_amount = 5, pt_destination = ''mn'', pt_asset = ''1'',
           pt_has_extra_data = True, pt_encrypt_extra_data = True \<rparr>] \<rparr>, s')"
    using demo_prepare_transfers by blast
  from prepared_transfers_are_reviewed [OF run hex] show ?thesis
    by auto
qed

text \<open>
  C7: a failed preparation changes nothing a user can see.  Whatever made it
  fail, the slot still holds what it held before, and the preparation in
  progress is the one there was before the call, if any: the failed call
  leaves none of its own behind.
\<close>

theorem failed_preparation_keeps_slot:
  "(case prepare_transfers_transaction up H A W ts policy s of
      (Inl e, s') \<Rightarrow> state (prepared s') = state (prepared s) \<and>
        active_preparation (prepared s') = active_preparation (prepared s)
    | _ \<Rightarrow> True) \<and>
   (case prepare_transfer_all_transaction up H A W dest asset extra encrypt policy s of
      (Inl e, s') \<Rightarrow> state (prepared s') = state (prepared s) \<and>
        active_preparation (prepared s') = active_preparation (prepared s)
    | _ \<Rightarrow> True) \<and>
   (case prepare_burn_transaction up H W amount asset policy s of
      (Inl e, s') \<Rightarrow> state (prepared s') = state (prepared s) \<and>
        active_preparation (prepared s') = active_preparation (prepared s)
    | _ \<Rightarrow> True) \<and>
   (case prepare_burn_all_transaction up H W asset policy s of
      (Inl e, s') \<Rightarrow> state (prepared s') = state (prepared s) \<and>
        active_preparation (prepared s') = active_preparation (prepared s)
    | _ \<Rightarrow> True)"
  unfolding prepare_transfers_transaction_def prepare_transfer_all_transaction_def
    prepare_burn_transaction_def prepare_burn_all_transaction_def
  using run_preparation_Err [of up H W policy] by (auto split: sum.split)

text \<open>
  C8: transfer-all empties the balance.  The single transfer that is created
  has a positive amount which, with the fee when the asset is the native one,
  adds up to the balance read from storage, and the review shows it.
\<close>

theorem transfer_all_spends_balance:
  assumes "prepare_transfer_all_transaction up H A W dest asset extra encrypt policy s = (Ok np, s')"
  shows "\<exists>a b balance p x r. from_hex H asset = Ok a \<and>
    get_plaintext_balance_for W a (world s) = Ok balance \<and>
    create_transaction W (TransfersType [b]) (Some (np_fee np)) (world s) = (Ok r, world s') \<and>
    tb_asset b = a \<and>
    unat (tb_amount b) + (if a = xelis_asset W then unat (np_fee np) else 0) = unat balance \<and>
    np_transaction np = KindTransfers [p] \<and> faithful_review H A b p x"
proof -
  obtain ty kind review tx st where
    plan: "transfer_all_plan up H A W dest asset extra encrypt policy (world s) =
      Ok (ty, kind, review, np_fee np)"
    and made: "create_transaction W ty (Some (np_fee np)) (world s) = (Ok (tx, st), world s')"
      "np_transaction np = kind"
    using assms unfolding prepare_transfer_all_transaction_def by (rule run_preparation_Ok)
  obtain a d balance amount p x where a: "from_hex H asset = Ok a"
    "get_plaintext_balance_for W a (world s) = Ok balance"
    and amount: "amount_after_fee (xelis_asset W) balance (np_fee np) a
      ''Insufficient balance for fees'' = Ok amount"
    and ty: "ty = TransfersType [build_transfer d amount a extra (Some encrypt)]"
      "kind = KindTransfers [p]"
    and proj: "project_prepared_transfer H A d a amount extra encrypt = Ok (p, x)"
    using plan by (rule transfer_all_plan_Ok)
  have "0 < amount"
    using amount by (simp add: amount_after_fee_Ok word_less_nat_alt)
  from project_prepared_transfer_Ok [OF proj this]
  show ?thesis
    using a amount ty made by (force simp: amount_after_fee_Ok build_transfer_def)
qed

theorem transfer_all_spends_balance_witness:
  "\<exists>b. unat (tb_amount b) + 20 = unat (100 :: u64) \<and> tb_asset (b :: (bool \<times> bool data_element option, bool) transfer_builder) = True"
proof -
  obtain s' k where run: "prepare_transfer_all_transaction demo_upstream_text demo_hash_api
      demo_address_api demo_wallet_api ''mn'' ''1'' None True Automatic
      \<lparr> prepared = default_prepared_store, world = () \<rparr> =
     (Ok \<lparr> np_hash = ''1'', np_preparation_id = 1, np_fee = 20, np_transaction = k \<rparr>, s')"
    using demo_prepare_transfer_all by blast
  from transfer_all_spends_balance [OF run] show ?thesis
    by (auto simp: demo_wallet_api_def demo_hash_api_def)
qed

end
