(* ===== verification/Rust_Text.thy ===== *)
theory Rust_Text
  imports Rust_Prelude
begin

text \<open>
  Text as Rust has it: a \<open>String\<close> is its UTF-8 bytes, so \<open>len()\<close> is the number
  of bytes and \<open>chars().count()\<close> the number of bytes that start a character.
  \<open>trim\<close> removes the characters with the Unicode property White\_Space.
\<close>

section \<open>Model\<close>

abbreviation byte :: "char \<Rightarrow> nat" where "byte c \<equiv> of_char c"

text \<open>The number of bytes of the white-space character a text starts with, 0 when it does not.\<close>

definition ws_len :: "string \<Rightarrow> nat" where
  "ws_len s =
     (case map byte (take 3 s) of
        [] \<Rightarrow> 0
      | a # rest \<Rightarrow>
          if 9 \<le> a \<and> a \<le> 13 \<or> a = 32 then 1
          else case rest of
            [] \<Rightarrow> 0
          | b # rest' \<Rightarrow>
              if a = 0xC2 \<and> (b = 0x85 \<or> b = 0xA0) then 2
              else case rest' of
                [] \<Rightarrow> 0
              | c # _ \<Rightarrow>
                  if a = 0xE1 \<and> b = 0x9A \<and> c = 0x80 \<or>
                     a = 0xE2 \<and> b = 0x80 \<and> (0x80 \<le> c \<and> c \<le> 0x8A \<or> c = 0xA8 \<or> c = 0xA9 \<or> c = 0xAF) \<or>
                     a = 0xE2 \<and> b = 0x81 \<and> c = 0x9F \<or>
                     a = 0xE3 \<and> b = 0x80 \<and> c = 0x80
                  then 3 else 0)"

definition ws_suffix :: "string \<Rightarrow> nat" where
  "ws_suffix s =
     (case filter (\<lambda>n. n \<le> length s \<and> ws_len (drop (length s - n) s) = n) [1, 2, 3] of
        [] \<Rightarrow> 0 | n # _ \<Rightarrow> n)"

function trim_start :: "string \<Rightarrow> string" where
  "trim_start s = (if s = [] \<or> ws_len s = 0 then s else trim_start (drop (ws_len s) s))"
  by pat_completeness auto
termination by (relation "measure length") auto

function trim_end :: "string \<Rightarrow> string" where
  "trim_end s = (if s = [] \<or> ws_suffix s = 0 then s else trim_end (take (length s - ws_suffix s) s))"
  by pat_completeness auto
termination by (relation "measure length") auto

declare trim_start.simps [simp del] trim_end.simps [simp del]

definition trim :: "string \<Rightarrow> string" where
  "trim s = trim_end (trim_start s)"

definition char_count :: "string \<Rightarrow> nat" where
  "char_count s = length (filter (\<lambda>c. \<not> (128 \<le> byte c \<and> byte c < 192)) s)"

definition starts_with :: "string \<Rightarrow> string \<Rightarrow> bool" where
  "starts_with s p \<longleftrightarrow> take (length p) s = p"

definition strip_prefix :: "string \<Rightarrow> string \<Rightarrow> string option" where
  "strip_prefix s p = (if starts_with s p then Some (drop (length p) s) else None)"

section \<open>Lemmas\<close>

lemma ws_len_Nil [simp]: "ws_len [] = 0"
  by (simp add: ws_len_def)

lemma ws_suffix_le: "ws_suffix s \<le> length s"
  by (auto simp: ws_suffix_def)

lemma ws_suffix_Nil [simp]: "ws_suffix [] = 0"
  using ws_suffix_le [of "[]"] by simp

lemma trim_start_fixed: "ws_len (trim_start s) = 0"
proof (induction s rule: trim_start.induct)
  case (1 s)
  then show ?case
    by (cases "s = [] \<or> ws_len s = 0") (auto simp: trim_start.simps [of s])
qed

lemma trim_end_fixed: "ws_suffix (trim_end s) = 0"
proof (induction s rule: trim_end.induct)
  case (1 s)
  then show ?case
    by (cases "s = [] \<or> ws_suffix s = 0") (auto simp: trim_end.simps [of s])
qed

lemma trim_end_prefix: "\<exists>n. trim_end s = take n s"
proof (induction s rule: trim_end.induct)
  case (1 s)
  then show ?case
    by (cases "s = [] \<or> ws_suffix s = 0")
      (auto simp: trim_end.simps [of s] intro: exI [of _ "length s"])
qed

text \<open>A prefix of a text that does not start with white space does not either.\<close>

lemma ws_len_take: "ws_len s = 0 \<Longrightarrow> ws_len (take n s) = 0"
proof -
  assume ws: "ws_len s = 0"
  consider "3 \<le> n" | "n = 0" | "n = 1" | "n = 2" by linarith
  then show ?thesis
  proof cases
    case 1
    then have "take 3 (take n s) = take 3 s"
      by (simp add: min_def)
    then show ?thesis
      using ws by (simp add: ws_len_def)
  next
    case 3
    then show ?thesis
      using ws by (cases s) (auto simp: ws_len_def split: if_splits)
  next
    case 4
    then obtain a b rest where "s = [] \<or> s = [a] \<or> s = a # b # rest"
      by (metis list.exhaust)
    then show ?thesis
      using ws 4 by (auto simp: ws_len_def numeral_2_eq_2 numeral_3_eq_3 split: if_splits)
  qed simp
qed

lemma trim_idem [simp]: "trim (trim s) = trim s"
proof -
  obtain n where n: "trim s = take n (trim_start s)"
    using trim_end_prefix [of "trim_start s"] by (auto simp: trim_def)
  have "ws_len (trim s) = 0"
    unfolding n by (rule ws_len_take [OF trim_start_fixed])
  then have "trim_start (trim s) = trim s"
    by (simp add: trim_start.simps [of "trim s"])
  moreover have "ws_suffix (trim s) = 0"
    by (simp add: trim_def trim_end_fixed)
  then have "trim_end (trim s) = trim s"
    by (simp add: trim_end.simps [of "trim s"])
  ultimately show ?thesis
    by (simp add: trim_def [of "trim s"])
qed

lemma length_trim: "length (trim s) \<le> length s"
proof -
  have "length (trim_start s) \<le> length s"
  proof (induction s rule: trim_start.induct)
    case (1 s)
    then show ?case
      by (cases "s = [] \<or> ws_len s = 0") (auto simp: trim_start.simps [of s])
  qed
  moreover have "length (trim_end t) \<le> length t" for t
    using trim_end_prefix [of t] by (auto simp: min_def)
  ultimately show ?thesis
    by (metis le_trans trim_def)
qed

lemma char_count_le: "char_count s \<le> length s"
  by (simp add: char_count_def)

end
