(* ===== verification/Multisig_Protocol.thy ===== *)
theory Multisig_Protocol
  imports Builders Rust_Text
begin

text \<open>
  The canonical multisig request and signature-share protocol of
  \<open>wallet/multisig/protocol.rs\<close>.  Keys, signatures, proofs, ciphertexts,
  unsigned and finalized transactions, their encodings, and the JSON of the
  envelopes belong to upstream crates: they are type parameters with the
  operations of \<open>protocol_api\<close>.  Encoding failures carry their text.
  Parsing a request draws a random key pair; it is an argument of the parser,
  so two calls have two independent ones.
\<close>

section \<open>Parameters\<close>

record ('h, 'k, 'c) transfer_payload =
  tp_destination :: 'k
  tp_asset :: 'h
  tp_has_extra_data :: bool
  tp_sender_ciphertext :: 'c

datatype ('h, 'k, 'c) transaction_type =
  TxTransfers "('h, 'k, 'c) transfer_payload list"
| TxBurn u64 'h
| TxMultiSig u8 "'k list"
| TxOther

section \<open>Envelopes\<close>

record request_transfer =
  rt_amount :: u64
  rt_asset :: string
  rt_destination :: string
  rt_has_extra_data :: bool
  rt_amount_proof :: string

datatype request_transaction =
  RequestTransfers "request_transfer list"
| RequestBurn string u64
| RequestDeleteMultisig

record request_payload =
  pl_version :: u8
  pl_network :: network
  pl_unsigned_transaction :: string
  pl_transaction :: request_transaction

record request_envelope =
  en_payload :: request_payload
  en_source_signature :: string

record share_envelope =
  sh_version :: u8
  sh_signing_hash :: string
  sh_signer_id :: u8
  sh_signature :: string

record multisig_signature =
  ms_id :: u8
  ms_signature :: string

record 'k multisig_payload =
  mp_threshold :: u8
  mp_participants :: "'k list"

record native_multisig_signing_request =
  sr_request_id :: "u64 option"
  sr_encoded :: string
  sr_signing_hash :: string
  sr_source :: string
  sr_network :: string
  sr_fee :: u64
  sr_fee_limit :: u64
  sr_nonce :: u64
  sr_reference_topoheight :: u64
  sr_threshold :: u8
  sr_participants :: "native_multisig_participant list"
  sr_signer_id :: "u8 option"
  sr_transaction :: native_multisig_signing_transaction

record native_multisig_signature_share =
  ns_encoded :: string
  ns_signing_hash :: string
  ns_signer_id :: u8
  ns_signature :: string

record 'h parsed_signing_request =
  pr_encoded :: string
  pr_signing_hash :: 'h
  pr_source :: string
  pr_network :: network
  pr_fee :: u64
  pr_fee_limit :: u64
  pr_nonce :: u64
  pr_reference_topoheight :: u64
  pr_transaction :: native_multisig_signing_transaction

record ('h, 'k, 'p, 'sig, 'u, 'tx, 'kp, 'c, 'd, 'pf, 'm) protocol_api =
  key_decompress :: "'k \<Rightarrow> ('p, string) result"
  key_address :: "'k \<Rightarrow> bool \<Rightarrow> string"
  sig_from_hex :: "string \<Rightarrow> ('sig, string) result"
  sig_to_hex :: "'sig \<Rightarrow> string"
  sig_verify :: "'sig \<Rightarrow> u8 list \<Rightarrow> 'p \<Rightarrow> bool"
  hash_bytes :: "'h \<Rightarrow> u8 list"
  unsigned_from_hex :: "string \<Rightarrow> ('u, string) result"
  unsigned_to_hex :: "'u \<Rightarrow> string"
  unsigned_size :: "'u \<Rightarrow> nat"
  unsigned_has_multisig :: "'u \<Rightarrow> bool"
  unsigned_source :: "'u \<Rightarrow> 'k"
  unsigned_signing_hash :: "'u \<Rightarrow> 'h"
  unsigned_finalize :: "'kp \<Rightarrow> 'u \<Rightarrow> 'tx"
  ptx_data :: "'tx \<Rightarrow> ('h, 'k, 'c) transaction_type"
  ptx_source :: "'tx \<Rightarrow> 'k"
  ptx_fee :: "'tx \<Rightarrow> u64"
  ptx_fee_limit :: "'tx \<Rightarrow> u64"
  ptx_nonce :: "'tx \<Rightarrow> u64"
  ptx_reference_topoheight :: "'tx \<Rightarrow> u64"
  keypair_sign :: "'kp \<Rightarrow> u8 list \<Rightarrow> 'sig"
  envelope_from_json :: "string \<Rightarrow> (request_envelope, string) result"
  envelope_to_json :: "request_envelope \<Rightarrow> (string, string) result"
  payload_to_vec :: "request_payload \<Rightarrow> (u8 list, string) result"
  share_from_json :: "string \<Rightarrow> (share_envelope, string) result"
  share_to_json :: "share_envelope \<Rightarrow> (string, string) result"
  proof_new :: "'kp \<Rightarrow> u64 \<Rightarrow> 'd \<Rightarrow> 'pf"
  proof_from_hex :: "string \<Rightarrow> ('pf, string) result"
  proof_to_hex :: "'pf \<Rightarrow> string"
  proof_amount :: "'pf \<Rightarrow> u64"
  proof_verify :: "'pf \<Rightarrow> 'p \<Rightarrow> 'd \<Rightarrow> (unit, string) result"
  ciphertext_decompress :: "'c \<Rightarrow> ('d, string) result"
  multisig_is_delete :: "u8 \<Rightarrow> 'k list \<Rightarrow> bool"
  multisig_new :: 'm
  multisig_add :: "'m \<Rightarrow> u8 \<Rightarrow> 'sig \<Rightarrow> bool \<times> 'm"
  network_text :: "network \<Rightarrow> string"
  network_is_mainnet :: "network \<Rightarrow> bool"
  max_transaction_size :: nat
  max_multisig_participants :: nat

section \<open>Constants\<close>

definition MULTISIG_SIGNING_REQUEST_VERSION :: u8 where
  "MULTISIG_SIGNING_REQUEST_VERSION = 1"

definition MULTISIG_SIGNATURE_SHARE_VERSION :: u8 where
  "MULTISIG_SIGNATURE_SHARE_VERSION = 1"

definition MULTISIG_SIGNING_REQUEST_DOMAIN :: "u8 list" where
  "MULTISIG_SIGNING_REQUEST_DOMAIN =
     map (\<lambda>c. word_of_nat (of_char c)) ''xelis:wallet:multisig-signing-request:v1'' @ [0]"

definition MAX_MULTISIG_SIGNING_REQUEST_SIZE where
  "MAX_MULTISIG_SIGNING_REQUEST_SIZE P = max_transaction_size P * 3"

definition MAX_MULTISIG_SIGNATURE_SHARE_SIZE :: nat where
  "MAX_MULTISIG_SIGNATURE_SHARE_SIZE = 1024"

section \<open>Signatures\<close>

text \<open>A failure with a context message, and a check with its message.\<close>

definition with_context :: "string \<Rightarrow> ('a, string) result \<Rightarrow> ('a, anyhow_error) result" where
  "with_context msg r = map_err (\<lambda>e. AnyContext msg (AnyOther e)) r"

definition check :: "bool \<Rightarrow> string \<Rightarrow> (unit, anyhow_error) result" where
  "check b msg = ensure b (AnyOther msg)"

definition validate_multisig_setup where
  "validate_multisig_setup P (threshold :: u8) (participants :: nat) =
     (if participants = 0 then Err (AnyOther ''At least one multisig participant is required'')
      else if participants > max_multisig_participants P
      then Err (AnyOther ''Too many multisig participants'')
      else if threshold = 0 \<or> unat threshold > participants
      then Err (AnyOther ''Invalid multisig threshold'')
      else Ok ())"

definition verify_multisig_signature where
  "verify_multisig_signature P signing_hash configuration signature =
     and_then (ok_or (if unat (ms_id signature) < length (mp_participants configuration)
                      then Some (mp_participants configuration ! unat (ms_id signature)) else None)
         (AnyOther ''The multisig participant id is invalid'')) (\<lambda>participant.
     and_then (with_context ''The multisig participant key is invalid''
         (key_decompress P participant)) (\<lambda>key.
     and_then (with_context ''The multisig signature encoding is invalid''
         (sig_from_hex P (ms_signature signature))) (\<lambda>sig.
     and_then (check (sig_to_hex P sig = ms_signature signature)
         ''The multisig signature encoding is not canonical'') (\<lambda>_.
     if \<not> sig_verify P sig (hash_bytes P signing_hash) key
     then Err (AnyOther ''The multisig signature is invalid for this transaction'')
     else Ok (ms_id signature, sig)))))"

fun add_verified_signatures where
  "add_verified_signatures P signing_hash configuration multisig [] = Ok multisig"
| "add_verified_signatures P signing_hash configuration multisig (s # ss) =
     and_then (verify_multisig_signature P signing_hash configuration s) (\<lambda>(i, sig).
       case multisig_add P multisig i sig of
         (True, multisig') \<Rightarrow> add_verified_signatures P signing_hash configuration multisig' ss
       | (False, _) \<Rightarrow> Err (AnyOther ''A multisig participant was provided more than once''))"

definition build_verified_multisig where
  "build_verified_multisig P signing_hash configuration signatures =
     (if length signatures \<noteq> unat (mp_threshold configuration)
      then Err (AnyOther
        ''The multisig signature count does not match the configured threshold'')
      else add_verified_signatures P signing_hash configuration (multisig_new P) signatures)"

section \<open>Transaction previews\<close>

definition validate_transfer_public_details where
  "validate_transfer_public_details (A :: ('a, 'k, 'h) address_api) P
     (declared :: ('a, 'h) transfer_builder) (actual :: ('h, 'k, 'c) transfer_payload) network =
     and_then (check (address_is_mainnet A (tb_destination declared) = network_is_mainnet P network)
       ''A transfer destination belongs to another network'') (\<lambda>_.
     and_then (check (to_public_key A (tb_destination declared) = tp_destination actual)
       ''A transfer destination does not match the unsigned transaction'') (\<lambda>_.
     and_then (check (tb_asset declared = tp_asset actual)
       ''A transfer asset does not match the unsigned transaction'') (\<lambda>_.
     check ((tb_extra_data declared \<noteq> None \<or>
             fst (extract_data A (tb_destination declared)) \<noteq> None) = tp_has_extra_data actual)
       ''Transfer extra data does not match the unsigned transaction'')))"

definition request_transfer_of where
  "request_transfer_of H A P network keypair = (\<lambda>(declared, actual).
     and_then (validate_transfer_public_details A P declared actual network) (\<lambda>_.
     and_then (with_context ''The transfer sender ciphertext is invalid''
       (ciphertext_decompress P (tp_sender_ciphertext actual))) (\<lambda>ciphertext.
     Ok \<lparr> rt_amount = tb_amount declared, rt_asset = to_hex H (tp_asset actual),
          rt_destination = key_address P (tp_destination actual) (network_is_mainnet P network),
          rt_has_extra_data = tp_has_extra_data actual,
          rt_amount_proof = proof_to_hex P (proof_new P keypair (tb_amount declared) ciphertext) \<rparr>)))"

definition type_mismatch :: "('a, anyhow_error) result" where
  "type_mismatch = Err (AnyOther
     ''The declared transaction type does not match the unsigned transaction'')"

definition build_signing_request_transaction where
  "build_signing_request_transaction H (A :: ('a, 'k, 'h) address_api) P declared actual network keypair =
     (case (declared, actual) of
        (TransfersType ds, TxTransfers xs) \<Rightarrow>
          and_then (check (length ds = length xs)
            ''The transfer count does not match the unsigned transaction'') (\<lambda>_.
          map_ok RequestTransfers
            (collect_results (request_transfer_of H A P network keypair) (zip ds xs)))
      | (BurnType amount asset, TxBurn amount' asset') \<Rightarrow>
          and_then (check (asset = asset' \<and> amount = amount')
            ''The burn details do not match the unsigned transaction'') (\<lambda>_.
          Ok (RequestBurn (to_hex H asset') amount'))
      | (MultiSigType participants threshold, TxMultiSig threshold' participants') \<Rightarrow>
          and_then (check (threshold = threshold')
            ''The multisig threshold does not match the unsigned transaction'') (\<lambda>_.
          and_then (check (length participants = length participants' \<and>
              list_all (\<lambda>(d, x). to_public_key A d = x) (zip participants participants'))
            ''The multisig participants do not match the unsigned transaction'') (\<lambda>_.
          and_then (check (multisig_is_delete P threshold' participants')
            ''Only multisig deletion requests are supported'') (\<lambda>_.
          Ok RequestDeleteMultisig)))
      | _ \<Rightarrow> type_mismatch)"

definition preview_transfer where
  "preview_transfer H P network source = (\<lambda>(declared, actual).
     and_then (check (rt_destination declared =
         key_address P (tp_destination actual) (network_is_mainnet P network))
       ''A transfer destination does not match the unsigned transaction'') (\<lambda>_.
     and_then (check (rt_asset declared = to_hex H (tp_asset actual))
       ''A transfer asset does not match the unsigned transaction'') (\<lambda>_.
     and_then (check (rt_has_extra_data declared = tp_has_extra_data actual)
       ''Transfer extra data does not match the unsigned transaction'') (\<lambda>_.
     and_then (with_context ''The transfer amount proof is invalid''
       (proof_from_hex P (rt_amount_proof declared))) (\<lambda>amount_proof.
     and_then (check (proof_to_hex P amount_proof = rt_amount_proof declared)
       ''The transfer amount proof encoding is not canonical'') (\<lambda>_.
     and_then (check (proof_amount P amount_proof = rt_amount declared)
       ''The transfer amount does not match its proof'') (\<lambda>_.
     and_then (with_context ''The transfer sender ciphertext is invalid''
       (ciphertext_decompress P (tp_sender_ciphertext actual))) (\<lambda>ciphertext.
     and_then (with_context ''The transfer amount proof does not match the unsigned transaction''
       (proof_verify P amount_proof source ciphertext)) (\<lambda>_.
     Ok \<lparr> st_amount = rt_amount declared, st_asset = rt_asset declared,
          st_destination = rt_destination declared,
          st_has_extra_data = rt_has_extra_data declared \<rparr>)))))))))"

definition validate_and_build_transaction_preview where
  "validate_and_build_transaction_preview H P declared actual network source =
     (case (declared, actual) of
        (RequestTransfers ds, TxTransfers xs) \<Rightarrow>
          and_then (check (length ds = length xs)
            ''The transfer count does not match the unsigned transaction'') (\<lambda>_.
          map_ok SigningTransfers (collect_results (preview_transfer H P network source) (zip ds xs)))
      | (RequestBurn asset amount, TxBurn amount' asset') \<Rightarrow>
          and_then (check (asset = to_hex H asset' \<and> amount = amount')
            ''The burn details do not match the unsigned transaction'') (\<lambda>_.
          Ok (SigningBurn (to_hex H asset') amount'))
      | (RequestDeleteMultisig, TxMultiSig threshold participants) \<Rightarrow>
          and_then (check (multisig_is_delete P threshold participants)
            ''Only multisig deletion requests are supported'') (\<lambda>_.
          Ok SigningDeleteMultisig)
      | _ \<Rightarrow> type_mismatch)"

section \<open>Requests and shares\<close>

definition multisig_request_signing_bytes where
  "multisig_request_signing_bytes P payload =
     map_ok (\<lambda>bytes. MULTISIG_SIGNING_REQUEST_DOMAIN @ bytes)
       (with_context ''Unable to encode the multisig signing request payload''
         (payload_to_vec P payload))"

definition parse_multisig_signing_request where
  "parse_multisig_signing_request H P fresh encoded expected_network =
     and_then (check (length encoded \<le> MAX_MULTISIG_SIGNING_REQUEST_SIZE P)
       ''The multisig signing request is too large'') (\<lambda>_.
     and_then (with_context ''Invalid multisig signing request''
       (envelope_from_json P (trim encoded))) (\<lambda>envelope.
     and_then (check (pl_version (en_payload envelope) = MULTISIG_SIGNING_REQUEST_VERSION)
       ''Unsupported multisig signing request version'') (\<lambda>_.
     and_then (check (pl_network (en_payload envelope) = expected_network)
       ''The multisig signing request belongs to another network'') (\<lambda>_.
     and_then (with_context ''Invalid unsigned transaction in multisig signing request''
       (unsigned_from_hex P (pl_unsigned_transaction (en_payload envelope)))) (\<lambda>unsigned.
     and_then (check (unsigned_size P unsigned \<le> max_transaction_size P)
       ''The unsigned transaction is too large'') (\<lambda>_.
     and_then (check (unsigned_to_hex P unsigned = pl_unsigned_transaction (en_payload envelope))
       ''The unsigned transaction encoding is not canonical'') (\<lambda>_.
     and_then (check (\<not> unsigned_has_multisig P unsigned)
       ''The multisig signing request already contains signatures'') (\<lambda>_.
     and_then (with_context ''Invalid multisig signing request attestation''
       (sig_from_hex P (en_source_signature envelope))) (\<lambda>source_signature.
     and_then (check (sig_to_hex P source_signature = en_source_signature envelope)
       ''The multisig signing request attestation encoding is not canonical'') (\<lambda>_.
     and_then (with_context ''Invalid multisig signing request source''
       (key_decompress P (unsigned_source P unsigned))) (\<lambda>source.
     and_then (multisig_request_signing_bytes P (en_payload envelope)) (\<lambda>bytes.
     and_then (check (sig_verify P source_signature bytes source)
       ''The multisig signing request attestation is invalid'') (\<lambda>_.
     and_then (with_context ''Unable to normalize the multisig signing request''
       (envelope_to_json P envelope)) (\<lambda>canonical_encoded.
     and_then (check (canonical_encoded = trim encoded)
       ''The multisig signing request encoding is not canonical'') (\<lambda>_.
     let transaction = unsigned_finalize P fresh unsigned in
     and_then (validate_and_build_transaction_preview H P (pl_transaction (en_payload envelope))
       (ptx_data P transaction) expected_network source) (\<lambda>preview.
     Ok \<lparr> pr_encoded = canonical_encoded, pr_signing_hash = unsigned_signing_hash P unsigned,
          pr_source = key_address P (ptx_source P transaction) (network_is_mainnet P expected_network),
          pr_network = expected_network, pr_fee = ptx_fee P transaction,
          pr_fee_limit = ptx_fee_limit P transaction, pr_nonce = ptx_nonce P transaction,
          pr_reference_topoheight = ptx_reference_topoheight P transaction,
          pr_transaction = preview \<rparr>))))))))))))))))"

definition into_request where
  "into_request H P parsed request_id threshold participants signer_id =
     \<lparr> sr_request_id = request_id, sr_encoded = pr_encoded parsed,
       sr_signing_hash = to_hex H (pr_signing_hash parsed), sr_source = pr_source parsed,
       sr_network = network_text P (pr_network parsed), sr_fee = pr_fee parsed,
       sr_fee_limit = pr_fee_limit parsed, sr_nonce = pr_nonce parsed,
       sr_reference_topoheight = pr_reference_topoheight parsed, sr_threshold = threshold,
       sr_participants = participants, sr_signer_id = signer_id,
       sr_transaction = pr_transaction parsed \<rparr>"

text \<open>Participants numbered in order, the index cut to a byte.\<close>

definition number_participants :: "string list \<Rightarrow> native_multisig_participant list" where
  "number_participants addresses =
     map (\<lambda>(i, a). \<lparr> mp_id = word_of_nat i, mp_address = a \<rparr>)
       (zip [0..<length addresses] addresses)"

definition create_multisig_signing_request where
  "create_multisig_signing_request H (A :: ('a, 'k, 'h) address_api) P fresh unsigned_tx ty configuration
     network keypair =
     and_then (build_signing_request_transaction H A P ty
       (ptx_data P (unsigned_finalize P keypair unsigned_tx)) network keypair) (\<lambda>transaction.
     let payload = \<lparr> pl_version = MULTISIG_SIGNING_REQUEST_VERSION, pl_network = network,
           pl_unsigned_transaction = unsigned_to_hex P unsigned_tx, pl_transaction = transaction \<rparr> in
     and_then (multisig_request_signing_bytes P payload) (\<lambda>bytes.
     let envelope = \<lparr> en_payload = payload,
           en_source_signature = sig_to_hex P (keypair_sign P keypair bytes) \<rparr> in
     and_then (with_context ''Unable to encode the multisig signing request''
       (envelope_to_json P envelope)) (\<lambda>encoded.
     and_then (parse_multisig_signing_request H P fresh encoded network) (\<lambda>parsed.
     Ok (into_request H P parsed None (mp_threshold configuration)
       (number_participants (map (\<lambda>k. key_address P k (network_is_mainnet P network))
          (mp_participants configuration))) None)))))"

definition create_multisig_signature_share where
  "create_multisig_signature_share H P signing_hash signer_id signature =
     (let envelope = \<lparr> sh_version = MULTISIG_SIGNATURE_SHARE_VERSION,
           sh_signing_hash = to_hex H signing_hash, sh_signer_id = signer_id,
           sh_signature = sig_to_hex P signature \<rparr> in
      and_then (with_context ''Unable to encode the multisig signature share''
        (share_to_json P envelope)) (\<lambda>encoded.
      Ok \<lparr> ns_encoded = encoded, ns_signing_hash = sh_signing_hash envelope,
           ns_signer_id = signer_id, ns_signature = sh_signature envelope \<rparr>))"

definition parse_multisig_signature_share where
  "parse_multisig_signature_share H P encoded expected_signing_hash =
     and_then (check (length encoded \<le> MAX_MULTISIG_SIGNATURE_SHARE_SIZE)
       ''The multisig signature share is too large'') (\<lambda>_.
     and_then (with_context ''Invalid multisig signature share''
       (share_from_json P (trim encoded))) (\<lambda>envelope.
     and_then (check (sh_version envelope = MULTISIG_SIGNATURE_SHARE_VERSION)
       ''Unsupported multisig signature share version'') (\<lambda>_.
     and_then (check (sh_signing_hash envelope = to_hex H expected_signing_hash)
       ''The signature share belongs to another multisig request'') (\<lambda>_.
     and_then (with_context ''Unable to normalize the multisig signature share''
       (share_to_json P envelope)) (\<lambda>canonical.
     and_then (check (canonical = trim encoded)
       ''The multisig signature share encoding is not canonical'') (\<lambda>_.
     and_then (with_context ''Invalid signature share encoding''
       (sig_from_hex P (sh_signature envelope))) (\<lambda>signature.
     and_then (check (sig_to_hex P signature = sh_signature envelope)
       ''The signature share encoding is not canonical'') (\<lambda>_.
     Ok \<lparr> ms_id = sh_signer_id envelope, ms_signature = sh_signature envelope \<rparr>))))))))"

section \<open>Specification\<close>

text \<open>
  The upstream signature collection: adding a signature succeeds exactly when
  its participant is new, and then the participant is in the collection.
\<close>

definition multisig_collection ::
  "('h, 'k, 'p, 'sig, 'u, 'tx, 'kp, 'c, 'd, 'pf, 'm) protocol_api \<Rightarrow> ('m \<Rightarrow> (u8 \<times> 'sig) list) \<Rightarrow> bool"
where
  "multisig_collection P entries \<longleftrightarrow>
     entries (multisig_new P) = [] \<and>
     (\<forall>m i sig. (fst (multisig_add P m i sig) \<longleftrightarrow> i \<notin> fst ` set (entries m)) \<and>
        (i \<notin> fst ` set (entries m) \<longrightarrow>
           entries (snd (multisig_add P m i sig)) = entries m @ [(i, sig)]))"

text \<open>A signature of a participant over the signing hash.\<close>

definition valid_signature_of where
  "valid_signature_of P signing_hash configuration = (\<lambda>(i, sig).
     unat i < length (mp_participants configuration) \<and>
     (\<exists>key. key_decompress P (mp_participants configuration ! unat i) = Ok key \<and>
        sig_verify P sig (hash_bytes P signing_hash) key))"

text \<open>A preview entry that the unsigned transaction backs, amount proof included.\<close>

definition backed_transfer where
  "backed_transfer H P network source shown actual \<longleftrightarrow>
     st_destination shown = key_address P (tp_destination actual) (network_is_mainnet P network) \<and>
     st_asset shown = to_hex H (tp_asset actual) \<and>
     st_has_extra_data shown = tp_has_extra_data actual \<and>
     (\<exists>pf ct. proof_amount P pf = st_amount shown \<and>
        ciphertext_decompress P (tp_sender_ciphertext actual) = Ok ct \<and>
        proof_verify P pf source ct = Ok ())"

definition backed_preview where
  "backed_preview H P network source shown actual =
     (case (shown, actual) of
        (SigningTransfers ss, TxTransfers xs) \<Rightarrow> list_all2 (backed_transfer H P network source) ss xs
      | (SigningBurn asset amount, TxBurn amount' asset') \<Rightarrow>
          asset = to_hex H asset' \<and> amount = amount'
      | (SigningDeleteMultisig, TxMultiSig threshold participants) \<Rightarrow>
          multisig_is_delete P threshold participants
      | _ \<Rightarrow> False)"

text \<open>
  What creating a request relies on: JSON and hexadecimal text decode to what
  was encoded, the JSON has no white space around it, and the public values of
  a finalized transaction do not depend on the key that finalized it.
\<close>

definition public_values where
  "public_values P tx = (ptx_fee P tx, ptx_fee_limit P tx, ptx_nonce P tx, ptx_reference_topoheight P tx)"

definition request_codec_laws where
  "request_codec_laws P \<longleftrightarrow>
     (\<forall>e t. envelope_to_json P e = Ok t \<longrightarrow> envelope_from_json P t = Ok e \<and> trim t = t) \<and>
     (\<forall>u. unsigned_from_hex P (unsigned_to_hex P u) = Ok u) \<and>
     (\<forall>k k' u. ptx_data P (unsigned_finalize P k u) = ptx_data P (unsigned_finalize P k' u) \<and>
        ptx_source P (unsigned_finalize P k u) = ptx_source P (unsigned_finalize P k' u) \<and>
        public_values P (unsigned_finalize P k u) = public_values P (unsigned_finalize P k' u))"

text \<open>A preview that shows what was declared to the builder.\<close>

definition declares where
  "declares H (A :: ('a, 'k, 'h) address_api) P network (ty :: ('a, 'h) transaction_type_builder) shown =
     (case (ty, shown) of
        (TransfersType ds, SigningTransfers ss) \<Rightarrow>
          list_all2 (\<lambda>d s. st_amount s = tb_amount d \<and> st_asset s = to_hex H (tb_asset d) \<and>
            st_destination s = key_address P (to_public_key A (tb_destination d)) (network_is_mainnet P network) \<and>
            st_has_extra_data s = (tb_extra_data d \<noteq> None \<or> fst (extract_data A (tb_destination d)) \<noteq> None)) ds ss
      | (BurnType amount asset, SigningBurn asset' amount') \<Rightarrow> asset' = to_hex H asset \<and> amount' = amount
      | (MultiSigType participants threshold, SigningDeleteMultisig) \<Rightarrow>
          multisig_is_delete P threshold (map (to_public_key A) participants)
      | _ \<Rightarrow> False)"

section \<open>Lemmas\<close>

lemma check_Ok [simp]: "check b msg = Ok u \<longleftrightarrow> b"
  by (simp add: check_def ensure_def)

lemma with_context_Ok [simp]: "with_context msg r = Ok x \<longleftrightarrow> r = Ok x"
  by (simp add: with_context_def result_simps)

lemma verify_multisig_signature_Ok:
  assumes "verify_multisig_signature P h conf s = Ok (i, sig)"
  shows "i = ms_id s" "valid_signature_of P h conf (i, sig)" "sig_to_hex P sig = ms_signature s"
  using assms
  by (auto simp: verify_multisig_signature_def valid_signature_of_def result_simps split: if_splits)

lemma add_verified_signatures_Ok:
  assumes "multisig_collection P entries" "distinct (map fst (entries m0))"
    and "add_verified_signatures P h conf m0 sigs = Ok m"
  shows "\<exists>es. entries m = entries m0 @ es \<and> map fst es = map ms_id sigs \<and>
    distinct (map fst (entries m)) \<and> list_all (valid_signature_of P h conf) es"
  using assms(2,3)
proof (induction sigs arbitrary: m0)
  case (Cons s sigs)
  obtain i sig where ver: "verify_multisig_signature P h conf s = Ok (i, sig)"
    and rest: "(case multisig_add P m0 i sig of
         (True, m') \<Rightarrow> add_verified_signatures P h conf m' sigs
       | (False, _) \<Rightarrow> Err (AnyOther ''A multisig participant was provided more than once'')) = Ok m"
    using Cons.prems(2) by (auto simp: result_simps)
  let ?m' = "snd (multisig_add P m0 i sig)"
  have added: "fst (multisig_add P m0 i sig)"
    and loop: "add_verified_signatures P h conf ?m' sigs = Ok m"
    using rest by (auto split: prod.splits bool.splits)
  have new: "i \<notin> fst ` set (entries m0)"
    using assms(1) added by (simp add: multisig_collection_def)
  then have entries: "entries ?m' = entries m0 @ [(i, sig)]"
    using assms(1) by (simp add: multisig_collection_def)
  then have "distinct (map fst (entries ?m'))"
    using Cons.prems(1) new by simp
  from Cons.IH [OF this loop] obtain es where "entries m = entries ?m' @ es"
    "map fst es = map ms_id sigs" "distinct (map fst (entries m))"
    "list_all (valid_signature_of P h conf) es" by blast
  then show ?case
    using entries verify_multisig_signature_Ok [OF ver] by (intro exI [of _ "(i, sig) # es"]) simp
qed auto

lemma build_verified_multisig_Ok:
  assumes "multisig_collection P entries"
    and "build_verified_multisig P signing_hash configuration signatures = Ok multisig"
  shows "length (entries multisig) = unat (mp_threshold configuration) \<and>
    distinct (map fst (entries multisig)) \<and>
    (\<forall>e \<in> set (entries multisig). valid_signature_of P signing_hash configuration e)"
proof -
  have empty: "entries (multisig_new P) = []"
    using assms(1) by (simp add: multisig_collection_def)
  have count: "length signatures = unat (mp_threshold configuration)"
    and loop: "add_verified_signatures P signing_hash configuration (multisig_new P) signatures =
      Ok multisig"
    using assms(2) by (auto simp: build_verified_multisig_def split: if_splits)
  obtain es where "entries multisig = es" "map fst es = map ms_id signatures"
    "distinct (map fst (entries multisig))" "list_all (valid_signature_of P signing_hash configuration) es"
    using add_verified_signatures_Ok [OF assms(1) _ loop] empty by auto
  then show ?thesis
    using count by (auto simp: list_all_iff dest: map_eq_imp_length_eq)
qed

lemma preview_transfer_Ok:
  "preview_transfer H P network source (d, x) = Ok shown \<Longrightarrow> backed_transfer H P network source shown x"
  by (auto simp: preview_transfer_def backed_transfer_def result_simps)

lemma preview_Ok:
  assumes "validate_and_build_transaction_preview H P declared actual network source = Ok shown"
  shows "backed_preview H P network source shown actual"
proof -
  have "list_all2 (backed_transfer H P network source) ss xs"
    if "collect_results (preview_transfer H P network source) (zip ds xs) = Ok ss"
      "length ds = length xs" for ds xs ss
    using that by (auto simp: result_simps list_all2_conv_all_nth preview_transfer_Ok)
  then show ?thesis
    using assms
    by (auto simp: validate_and_build_transaction_preview_def backed_preview_def type_mismatch_def
        result_simps split: request_transaction.splits transaction_type.splits)
qed

lemma parse_request_trim:
  assumes "parse_multisig_signing_request H P fresh encoded network = Ok parsed"
  shows "pr_encoded parsed = trim encoded"
    and "parse_multisig_signing_request H P fresh (trim encoded) network = Ok parsed"
proof -
  show "pr_encoded parsed = trim encoded"
    using assms by (auto simp: parse_multisig_signing_request_def result_simps Let_def)
  have "length encoded \<le> MAX_MULTISIG_SIGNING_REQUEST_SIZE P"
    using assms by (auto simp: parse_multisig_signing_request_def result_simps)
  moreover from this have "length (trim encoded) \<le> MAX_MULTISIG_SIGNING_REQUEST_SIZE P"
    using length_trim le_trans by blast
  ultimately have "check (length encoded \<le> MAX_MULTISIG_SIGNING_REQUEST_SIZE P) msg = Ok ()"
    "check (length (trim encoded) \<le> MAX_MULTISIG_SIGNING_REQUEST_SIZE P) msg = Ok ()" for msg
    by simp_all
  then show "parse_multisig_signing_request H P fresh (trim encoded) network = Ok parsed"
    using assms by (simp only: parse_multisig_signing_request_def trim_idem and_then.simps)
qed

lemma finalized_data:
  "request_codec_laws P \<Longrightarrow> ptx_data P (unsigned_finalize P k u) = ptx_data P (unsigned_finalize P k' u)"
  by (simp add: request_codec_laws_def)

lemma finalized_values:
  assumes "request_codec_laws P"
  shows "ptx_source P (unsigned_finalize P k u) = ptx_source P (unsigned_finalize P k' u)"
    "ptx_fee P (unsigned_finalize P k u) = ptx_fee P (unsigned_finalize P k' u)"
    "ptx_fee_limit P (unsigned_finalize P k u) = ptx_fee_limit P (unsigned_finalize P k' u)"
    "ptx_nonce P (unsigned_finalize P k u) = ptx_nonce P (unsigned_finalize P k' u)"
    "ptx_reference_topoheight P (unsigned_finalize P k u) = ptx_reference_topoheight P (unsigned_finalize P k' u)"
  using assms unfolding request_codec_laws_def public_values_def by blast+

text \<open>The random key of the parser does not show.\<close>

lemma parse_fresh:
  assumes "request_codec_laws P"
  shows "parse_multisig_signing_request H P k = parse_multisig_signing_request H P k'"
  by (intro ext)
    (simp only: parse_multisig_signing_request_def Let_def finalized_data [OF assms, of k _ k'] finalized_values [OF assms, of k _ k'])

lemma created_fields:
  assumes "request_codec_laws P" "envelope_to_json P envelope = Ok encoded"
    and "parse_multisig_signing_request H P fresh encoded network = Ok parsed"
    and "pl_unsigned_transaction (en_payload envelope) = unsigned_to_hex P u"
  shows "\<exists>source. validate_and_build_transaction_preview H P (pl_transaction (en_payload envelope))
      (ptx_data P (unsigned_finalize P fresh u)) network source = Ok (pr_transaction parsed) \<and>
    pr_signing_hash parsed = unsigned_signing_hash P u \<and>
    pr_source parsed = key_address P (ptx_source P (unsigned_finalize P fresh u)) (network_is_mainnet P network) \<and>
    public_values P (unsigned_finalize P fresh u) =
      (pr_fee parsed, pr_fee_limit parsed, pr_nonce parsed, pr_reference_topoheight parsed)"
proof -
  have "envelope_from_json P (trim encoded) = Ok envelope" "unsigned_from_hex P (unsigned_to_hex P u) = Ok u"
    using assms(1,2) by (simp_all add: request_codec_laws_def)
  then show ?thesis
    using assms(3,4)
    by (auto simp: parse_multisig_signing_request_def result_simps Let_def public_values_def)
qed

lemma declared_transfer:
  assumes "request_transfer_of H A P network keypair (d, x) = Ok r" "preview_transfer H P network source (r, x) = Ok s"
  shows "st_amount s = tb_amount d \<and> st_asset s = to_hex H (tb_asset d) \<and>
    st_destination s = key_address P (to_public_key A (tb_destination d)) (network_is_mainnet P network) \<and>
    st_has_extra_data s = (tb_extra_data d \<noteq> None \<or> fst (extract_data A (tb_destination d)) \<noteq> None)"
  using assms
  by (auto simp: request_transfer_of_def preview_transfer_def validate_transfer_public_details_def result_simps)

lemma declared_preview:
  assumes "build_signing_request_transaction H A P ty data network keypair = Ok transaction"
    and "validate_and_build_transaction_preview H P transaction data' network source = Ok shown" and "data' = data"
  shows "declares H A P network ty shown"
proof (cases ty)
  case (TransfersType ds)
  then obtain xs rs ss where xs: "data = TxTransfers xs" "length ds = length xs" "transaction = RequestTransfers rs"
    "collect_results (request_transfer_of H A P network keypair) (zip ds xs) = Ok rs"
    "shown = SigningTransfers ss" "length rs = length xs"
    "collect_results (preview_transfer H P network source) (zip rs xs) = Ok ss"
    using assms
    by (auto simp: build_signing_request_transaction_def validate_and_build_transaction_preview_def type_mismatch_def
        result_simps split: transaction_type.splits)
  then have "list_all2 (\<lambda>d s. st_amount s = tb_amount d \<and> st_asset s = to_hex H (tb_asset d) \<and>
      st_destination s = key_address P (to_public_key A (tb_destination d)) (network_is_mainnet P network) \<and>
      st_has_extra_data s = (tb_extra_data d \<noteq> None \<or> fst (extract_data A (tb_destination d)) \<noteq> None)) ds ss"
    using declared_transfer by (fastforce simp: result_simps list_all2_conv_all_nth)
  then show ?thesis using TransfersType xs by (simp add: declares_def)
next
  case (BurnType amount asset)
  then show ?thesis
    using assms
    by (auto simp: build_signing_request_transaction_def validate_and_build_transaction_preview_def type_mismatch_def
        declares_def result_simps split: transaction_type.splits)
next
  case (MultiSigType participants threshold)
  then obtain ks where ks: "data = TxMultiSig threshold ks" "length participants = length ks"
    "list_all (\<lambda>(d, x). to_public_key A d = x) (zip participants ks)" "multisig_is_delete P threshold ks"
    "transaction = RequestDeleteMultisig"
    using assms(1)
    by (auto simp: build_signing_request_transaction_def type_mismatch_def result_simps split: transaction_type.splits)
  have "ks = map (to_public_key A) participants"
    using ks(2,3) by (simp add: list_eq_iff_nth_eq list_all_length)
  moreover have "shown = SigningDeleteMultisig"
    using assms(2,3) ks by (auto simp: validate_and_build_transaction_preview_def result_simps)
  ultimately show ?thesis using ks(4) MultiSigType by (simp add: declares_def)
qed

section \<open>A concrete instance\<close>

text \<open>Trivial keys and signatures, one burn transaction, and one text per envelope.\<close>

definition demo_envelope :: request_envelope where
  "demo_envelope = \<lparr> en_payload = \<lparr> pl_version = 1, pl_network = Testnet,
     pl_unsigned_transaction = ''u'', pl_transaction = RequestBurn ''1'' 7 \<rparr>,
     en_source_signature = ''s'' \<rparr>"

definition demo_share :: share_envelope where
  "demo_share = \<lparr> sh_version = 1, sh_signing_hash = ''1'', sh_signer_id = 0, sh_signature = ''s'' \<rparr>"

definition demo_protocol_api ::
  "(bool, unit, unit, unit, unit, unit, unit, unit, unit, u64, (u8 \<times> unit) list) protocol_api" where
  "demo_protocol_api =
     \<lparr> key_decompress = (\<lambda>_. Ok ()), key_address = (\<lambda>_ _. ''a''), sig_from_hex = (\<lambda>_. Ok ()),
       sig_to_hex = (\<lambda>_. ''s''), sig_verify = (\<lambda>_ _ _. True), hash_bytes = (\<lambda>_. []),
       unsigned_from_hex = (\<lambda>_. Ok ()), unsigned_to_hex = (\<lambda>_. ''u''), unsigned_size = (\<lambda>_. 1),
       unsigned_has_multisig = (\<lambda>_. False), unsigned_source = (\<lambda>_. ()),
       unsigned_signing_hash = (\<lambda>_. True), unsigned_finalize = (\<lambda>_ _. ()),
       ptx_data = (\<lambda>_. TxBurn 7 True), ptx_source = (\<lambda>_. ()), ptx_fee = (\<lambda>_. 3),
       ptx_fee_limit = (\<lambda>_. 3), ptx_nonce = (\<lambda>_. 0), ptx_reference_topoheight = (\<lambda>_. 0),
       keypair_sign = (\<lambda>_ _. ()),
       envelope_from_json = (\<lambda>_. Ok demo_envelope), envelope_to_json = (\<lambda>e. if e = demo_envelope then Ok ''env'' else Err ''json''),
       payload_to_vec = (\<lambda>_. Ok []), share_from_json = (\<lambda>_. Ok demo_share),
       share_to_json = (\<lambda>e. if e = demo_share then Ok ''share'' else Err ''json''), proof_new = (\<lambda>_ a _. a), proof_from_hex = (\<lambda>_. Ok 0),
       proof_to_hex = (\<lambda>_. []), proof_amount = (\<lambda>a. a), proof_verify = (\<lambda>_ _ _. Ok ()),
       ciphertext_decompress = (\<lambda>_. Ok ()), multisig_is_delete = (\<lambda>t _. t = 0),
       multisig_new = [],
       multisig_add = (\<lambda>m i sig. if i \<in> fst ` set m then (False, m) else (True, m @ [(i, sig)])),
       network_text = (\<lambda>_. ''testnet''), network_is_mainnet = (\<lambda>n. n = Mainnet),
       max_transaction_size = 1000, max_multisig_participants = 16 \<rparr>"

lemma demo_collection: "multisig_collection demo_protocol_api (\<lambda>m. m)"
  by (simp add: multisig_collection_def demo_protocol_api_def)

lemma demo_codec_trim: "trim ''env'' = ''env''"
  by code_simp

lemma demo_codec: "request_codec_laws demo_protocol_api"
  by (simp add: request_codec_laws_def public_values_def demo_protocol_api_def demo_codec_trim)

lemma demo_trim: "trim ''env'' = ''env''" "trim ''share'' = ''share''"
  by code_simp+

lemma demo_parse_request:
  "\<exists>parsed. parse_multisig_signing_request demo_hash_api demo_protocol_api () ''env'' Testnet = Ok parsed"
  by (simp add: parse_multisig_signing_request_def demo_protocol_api_def demo_envelope_def
      MAX_MULTISIG_SIGNING_REQUEST_SIZE_def demo_trim check_def with_context_def
      MULTISIG_SIGNING_REQUEST_VERSION_def multisig_request_signing_bytes_def Let_def
      validate_and_build_transaction_preview_def demo_hash_api_def)

section \<open>Properties\<close>

text \<open>
  C11: the threshold is met by distinct participants.  A collection of
  signatures is accepted only when it holds exactly as many entries as the
  configured threshold, from pairwise different participants, each with a
  signature that verifies for the signing hash under that participant's key.
\<close>

theorem verified_multisig_meets_threshold:
  assumes "multisig_collection P entries"
    and "build_verified_multisig P signing_hash configuration signatures = Ok multisig"
  shows "length (entries multisig) = unat (mp_threshold configuration) \<and>
    distinct (map fst (entries multisig)) \<and>
    (\<forall>e \<in> set (entries multisig). valid_signature_of P signing_hash configuration e)"
  using assms by (rule build_verified_multisig_Ok)

theorem verified_multisig_meets_threshold_witness:
  "length [(0 :: u8, ()), (1, ())] = unat (2 :: u8) \<and>
   distinct (map fst [(0 :: u8, ()), (1, ())])"
proof -
  let ?conf = "\<lparr> mp_threshold = 2, mp_participants = [(), ()] \<rparr>"
  have "build_verified_multisig demo_protocol_api True ?conf
      [\<lparr> ms_id = 0, ms_signature = ''s'' \<rparr>, \<lparr> ms_id = 1, ms_signature = ''s'' \<rparr>] = Ok [(0, ()), (1, ())]"
    by (simp add: build_verified_multisig_def verify_multisig_signature_def demo_protocol_api_def
        check_def with_context_def)
  from verified_multisig_meets_threshold [OF demo_collection this] show ?thesis by simp
qed

text \<open>
  C12: an accepted signing request says what will be signed.  Its text is the
  canonical JSON of an envelope of this version and network; the source key of
  the unsigned transaction signed the domain-separated payload; the
  transaction carries no signatures yet; the hash to sign is that
  transaction's; and the preview is backed by the transaction, the amount of
  every confidential transfer by a proof that verifies.
\<close>

theorem accepted_request_is_sound:
  assumes "parse_multisig_signing_request H P fresh encoded network = Ok parsed"
  shows "\<exists>envelope unsigned sig source bytes.
    envelope_to_json P envelope = Ok (trim encoded) \<and> pr_encoded parsed = trim encoded \<and>
    pl_version (en_payload envelope) = 1 \<and> pl_network (en_payload envelope) = network \<and>
    unsigned_to_hex P unsigned = pl_unsigned_transaction (en_payload envelope) \<and>
    \<not> unsigned_has_multisig P unsigned \<and> unsigned_size P unsigned \<le> max_transaction_size P \<and>
    sig_to_hex P sig = en_source_signature envelope \<and>
    key_decompress P (unsigned_source P unsigned) = Ok source \<and>
    payload_to_vec P (en_payload envelope) = Ok bytes \<and>
    sig_verify P sig (MULTISIG_SIGNING_REQUEST_DOMAIN @ bytes) source \<and>
    pr_signing_hash parsed = unsigned_signing_hash P unsigned \<and>
    backed_preview H P network source (pr_transaction parsed)
      (ptx_data P (unsigned_finalize P fresh unsigned))"
proof -
  obtain envelope u sig source bytes preview where
    "envelope_to_json P envelope = Ok (trim encoded)"
    "pl_version (en_payload envelope) = 1" "pl_network (en_payload envelope) = network"
    "unsigned_to_hex P u = pl_unsigned_transaction (en_payload envelope)"
    "\<not> unsigned_has_multisig P u" "unsigned_size P u \<le> max_transaction_size P"
    "sig_to_hex P sig = en_source_signature envelope"
    "key_decompress P (unsigned_source P u) = Ok source"
    "payload_to_vec P (en_payload envelope) = Ok bytes"
    "sig_verify P sig (MULTISIG_SIGNING_REQUEST_DOMAIN @ bytes) source"
    "pr_signing_hash parsed = unsigned_signing_hash P u" "pr_transaction parsed = preview"
    "validate_and_build_transaction_preview H P (pl_transaction (en_payload envelope))
       (ptx_data P (unsigned_finalize P fresh u)) network source = Ok preview"
    using assms by (auto simp: parse_multisig_signing_request_def result_simps Let_def
        multisig_request_signing_bytes_def MULTISIG_SIGNING_REQUEST_VERSION_def)
  then show ?thesis
    using parse_request_trim(1) [OF assms] preview_Ok by metis
qed

theorem accepted_request_is_sound_witness:
  "\<exists>parsed. parse_multisig_signing_request demo_hash_api demo_protocol_api () ''env'' Testnet = Ok parsed \<and>
     pr_encoded parsed = ''env''"
proof -
  obtain parsed where
    run: "parse_multisig_signing_request demo_hash_api demo_protocol_api () ''env'' Testnet = Ok parsed"
    using demo_parse_request by blast
  from accepted_request_is_sound [OF run] show ?thesis
    using run by (auto simp: demo_trim)
qed

text \<open>
  C13: participants see what the source wallet declared.  Whenever a signing
  request is created, every participant who parses its text on the same
  network, with whatever random key the parser draws, gets the hash of the
  given transaction, its source, fee, fee limit, nonce and reference, and a
  preview that shows the declared transfers, burn or deletion, as the request
  returned to the source wallet does.
\<close>

theorem created_request_describes_transaction:
  assumes "request_codec_laws P"
    and "create_multisig_signing_request H A P fresh unsigned_tx ty configuration network keypair = Ok req"
  shows "\<exists>parsed. parse_multisig_signing_request H P fresh' (sr_encoded req) network = Ok parsed \<and>
    pr_signing_hash parsed = unsigned_signing_hash P unsigned_tx \<and>
    pr_source parsed = key_address P (ptx_source P (unsigned_finalize P keypair unsigned_tx)) (network_is_mainnet P network) \<and>
    public_values P (unsigned_finalize P keypair unsigned_tx) =
      (pr_fee parsed, pr_fee_limit parsed, pr_nonce parsed, pr_reference_topoheight parsed) \<and>
    declares H A P network ty (pr_transaction parsed) \<and>
    sr_signing_hash req = to_hex H (pr_signing_hash parsed) \<and> sr_source req = pr_source parsed \<and>
    (sr_fee req, sr_fee_limit req, sr_nonce req, sr_reference_topoheight req) =
      (pr_fee parsed, pr_fee_limit parsed, pr_nonce parsed, pr_reference_topoheight parsed) \<and>
    sr_transaction req = pr_transaction parsed"
proof -
  obtain transaction payload bytes encoded parsed where
    built: "build_signing_request_transaction H A P ty (ptx_data P (unsigned_finalize P keypair unsigned_tx))
      network keypair = Ok transaction"
    and payload: "payload = \<lparr> pl_version = MULTISIG_SIGNING_REQUEST_VERSION, pl_network = network,
      pl_unsigned_transaction = unsigned_to_hex P unsigned_tx, pl_transaction = transaction \<rparr>"
    and json: "envelope_to_json P \<lparr> en_payload = payload,
      en_source_signature = sig_to_hex P (keypair_sign P keypair bytes) \<rparr> = Ok encoded"
    and parsed: "parse_multisig_signing_request H P fresh encoded network = Ok parsed"
    and req: "req = into_request H P parsed None (mp_threshold configuration)
      (number_participants (map (\<lambda>k. key_address P k (network_is_mainnet P network))
        (mp_participants configuration))) None"
    using assms(2) by (auto simp: create_multisig_signing_request_def result_simps Let_def)
  have encoded: "sr_encoded req = encoded" "pr_encoded parsed = encoded"
    using parse_request_trim(1) [OF parsed] assms(1) json by (simp_all add: req into_request_def request_codec_laws_def)
  obtain source where
    preview: "validate_and_build_transaction_preview H P transaction
      (ptx_data P (unsigned_finalize P fresh unsigned_tx)) network source = Ok (pr_transaction parsed)"
    and fields: "pr_signing_hash parsed = unsigned_signing_hash P unsigned_tx"
      "pr_source parsed = key_address P (ptx_source P (unsigned_finalize P fresh unsigned_tx)) (network_is_mainnet P network)"
      "public_values P (unsigned_finalize P fresh unsigned_tx) =
        (pr_fee parsed, pr_fee_limit parsed, pr_nonce parsed, pr_reference_topoheight parsed)"
    using created_fields [OF assms(1) json parsed] by (auto simp: payload)
  have "declares H A P network ty (pr_transaction parsed)"
    using declared_preview [OF built preview finalized_data [OF assms(1)]] .
  moreover have "parse_multisig_signing_request H P fresh' encoded network = Ok parsed"
    using parsed parse_fresh [OF assms(1)] by metis
  ultimately show ?thesis
    using fields encoded(1) finalized_values [OF assms(1), of keypair unsigned_tx fresh]
    by (auto simp: req into_request_def public_values_def)
qed

theorem created_request_describes_transaction_witness:
  "\<exists>parsed. parse_multisig_signing_request demo_hash_api demo_protocol_api () ''env'' Testnet = Ok parsed \<and>
     pr_transaction parsed = SigningBurn ''1'' 7 \<and> pr_fee parsed = 3"
proof -
  have "\<exists>req. create_multisig_signing_request demo_hash_api demo_address_api demo_protocol_api () ()
      (BurnType 7 True) \<lparr> mp_threshold = 1, mp_participants = [()] \<rparr> Testnet () = Ok req \<and>
      sr_encoded req = ''env''"
    by (simp add: create_multisig_signing_request_def build_signing_request_transaction_def
        parse_multisig_signing_request_def demo_protocol_api_def demo_envelope_def
        MAX_MULTISIG_SIGNING_REQUEST_SIZE_def demo_trim check_def with_context_def into_request_def
        MULTISIG_SIGNING_REQUEST_VERSION_def multisig_request_signing_bytes_def Let_def
        validate_and_build_transaction_preview_def demo_hash_api_def)
  then obtain req where run: "create_multisig_signing_request demo_hash_api demo_address_api demo_protocol_api () ()
      (BurnType 7 True) \<lparr> mp_threshold = 1, mp_participants = [()] \<rparr> Testnet () = Ok req" "sr_encoded req = ''env''"
    by blast
  obtain parsed where parsed: "parse_multisig_signing_request demo_hash_api demo_protocol_api () ''env'' Testnet = Ok parsed"
      "public_values demo_protocol_api (unsigned_finalize demo_protocol_api () ()) =
        (pr_fee parsed, pr_fee_limit parsed, pr_nonce parsed, pr_reference_topoheight parsed)"
      "declares demo_hash_api demo_address_api demo_protocol_api Testnet (BurnType 7 True) (pr_transaction parsed)"
    using created_request_describes_transaction [OF demo_codec run(1), of "()"] unfolding run(2) by blast
  have "pr_fee parsed = 3" using parsed(2) by (simp add: public_values_def demo_protocol_api_def)
  moreover have "pr_transaction parsed = SigningBurn ''1'' 7"
    using parsed(3) by (cases "pr_transaction parsed") (simp_all add: declares_def demo_hash_api_def)
  ultimately show ?thesis using parsed(1) by blast
qed

text \<open>
  Signature shares round trip.  A share created for a hash and a
  participant is accepted for exactly that hash, and gives back the
  participant and the signature text, as long as its JSON is within the size
  limit, decodes to what was encoded, and has no surrounding white space.
\<close>

theorem signature_share_roundtrip:
  assumes "create_multisig_signature_share H P h signer_id signature = Ok share"
    and "\<And>e t. share_to_json P e = Ok t \<Longrightarrow> share_from_json P t = Ok e \<and> trim t = t"
    and "\<And>sig. sig_from_hex P (sig_to_hex P sig) = Ok sig"
    and "length (ns_encoded share) \<le> 1024"
  shows "parse_multisig_signature_share H P (ns_encoded share) h' = Ok signature' \<longleftrightarrow>
    to_hex H h' = to_hex H h \<and> signature' = \<lparr> ms_id = signer_id, ms_signature = sig_to_hex P signature \<rparr>"
proof -
  let ?e = "\<lparr> sh_version = MULTISIG_SIGNATURE_SHARE_VERSION, sh_signing_hash = to_hex H h,
     sh_signer_id = signer_id, sh_signature = sig_to_hex P signature \<rparr>"
  have json: "share_to_json P ?e = Ok (ns_encoded share)"
    using assms(1) by (auto simp: create_multisig_signature_share_def result_simps Let_def)
  have "share_from_json P (ns_encoded share) = Ok ?e" "trim (ns_encoded share) = ns_encoded share"
    using assms(2) [OF json] by simp_all
  then show ?thesis
    using json assms(3,4)
    by (auto simp: parse_multisig_signature_share_def result_simps
        MAX_MULTISIG_SIGNATURE_SHARE_SIZE_def)
qed

theorem signature_share_roundtrip_witness:
  "parse_multisig_signature_share demo_hash_api demo_protocol_api ''share'' True =
   Ok \<lparr> ms_id = 0, ms_signature = ''s'' \<rparr>"
proof -
  let ?share = "\<lparr> ns_encoded = ''share'', ns_signing_hash = ''1'', ns_signer_id = 0,
    ns_signature = ''s'' \<rparr>"
  have created: "create_multisig_signature_share demo_hash_api demo_protocol_api True 0 () = Ok ?share"
    by (simp add: create_multisig_signature_share_def demo_hash_api_def demo_protocol_api_def
        demo_share_def MULTISIG_SIGNATURE_SHARE_VERSION_def with_context_def)
  have json: "share_from_json demo_protocol_api t = Ok e \<and> trim t = t"
    if "share_to_json demo_protocol_api e = Ok t" for e t
    using that by (auto simp: demo_protocol_api_def demo_trim split: if_splits)
  have sig: "sig_from_hex demo_protocol_api (sig_to_hex demo_protocol_api sig) = Ok sig" for sig
    by (simp add: demo_protocol_api_def)
  from signature_share_roundtrip [OF created json sig, of True] show ?thesis
    by (simp add: demo_protocol_api_def)
qed

end
