(* ===== verification/Pending_Multisig.thy ===== *)
theory Pending_Multisig
  imports Error_Classification Capability
begin

text \<open>
  The slot for the one multisig request a source wallet is collecting
  signatures for, from \<open>wallet/multisig.rs\<close>.  Hashes and payloads are type
  parameters; a validation is a function from the payload to a result.
\<close>

section \<open>Model\<close>

record ('h, 't) pending_multisig_store =
  request :: "(u64 \<times> 'h \<times> 't) option"
  pending_next_generation :: u64

definition default_pending_store :: "('h, 't) pending_multisig_store" where
  "default_pending_store = \<lparr> request = None, pending_next_generation = 0 \<rparr>"

fun pending_multisig_display :: "pending_multisig_error \<Rightarrow> string" where
  "pending_multisig_display PendingAlreadyPending = ''another multisig request is already pending''"
| "pending_multisig_display PendingGenerationOverflow = ''multisig request generation overflow''"
| "pending_multisig_display PendingNotFound = ''no multisig request is pending''"
| "pending_multisig_display PendingRequestMismatch =
     ''the multisig request does not match the pending transaction''"

definition pending_insert ::
  "'h \<Rightarrow> 't \<Rightarrow> ('h, 't) pending_multisig_store
   \<Rightarrow> (u64, anyhow_error) result \<times> ('h, 't) pending_multisig_store" where
  "pending_insert signing_hash payload s =
     (if request s \<noteq> None then (Err (AnyPendingMultisig PendingAlreadyPending), s)
      else case checked_add (pending_next_generation s) 1 of
        None \<Rightarrow> (Err (AnyPendingMultisig PendingGenerationOverflow), s)
      | Some g \<Rightarrow>
          (Ok g, s\<lparr> pending_next_generation := g, request := Some (g, signing_hash, payload) \<rparr>))"

definition pending_signing_hash :: "('h, 't) pending_multisig_store \<Rightarrow> 'h option" where
  "pending_signing_hash s = map_option (\<lambda>(_, h, _). h) (request s)"

definition ensure_expected_request ::
  "u64 \<Rightarrow> 'h \<Rightarrow> ('h, 't) pending_multisig_store \<Rightarrow> (unit, anyhow_error) result" where
  "ensure_expected_request request_id expected s =
     and_then (ok_or (request s) (AnyPendingMultisig PendingNotFound)) (\<lambda>(g, h, _).
       if g \<noteq> request_id \<or> h \<noteq> expected then Err (AnyPendingMultisig PendingRequestMismatch)
       else Ok ())"

definition pending_cancel ::
  "u64 \<Rightarrow> 'h \<Rightarrow> ('h, 't) pending_multisig_store
   \<Rightarrow> (unit, anyhow_error) result \<times> ('h, 't) pending_multisig_store" where
  "pending_cancel request_id expected s =
     (case ensure_expected_request request_id expected s of
        Inl e \<Rightarrow> (Err e, s)
      | Inr _ \<Rightarrow> (Ok (), s\<lparr> request := None \<rparr>))"

definition pending_validate ::
  "u64 \<Rightarrow> 'h \<Rightarrow> ('t \<Rightarrow> ('r, anyhow_error) result) \<Rightarrow> ('h, 't) pending_multisig_store
   \<Rightarrow> ('r, anyhow_error) result" where
  "pending_validate request_id expected validate s =
     and_then (ensure_expected_request request_id expected s) (\<lambda>_.
     and_then (ok_or (request s) (AnyPendingMultisig PendingNotFound)) (\<lambda>(_, _, payload).
     validate payload))"

definition take_validated ::
  "u64 \<Rightarrow> 'h \<Rightarrow> ('t \<Rightarrow> ('r, anyhow_error) result) \<Rightarrow> ('h, 't) pending_multisig_store
   \<Rightarrow> ('t \<times> 'r, anyhow_error) result \<times> ('h, 't) pending_multisig_store" where
  "take_validated request_id expected validate s =
     (case pending_validate request_id expected validate s of
        Inl e \<Rightarrow> (Err e, s)
      | Inr r \<Rightarrow>
          (case request s of
             None \<Rightarrow> (Err (AnyPendingMultisig PendingNotFound), s\<lparr> request := None \<rparr>)
           | Some (_, _, payload) \<Rightarrow> (Ok (payload, r), s\<lparr> request := None \<rparr>)))"

fun pending_error_class :: "pending_multisig_error \<Rightarrow> native_xelis_error_code \<times> string" where
  "pending_error_class PendingAlreadyPending = (Conflict, ''MULTISIG_REQUEST_ALREADY_PENDING'')"
| "pending_error_class PendingGenerationOverflow =
     (Internal, ''MULTISIG_REQUEST_GENERATION_OVERFLOW'')"
| "pending_error_class PendingNotFound = (NotFound, ''MULTISIG_REQUEST_NOT_FOUND'')"
| "pending_error_class PendingRequestMismatch = (Conflict, ''MULTISIG_REQUEST_MISMATCH'')"

definition map_pending_multisig_error ::
  "upstream_text \<Rightarrow> anyhow_error \<Rightarrow> native_xelis_error_code \<Rightarrow> string \<Rightarrow> native_xelis_error" where
  "map_pending_multisig_error up e fallback_code fallback_kind =
     (case downcast_pending_multisig e of
        Some p \<Rightarrow> xelis_wallet_flutter_error (fst (pending_error_class p)) (snd (pending_error_class p))
          (pending_multisig_display p)
      | None \<Rightarrow> from_wallet_operation up e fallback_code fallback_kind)"

section \<open>Callers\<close>

text \<open>
  Every public operation locks the store, so callers interleave whole
  operations.  What a validation returns does not affect the store, only
  whether it succeeds.
\<close>

inductive pending_step ::
  "('h, 't) pending_multisig_store \<Rightarrow> ('h, 't) pending_multisig_store \<Rightarrow> bool" where
  "pending_insert h t s = (r, s') \<Longrightarrow> pending_step s s'"
| "pending_cancel g h s = (r', s') \<Longrightarrow> pending_step s s'"
| "take_validated g h (validate :: 't \<Rightarrow> (unit, anyhow_error) result) s = (r'', s') \<Longrightarrow>
     pending_step s s'"

inductive_cases pending_stepE: "pending_step s s'"

definition pending_inv :: "('h, 't) pending_multisig_store \<Rightarrow> bool" where
  "pending_inv s \<longleftrightarrow>
     (case request s of None \<Rightarrow> True | Some (g, _, _) \<Rightarrow> 0 < g \<and> g = pending_next_generation s)"

definition pending_held :: "('h, 't) pending_multisig_store \<Rightarrow> (u64 \<times> 'h \<times> 't) option" where
  "pending_held s = request s"

section \<open>Lemmas\<close>

lemma ensure_expected_Ok:
  "ensure_expected_request g h s = Ok u \<longleftrightarrow> (\<exists>t. request s = Some (g, h, t))"
  by (auto simp: ensure_expected_request_def result_simps split: if_splits)

lemma pending_validate_Ok:
  "pending_validate g h validate s = Ok r \<longleftrightarrow>
     (\<exists>t. request s = Some (g, h, t) \<and> validate t = Ok r)"
  by (auto simp: pending_validate_def result_simps ensure_expected_Ok)

lemma take_validated_Ok:
  "take_validated g h validate s = (Ok (t, r), s') \<longleftrightarrow>
     request s = Some (g, h, t) \<and> validate t = Ok r \<and> s' = s\<lparr> request := None \<rparr>"
proof (cases "pending_validate g h validate s")
  case (Inl e)
  then have "\<not> (request s = Some (g, h, t) \<and> validate t = Ok r)"
    by (metis pending_validate_Ok Inl_Inr_False)
  then show ?thesis
    using Inl by (auto simp: take_validated_def)
next
  case (Inr r')
  then obtain t' where "request s = Some (g, h, t')" "validate t' = Ok r'"
    by (auto simp: pending_validate_Ok)
  then show ?thesis
    using Inr by (auto simp: take_validated_def)
qed

lemma take_validated_Err: "take_validated g h validate s = (Err e, s') \<Longrightarrow> s' = s"
  using pending_validate_Ok [of g h validate s]
  by (auto simp: take_validated_def split: sum.splits option.splits)

lemma pending_cancel_cases:
  "pending_cancel g h s =
     (case request s of
        Some (g', h', t) \<Rightarrow>
          if g' = g \<and> h' = h then (Ok (), s\<lparr> request := None \<rparr>)
          else (Err (AnyPendingMultisig PendingRequestMismatch), s)
      | None \<Rightarrow> (Err (AnyPendingMultisig PendingNotFound), s))"
  by (auto simp: pending_cancel_def ensure_expected_request_def split: option.split)

lemma take_validated_store:
  "take_validated g h validate s = (r, s') \<Longrightarrow> s' = s \<or> s' = s\<lparr> request := None \<rparr>"
  by (auto simp: take_validated_def split: sum.splits option.splits)

lemma pending_step_cases:
  assumes "pending_step s s'"
  obtains "s' = s" | "s' = s\<lparr> request := None \<rparr>"
  | g h t where "request s = None" "checked_add (pending_next_generation s) 1 = Some g"
      "s' = s\<lparr> pending_next_generation := g, request := Some (g, h, t) \<rparr>"
  using assms
proof cases
  case (1 h t r)
  show ?thesis
  proof (cases "request s = None \<and> checked_add (pending_next_generation s) 1 \<noteq> None")
    case True
    then obtain g where "checked_add (pending_next_generation s) 1 = Some g" by blast
    then show ?thesis
      using that(3) [of g h t] 1 True by (simp add: pending_insert_def)
  next
    case False
    then have "s' = s"
      using 1 by (auto simp: pending_insert_def split: option.splits if_splits)
    then show ?thesis by (rule that(1))
  qed
next
  case (2 g h r')
  then have "s' = s \<or> s' = s\<lparr> request := None \<rparr>"
    by (auto simp: pending_cancel_cases split: if_splits option.splits)
  then show ?thesis using that(1,2) by blast
next
  case (3 g h validate r'')
  then show ?thesis using that(1,2) take_validated_store [OF 3] by blast
qed

interpretation pending_slot: capability_slot pending_inv pending_held pending_next_generation pending_step
proof unfold_locales
  fix s s' :: "('h, 't) pending_multisig_store" and g c
  assume inv: "pending_inv s"
  show "g \<le> pending_next_generation s" if "pending_held s = Some (g, c)"
    using that inv by (auto simp: pending_inv_def pending_held_def split: prod.splits)
  assume step: "pending_step s s'"
  show "pending_inv s'"
    using step inv by (cases rule: pending_step_cases)
      (auto simp: pending_inv_def dest: checked_succ_Some(3))
  show "pending_next_generation s \<le> pending_next_generation s'"
    using step by (cases rule: pending_step_cases) (auto dest: checked_succ_Some(1))
  show "pending_held s = Some (g, c) \<or> pending_next_generation s < g" if "pending_held s' = Some (g, c)"
    using step that by (cases rule: pending_step_cases)
      (auto simp: pending_held_def dest: checked_succ_Some(1))
qed

lemma pending_inv_init: "pending_inv default_pending_store"
  by (simp add: pending_inv_def default_pending_store_def)

section \<open>Properties\<close>

text \<open>
  Multisig requests are single use.  Once a request is cancelled or
  finalized, no later sequence of operations makes its generation valid again,
  so imported shares and replayed requests cannot reach another transaction.
\<close>

theorem pending_request_single_use:
  assumes "pending_step\<^sup>*\<^sup>* default_pending_store s" "request s = Some (g, h, t)"
    and "pending_step s s1" "request s1 \<noteq> request s" "pending_step\<^sup>*\<^sup>* s1 s'"
  shows "pending_validate g h' validate s' \<noteq> Ok r \<and> fst (take_validated g h' validate s') \<noteq> Ok (t', r) \<and>
    fst (pending_cancel g h' s') \<noteq> Ok ()"
proof -
  have inv: "pending_inv s"
    using pending_slot.invar_star [OF assms(1) pending_inv_init] .
  have inv1: "pending_inv s1"
    using pending_slot.step_invar [OF inv assms(3)] .
  have "spent_capability pending_held pending_next_generation g s1"
    using pending_slot.content_unique [OF r_into_rtranclp [of pending_step, OF assms(3)] inv, of g "(h, t)"]
      assms(2,4) by (auto simp: pending_held_def)
  then have "request s' \<noteq> Some (g, h', t'')" for t''
    using pending_slot.spent_forever [OF assms(5) inv1] by (simp add: spent_iff pending_held_def)
  then show ?thesis
    using take_validated_Ok [of g h' validate s' t' r]
    by (cases "take_validated g h' validate s'")
      (auto simp: pending_validate_Ok pending_cancel_cases split: option.splits)
qed

theorem pending_request_single_use_witness:
  "fst (pending_cancel 1 ''hash'' \<lparr> request = (None :: (u64 \<times> string \<times> unit) option),
     pending_next_generation = 1 \<rparr>) \<noteq> Ok ()"
proof -
  let ?s = "\<lparr> request = Some (1, ''hash'', ()), pending_next_generation = 1 \<rparr>"
  let ?s1 = "\<lparr> request = (None :: (u64 \<times> string \<times> unit) option), pending_next_generation = 1 \<rparr>"
  have "pending_step default_pending_store ?s"
    using pending_step.intros(1) [of "''hash''" "()" default_pending_store "Ok 1" ?s]
    by (simp add: pending_insert_def default_pending_store_def checked_add_def)
  moreover have "pending_step ?s ?s1"
    using pending_step.intros(2) [of 1 "''hash''" ?s "Ok ()" ?s1]
    by (simp add: pending_cancel_cases)
  ultimately show ?thesis
    using pending_request_single_use [OF r_into_rtranclp [of pending_step],
        of ?s 1 "''hash''" "()" ?s1 ?s1 "''hash''" "\<lambda>_. Ok ()"] by simp
qed

end
