(* ===== verification/Multisig_Wallet.thy ===== *)
theory Multisig_Wallet
  imports Multisig_Protocol Pending_Multisig Transactions
begin

text \<open>
  The multisig operations of \<open>wallet/multisig.rs\<close>, on top of the protocol, the
  pending-request slot and the prepared-transaction slot.  What they need of
  the upstream wallet and node beyond \<open>wallet_api\<close> is \<open>multisig_api\<close>.
\<close>

section \<open>Parameters and state\<close>

datatype 'a remote_multisig_state = RemoteActive "'a list" u8 | RemoteDeleted

record ('a, 'h, 'k, 'sig, 'u, 'st, 'kp, 'm, 'w) multisig_api =
  my_network :: network
  my_public_key :: 'k
  my_keypair :: 'kp
  sign_data :: "u8 list \<Rightarrow> 'sig"
  stored_multisig_state :: "'w \<Rightarrow> (('k multisig_payload \<times> u64) option, anyhow_error) result"
  create_transaction_state ::
    "('a, 'h) transaction_type_builder \<Rightarrow> u64 \<Rightarrow> 'w \<Rightarrow> ('st, anyhow_error) result"
  multisig_tx_version :: "'w \<Rightarrow> (u8, anyhow_error) result"
  create_unsigned_transaction ::
    "'st \<Rightarrow> u8 \<Rightarrow> ('a, 'h) transaction_type_builder \<Rightarrow> u64 \<Rightarrow> u8 \<Rightarrow> ('u \<times> 'st, anyhow_error) result"
  unsigned_set_multisig :: "'m \<Rightarrow> 'u \<Rightarrow> 'u"
  has_network_handler :: "'w \<Rightarrow> bool"
  fetch_multisig :: "'a \<Rightarrow> 'w \<Rightarrow> ('a remote_multisig_state, anyhow_error) result"

record ('u, 'st, 'k) pending_multisig_transaction =
  pm_unsigned :: 'u
  pm_state :: 'st
  pm_configuration :: "'k multisig_payload"
  pm_transaction_preview :: native_multisig_signing_transaction

record ('h, 'tx, 'st, 'w, 'u, 'k) multisig_wallet =
  mw_wallet :: "('h, 'tx, 'st, 'w) wallet_state"
  mw_pending :: "('h, ('u, 'st, 'k) pending_multisig_transaction) pending_multisig_store"

record resolved_configuration =
  rc_threshold :: u8
  rc_participants :: "native_multisig_participant list"
  rc_signer_id :: "u8 option"

record native_multisig_state =
  nm_threshold :: u8
  nm_participants :: "native_multisig_participant list"
  nm_topoheight :: u64

section \<open>Participants\<close>

definition parse_multisig_signing_hash ::
  "upstream_text \<Rightarrow> 'h hash_api \<Rightarrow> string \<Rightarrow> ('h, native_xelis_error) result" where
  "parse_multisig_signing_hash up H s =
     map_err (\<lambda>e. from_wallet_operation up (AnyOther e) InvalidInput ''MULTISIG_SIGNING_HASH_INVALID'')
       (from_hex H s)"

definition is_multisig_participant_address_valid ::
  "('a, 'k, 'h) address_api \<Rightarrow> 'a \<Rightarrow> bool \<Rightarrow> 'k \<Rightarrow> bool" where
  "is_multisig_participant_address_valid A address mainnet wallet_public_key \<longleftrightarrow>
     address_is_normal A address \<and> address_is_mainnet A address = mainnet \<and>
     to_public_key A address \<noteq> wallet_public_key"

fun parse_participants_loop ::
  "('a, 'k, 'h) address_api \<Rightarrow> bool \<Rightarrow> 'k \<Rightarrow> string list \<Rightarrow> 'a list \<Rightarrow> ('a list, anyhow_error) result"
where
  "parse_participants_loop A mainnet key [] acc = Ok acc"
| "parse_participants_loop A mainnet key (p # ps) acc =
     (case address_from_string A p of
        Inl _ \<Rightarrow> Err (AnyOther ''Invalid multisig participant address'')
      | Inr address \<Rightarrow>
          if \<not> is_multisig_participant_address_valid A address mainnet key
          then Err (AnyOther ''Invalid multisig participant address'')
          else if address \<in> set acc
          then Err (AnyOther ''A multisig participant was provided more than once'')
          else parse_participants_loop A mainnet key ps (acc @ [address]))"

definition parse_multisig_participants ::
  "('a, 'k, 'h) address_api \<Rightarrow> string list \<Rightarrow> bool \<Rightarrow> 'k \<Rightarrow> ('a list, anyhow_error) result" where
  "parse_multisig_participants A participants mainnet key =
     parse_participants_loop A mainnet key participants []"

definition is_address_valid_for_multisig where
  "is_address_valid_for_multisig A P M text =
     (case address_from_string A text of
        Inl _ \<Rightarrow> False
      | Inr address \<Rightarrow> is_multisig_participant_address_valid A address
          (network_is_mainnet P (my_network M)) (my_public_key M))"

text \<open>The participant id is the last index with the wallet's key, cut to a byte.\<close>

definition find_signer_id :: "('a, 'k, 'h) address_api \<Rightarrow> 'k \<Rightarrow> 'a list \<Rightarrow> u8 option" where
  "find_signer_id A key participants =
     fold (\<lambda>(i, p) acc. if to_public_key A p = key then Some (word_of_nat i) else acc)
       (zip [0..<length participants] participants) None"

definition resolve_active_multisig_configuration where
  "resolve_active_multisig_configuration A P remote wallet_public_key =
     (case remote of
        RemoteDeleted \<Rightarrow>
          Err (AnyOther ''The multisig configuration was not active for this request'')
      | RemoteActive participants threshold \<Rightarrow>
          and_then (validate_multisig_setup P threshold (length participants)) (\<lambda>_.
          Ok \<lparr> rc_threshold = threshold,
               rc_participants = number_participants (map (address_to_string A) participants),
               rc_signer_id = find_signer_id A wallet_public_key participants \<rparr>))"

definition create_authorized_multisig_signature_share where
  "create_authorized_multisig_signature_share H P signing_hash signer_id sign =
     and_then (ok_or signer_id (AnyOther
         ''The opened wallet is not an authorized participant for this multisig request''))
       (\<lambda>signer_id. create_multisig_signature_share H P signing_hash signer_id
          (sign (hash_bytes P signing_hash)))"

definition get_multisig_state where
  "get_multisig_state up P M w =
     map_ok (map_option (\<lambda>(payload, topoheight).
       \<lparr> nm_threshold = mp_threshold payload,
         nm_participants = number_participants (map (\<lambda>k.
           key_address P k (network_is_mainnet P (my_network M))) (mp_participants payload)),
         nm_topoheight = topoheight \<rparr>))
     (map_err (\<lambda>e. from_wallet_storage_operation up e ''MULTISIG_STATE_READ_FAILED'')
       (stored_multisig_state M w))"

section \<open>Building a request\<close>

definition active_multisig_configuration where
  "active_multisig_configuration up M w =
     and_then (map_err (\<lambda>e. from_wallet_storage_operation up e ''MULTISIG_CONFIGURATION_READ_FAILED'')
         (stored_multisig_state M w)) (\<lambda>multisig.
     ok_or (map_option fst multisig) (xelis_wallet_flutter_error NotFound
       ''MULTISIG_CONFIGURATION_NOT_FOUND'' ''No multisig configuration is active''))"

definition build_unsigned_transaction where
  "build_unsigned_transaction up M ty fee threshold w =
     and_then (map_err (\<lambda>e. from_wallet_operation up e OperationFailed
         ''MULTISIG_TRANSACTION_STATE_CREATION_FAILED'') (create_transaction_state M ty fee w)) (\<lambda>st.
     and_then (map_err (\<lambda>e. from_wallet_storage_operation up e
         ''MULTISIG_TRANSACTION_VERSION_READ_FAILED'') (multisig_tx_version M w)) (\<lambda>version.
     map_err (\<lambda>e. from_wallet_operation up e OperationFailed
         ''MULTISIG_UNSIGNED_TRANSACTION_CREATION_FAILED'')
       (create_unsigned_transaction M st threshold ty fee version)))"

definition store_pending_multisig_transaction where
  "store_pending_multisig_transaction up H (A :: ('a, 'k, 'h) address_api) P M fresh unsigned_tx st ty
     configuration target_fee pending =
     (case map_err (\<lambda>e. from_wallet_operation up e Serialization
           ''MULTISIG_SIGNING_REQUEST_CREATION_FAILED'')
         (create_multisig_signing_request H A P fresh unsigned_tx ty configuration (my_network M)
           (my_keypair M)) of
        Inl e \<Rightarrow> (Err e, pending)
      | Inr req \<Rightarrow>
          if sr_fee req \<noteq> target_fee
          then (Err (xelis_wallet_flutter_error Internal ''MULTISIG_TRANSACTION_FEE_MISMATCH''
                  (''Prepared multisig fee '' @ decimal_of_nat (unat (sr_fee req)) @
                   '' differs from requested fixed fee '' @ decimal_of_nat (unat target_fee))),
                pending)
          else
            (case pending_insert (unsigned_signing_hash P unsigned_tx)
                \<lparr> pm_unsigned = unsigned_tx, pm_state = st, pm_configuration = configuration,
                  pm_transaction_preview = sr_transaction req \<rparr> pending of
               (Inl e, p) \<Rightarrow>
                 (Err (map_pending_multisig_error up e Conflict ''MULTISIG_REQUEST_STORE_FAILED''), p)
             | (Inr request_id, p) \<Rightarrow> (Ok (req\<lparr> sr_request_id := Some request_id \<rparr>), p)))"

definition prepare_pending_with_fee where
  "prepare_pending_with_fee up H (A :: ('a, 'k, 'h) address_api) P M fresh ty target_fee s =
     (if pending_signing_hash (mw_pending s) \<noteq> None
      then (Err (xelis_wallet_flutter_error Conflict ''MULTISIG_REQUEST_ALREADY_PENDING''
              ''Another multisig request is already pending''), s)
      else
        (let w = world (mw_wallet s) in
         case and_then (active_multisig_configuration up M w) (\<lambda>configuration.
              and_then (build_unsigned_transaction up M ty target_fee (mp_threshold configuration) w)
                (\<lambda>(unsigned_tx, st). Ok (configuration, unsigned_tx, st))) of
           Inl e \<Rightarrow> (Err e, s)
         | Inr (configuration, unsigned_tx, st) \<Rightarrow>
             (case store_pending_multisig_transaction up H A P M fresh unsigned_tx st ty configuration
                 target_fee (mw_pending s) of
                (r, p) \<Rightarrow> (r, s\<lparr> mw_pending := p \<rparr>))))"

definition prepare_pending where
  "prepare_pending up H (A :: ('a, 'k, 'h) address_api) W P M fresh ty policy s =
     (case estimate_target_fee up W ty policy (world (mw_wallet s)) of
        Inl e \<Rightarrow> (Err e, s)
      | Inr target_fee \<Rightarrow> prepare_pending_with_fee up H A P M fresh ty target_fee s)"

definition create_multisig_transfers_transaction where
  "create_multisig_transfers_transaction up H A W P M fresh transfers policy s =
     (case and_then (apply_fee_policy 0 policy) (\<lambda>_. build_atomic_transfers H A transfers) of
        Inl e \<Rightarrow> (Err e, s)
      | Inr (ty, _, _) \<Rightarrow> prepare_pending up H A W P M fresh ty policy s)"

definition create_multisig_transfer_all_transaction where
  "create_multisig_transfer_all_transaction up H A W P M fresh dest asset_hash extra encrypt policy s =
     (let w = world (mw_wallet s);
          insufficient = (\<lambda>e. from_wallet_operation up e InsufficientFunds
            ''MULTISIG_TRANSFER_ALL_BALANCE_INSUFFICIENT'') in
      case and_then (apply_fee_policy 0 policy) (\<lambda>_.
           and_then (case asset_hash of None \<Rightarrow> Ok (xelis_asset W)
             | Some v \<Rightarrow> parse_transaction_asset H v) (\<lambda>asset.
           and_then (parse_transaction_destination A dest) (\<lambda>destination.
           and_then (map_err (\<lambda>e. from_wallet_storage_operation up e
             ''MULTISIG_TRANSFER_ALL_BALANCE_READ_FAILED'') (get_plaintext_balance_for W asset w))
             (\<lambda>balance.
           and_then (map_err insufficient (build_transfer_all_type (xelis_asset W) destination balance
             0 asset extra encrypt)) (\<lambda>estimated.
           and_then (estimate_target_fee up W estimated policy w) (\<lambda>target_fee.
           and_then (map_err insufficient (amount_after_fee (xelis_asset W) balance target_fee asset
             ''Insufficient balance for fees'')) (\<lambda>amount.
           Ok (TransfersType [build_transfer destination amount asset extra encrypt],
             target_fee)))))))) of
        Inl e \<Rightarrow> (Err e, s)
      | Inr (ty, target_fee) \<Rightarrow> prepare_pending_with_fee up H A P M fresh ty target_fee s)"

definition create_multisig_burn_transaction where
  "create_multisig_burn_transaction up H (A :: ('a, 'k, 'h) address_api) W P M fresh amount asset_hash policy s =
     (case and_then (apply_fee_policy 0 policy) (\<lambda>_.
           if amount = 0
           then Err (xelis_wallet_flutter_error InvalidInput ''MULTISIG_TRANSACTION_AMOUNT_INVALID''
             ''Burn amount must be greater than zero'')
           else parse_transaction_asset H asset_hash) of
        Inl e \<Rightarrow> (Err e, s)
      | Inr asset \<Rightarrow> prepare_pending up H A W P M fresh (build_burn_type asset amount) policy s)"

definition create_multisig_burn_all_transaction where
  "create_multisig_burn_all_transaction up H (A :: ('a, 'k, 'h) address_api) W P M fresh asset_hash policy s =
     (let w = world (mw_wallet s);
          insufficient = (\<lambda>e. from_wallet_operation up e InsufficientFunds
            ''MULTISIG_BURN_ALL_BALANCE_INSUFFICIENT'') in
      case and_then (apply_fee_policy 0 policy) (\<lambda>_.
           and_then (parse_transaction_asset H asset_hash) (\<lambda>asset.
           and_then (map_err (\<lambda>e. from_wallet_storage_operation up e
             ''MULTISIG_BURN_ALL_BALANCE_READ_FAILED'') (get_plaintext_balance_for W asset w))
             (\<lambda>balance.
           and_then (map_err insufficient (build_burn_all_type (xelis_asset W) asset balance 0))
             (\<lambda>estimated.
           and_then (estimate_target_fee up W estimated policy w) (\<lambda>target_fee.
           and_then (map_err insufficient
             (build_burn_all_type (xelis_asset W) asset balance target_fee)) (\<lambda>ty.
           Ok (ty, target_fee))))))) of
        Inl e \<Rightarrow> (Err e, s)
      | Inr (ty, target_fee) \<Rightarrow> prepare_pending_with_fee up H A P M fresh ty target_fee s)"

definition init_delete_multisig where
  "init_delete_multisig up H (A :: ('a, 'k, 'h) address_api) W P M fresh policy s =
     (case apply_fee_policy 0 policy of
        Inl e \<Rightarrow> (Err e, s)
      | Inr _ \<Rightarrow> prepare_pending up H A W P M fresh (MultiSigType [] 0) policy s)"

section \<open>Setting up\<close>

definition multisig_setup where
  "multisig_setup up H A W P M threshold participants policy s =
     (let w = world (mw_wallet s) in
      case and_then (apply_fee_policy 0 policy) (\<lambda>_.
           and_then (map_err (\<lambda>e. from_wallet_operation up e InvalidInput ''MULTISIG_SETUP_INVALID'')
             (validate_multisig_setup P threshold (length participants))) (\<lambda>_.
           and_then (map_err (\<lambda>e. from_wallet_operation up e InvalidInput
               ''MULTISIG_SETUP_PARTICIPANTS_INVALID'')
             (parse_multisig_participants A participants (network_is_mainnet P (my_network M))
               (my_public_key M))) (\<lambda>addresses.
           and_then (map_err (\<lambda>e. from_wallet_storage_operation up e
               ''MULTISIG_SETUP_STATE_READ_FAILED'') (stored_multisig_state M w)) (\<lambda>current.
           if current \<noteq> None
           then Err (xelis_wallet_flutter_error Conflict ''MULTISIG_ALREADY_CONFIGURED''
             ''Multisig is already configured'')
           else Ok addresses)))) of
        Inl e \<Rightarrow> (Err e, s)
      | Inr addresses \<Rightarrow>
          (case preparation_begin (prepared (mw_wallet s)) of
             (Inl e, p) \<Rightarrow>
               (Err (prepared_transaction_error_native e),
                s\<lparr> mw_wallet := (mw_wallet s)\<lparr> prepared := p \<rparr> \<rparr>)
           | (Inr gd, p) \<Rightarrow>
               (let s1 = (mw_wallet s)\<lparr> prepared := p \<rparr> in
                case estimate_target_fee up W (MultiSigType addresses threshold) policy w of
                  Inl e \<Rightarrow> (Err e, s\<lparr> mw_wallet := drop_preparation gd s1 \<rparr>)
                | Inr target_fee \<Rightarrow>
                    (case create_and_commit_prepared_transaction up H W gd
                        (MultiSigType addresses threshold)
                        (KindMultisigSetup threshold
                          (number_participants (map (address_to_string A) addresses)))
                        [] target_fee s1 of
                       (r, s2) \<Rightarrow> (r, s\<lparr> mw_wallet := s2 \<rparr>)))))"

section \<open>Finalizing\<close>

definition finalize_multisig_transaction where
  "finalize_multisig_transaction up H W P M request_id hash_text shares s =
     (case and_then (parse_multisig_signing_hash up H hash_text) (\<lambda>hash.
           and_then (map_err (\<lambda>e. from_wallet_operation up e InvalidInput
               ''MULTISIG_SIGNATURE_SHARES_INVALID'')
             (collect_results (\<lambda>share. parse_multisig_signature_share H P share hash) shares))
             (\<lambda>signatures. Ok (hash, signatures))) of
        Inl e \<Rightarrow> (Err e, s)
      | Inr (hash, signatures) \<Rightarrow>
          (case preparation_begin (prepared (mw_wallet s)) of
             (Inl e, p) \<Rightarrow>
               (Err (prepared_transaction_error_native e),
                s\<lparr> mw_wallet := (mw_wallet s)\<lparr> prepared := p \<rparr> \<rparr>)
           | (Inr gd, p) \<Rightarrow>
               (case take_validated request_id hash (\<lambda>pending.
                   build_verified_multisig P hash (pm_configuration pending) signatures)
                   (mw_pending s) of
                  (Inl e, q) \<Rightarrow>
                    (Err (map_pending_multisig_error up e InvalidInput
                        ''MULTISIG_FINALIZATION_INVALID''),
                     s\<lparr> mw_wallet := (mw_wallet s)\<lparr> prepared := preparation_drop gd p \<rparr>,
                        mw_pending := q \<rparr>)
                | (Inr (pending, multisig), q) \<Rightarrow>
                    (let tx = unsigned_finalize P (my_keypair M)
                           (unsigned_set_multisig M multisig (pm_unsigned pending)) in
                     case preparation_commit gd (tx_hash W tx)
                         (without_review_extra_data tx (pm_state pending)) p of
                       (Inl e, p') \<Rightarrow>
                         (Err (prepared_transaction_error_native e),
                          s\<lparr> mw_wallet := (mw_wallet s)\<lparr> prepared := p' \<rparr>, mw_pending := q \<rparr>)
                     | (Inr preparation_id, p') \<Rightarrow>
                         (Ok \<lparr> np_hash = to_hex H (tx_hash W tx), np_preparation_id = preparation_id,
                               np_fee = tx_fee W tx,
                               np_transaction =
                                 KindMultisigFinalized (pm_transaction_preview pending) \<rparr>,
                          s\<lparr> mw_wallet := (mw_wallet s)\<lparr> prepared := p' \<rparr>, mw_pending := q \<rparr>)))))"

definition cancel_pending_multisig_request where
  "cancel_pending_multisig_request up H request_id hash_text s =
     (case parse_multisig_signing_hash up H hash_text of
        Inl e \<Rightarrow> (Err e, s)
      | Inr hash \<Rightarrow>
          (case pending_cancel request_id hash (mw_pending s) of
             (r, q) \<Rightarrow>
               (map_err (\<lambda>e. map_pending_multisig_error up e NotFound
                  ''MULTISIG_REQUEST_CANCELLATION_FAILED'') r, s\<lparr> mw_pending := q \<rparr>)))"

definition inspect_multisig_signature_share where
  "inspect_multisig_signature_share up H P request_id hash_text encoded s =
     and_then (parse_multisig_signing_hash up H hash_text) (\<lambda>hash.
     and_then (map_err (\<lambda>e. from_wallet_operation up e InvalidInput
         ''MULTISIG_SIGNATURE_SHARE_INVALID'')
       (parse_multisig_signature_share H P encoded hash)) (\<lambda>signature.
     and_then (map_err (\<lambda>e. map_pending_multisig_error up e InvalidInput
         ''MULTISIG_SIGNATURE_SHARE_VERIFICATION_FAILED'')
       (pending_validate request_id hash (\<lambda>pending.
         verify_multisig_signature P hash (pm_configuration pending) signature) (mw_pending s))) (\<lambda>_.
     Ok \<lparr> ns_encoded = trim encoded, ns_signing_hash = to_hex H hash,
          ns_signer_id = ms_id signature, ns_signature = ms_signature signature \<rparr>)))"

section \<open>Taking part\<close>

definition resolve_multisig_signing_configuration where
  "resolve_multisig_signing_configuration up A P M parsed w =
     and_then (map_err (\<lambda>e. from_wallet_operation up (AnyOther e) InvalidInput
         ''MULTISIG_SIGNING_REQUEST_SOURCE_INVALID'') (address_from_string A (pr_source parsed)))
       (\<lambda>source.
     and_then (ensure (has_network_handler M w) (xelis_wallet_flutter_error Offline
         ''MULTISIG_CONFIGURATION_REQUIRES_ONLINE_WALLET''
         ''The wallet must be online to verify a multisig signing request'')) (\<lambda>_.
     and_then (map_err (\<lambda>e. from_wallet_operation up e Network
         ''MULTISIG_CONFIGURATION_LOOKUP_FAILED'') (fetch_multisig M source w)) (\<lambda>remote.
     map_err (\<lambda>e. from_wallet_operation up e RemoteRejected ''MULTISIG_CONFIGURATION_INVALID'')
       (resolve_active_multisig_configuration A P remote (my_public_key M)))))"

definition inspect_multisig_signing_request where
  "inspect_multisig_signing_request up H A P M fresh encoded w =
     and_then (map_err (\<lambda>e. from_wallet_operation up e InvalidInput
         ''MULTISIG_SIGNING_REQUEST_INVALID'')
       (parse_multisig_signing_request H P fresh encoded (my_network M))) (\<lambda>parsed.
     and_then (resolve_multisig_signing_configuration up A P M parsed w) (\<lambda>configuration.
     Ok (into_request H P parsed None (rc_threshold configuration) (rc_participants configuration)
       (rc_signer_id configuration))))"

definition sign_multisig_signing_request where
  "sign_multisig_signing_request up H A P M fresh encoded w =
     and_then (map_err (\<lambda>e. from_wallet_operation up e InvalidInput
         ''MULTISIG_SIGNING_REQUEST_INVALID'')
       (parse_multisig_signing_request H P fresh encoded (my_network M))) (\<lambda>parsed.
     and_then (resolve_multisig_signing_configuration up A P M parsed w) (\<lambda>configuration.
     map_err (\<lambda>e. from_wallet_operation up e InvalidInput ''MULTISIG_PARTICIPANT_UNAUTHORIZED'')
       (create_authorized_multisig_signature_share H P (pr_signing_hash parsed)
         (rc_signer_id configuration) (sign_data M))))"

section \<open>Lemmas\<close>

lemma find_signer_id_snoc:
  "find_signer_id A key (ps @ [p]) =
     (if to_public_key A p = key then Some (word_of_nat (length ps)) else find_signer_id A key ps)"
  by (simp add: find_signer_id_def)

lemma find_signer_id_Some:
  "find_signer_id A key ps = Some i \<Longrightarrow>
   \<exists>n < length ps. i = word_of_nat n \<and> to_public_key A (ps ! n) = key"
proof (induction ps rule: rev_induct)
  case Nil
  then show ?case by (simp add: find_signer_id_def)
next
  case (snoc p ps)
  show ?case
  proof (cases "to_public_key A p = key")
    case True
    then show ?thesis
      using snoc.prems by (intro exI [of _ "length ps"]) (simp add: find_signer_id_snoc)
  next
    case False
    then obtain n where "n < length ps" "i = word_of_nat n" "to_public_key A (ps ! n) = key"
      using snoc by (auto simp: find_signer_id_snoc)
    then show ?thesis by (intro exI [of _ n]) (simp add: nth_append)
  qed
qed

lemma find_signer_id_None:
  "find_signer_id A key ps = None \<longleftrightarrow> key \<notin> to_public_key A ` set ps"
proof (induction ps rule: rev_induct)
  case Nil
  then show ?case by (simp add: find_signer_id_def)
qed (auto simp: find_signer_id_snoc)

lemma find_signer_id_index:
  assumes "find_signer_id A key ps = Some i" "length ps \<le> 255"
  shows "unat i < length ps" "to_public_key A (ps ! unat i) = key"
proof -
  obtain n where "n < length ps" "i = word_of_nat n" "to_public_key A (ps ! n) = key"
    using find_signer_id_Some [OF assms(1)] by blast
  moreover from this assms(2) have "unat i = n"
    by (simp add: unat_of_nat)
  ultimately show "unat i < length ps" "to_public_key A (ps ! unat i) = key" by simp_all
qed

lemma parse_participants_loop_Ok:
  "parse_participants_loop A mainnet key ps acc = Ok r \<Longrightarrow> distinct acc \<Longrightarrow>
   \<exists>as. r = acc @ as \<and> distinct r \<and>
     list_all2 (\<lambda>p a. address_from_string A p = Ok a \<and>
       is_multisig_participant_address_valid A a mainnet key) ps as"
proof (induction ps arbitrary: acc)
  case (Cons p ps)
  then obtain a where a: "address_from_string A p = Ok a"
    "is_multisig_participant_address_valid A a mainnet key" "a \<notin> set acc"
    "parse_participants_loop A mainnet key ps (acc @ [a]) = Ok r"
    by (auto split: sum.splits if_splits)
  then obtain as where "r = (acc @ [a]) @ as" "distinct r"
    "list_all2 (\<lambda>p a. address_from_string A p = Ok a \<and>
       is_multisig_participant_address_valid A a mainnet key) ps as"
    using Cons.IH [OF a(4)] Cons.prems(2) by auto
  then show ?case
    using a by (intro exI [of _ "a # as"]) simp
qed simp

text \<open>What creating a request may do to the wallet: nothing when it fails, and otherwise fill the
  empty pending slot with what the returned request describes.\<close>

definition request_outcome where
  "request_outcome s out =
     (case out of
        (Inl _, s') \<Rightarrow> s' = s
      | (Inr req, s') \<Rightarrow> mw_wallet s' = mw_wallet s \<and> request (mw_pending s) = None \<and>
          (\<exists>g h t. request (mw_pending s') = Some (g, h, t) \<and> sr_request_id req = Some g \<and>
             pending_next_generation (mw_pending s) < g \<and>
             pm_transaction_preview t = sr_transaction req))"

lemma failed_request_outcome [simp]: "request_outcome s (Inl e, s)"
  by (simp add: request_outcome_def)

lemma store_pending_outcome:
  assumes "store_pending_multisig_transaction up H A P M fresh u st ty conf fee q = (r, q')"
  shows "case r of Inl _ \<Rightarrow> q' = q
     | Inr req \<Rightarrow> request q = None \<and> sr_fee req = fee \<and>
        (\<exists>g. request q' = Some (g, unsigned_signing_hash P u,
             \<lparr> pm_unsigned = u, pm_state = st, pm_configuration = conf,
               pm_transaction_preview = sr_transaction req \<rparr>) \<and>
           sr_request_id req = Some g \<and> pending_next_generation q < g)"
  using assms
  by (cases "request q") (auto simp: store_pending_multisig_transaction_def pending_insert_def
      checked_succ_Some(1) split: sum.splits prod.splits if_splits option.splits)

lemma prepare_pending_with_fee_outcome:
  "request_outcome s (prepare_pending_with_fee up H A P M fresh ty fee s)"
proof (cases "pending_signing_hash (mw_pending s) \<noteq> None")
  case False
  let ?built = "and_then (active_multisig_configuration up M (world (mw_wallet s))) (\<lambda>conf.
    and_then (build_unsigned_transaction up M ty fee (mp_threshold conf) (world (mw_wallet s)))
      (\<lambda>(u, st). Ok (conf, u, st)))"
  show ?thesis
  proof (cases ?built)
    case (Inr b)
    obtain conf u st where b: "b = (conf, u, st)" by (cases b)
    obtain r q where stored:
      "store_pending_multisig_transaction up H A P M fresh u st ty conf fee (mw_pending s) = (r, q)"
      by (cases "store_pending_multisig_transaction up H A P M fresh u st ty conf fee (mw_pending s)")
    then have "prepare_pending_with_fee up H A P M fresh ty fee s = (r, s\<lparr> mw_pending := q \<rparr>)"
      using False Inr b by (simp add: prepare_pending_with_fee_def Let_def)
    then show ?thesis
      using store_pending_outcome [OF stored] by (cases r) (auto simp: request_outcome_def)
  qed (use False in \<open>simp add: prepare_pending_with_fee_def Let_def\<close>)
qed (simp add: prepare_pending_with_fee_def)

lemma prepare_pending_outcome: "request_outcome s (prepare_pending up H A W P M fresh ty policy s)"
  by (simp add: prepare_pending_def prepare_pending_with_fee_outcome split: sum.split)

lemma finalize_parsed:
  assumes "from_hex H ht = Ok hash"
    and "collect_results (\<lambda>share. parse_multisig_signature_share H P share hash) shares = Ok sigs"
  shows "finalize_multisig_transaction up H W P M g ht shares s =
     (case preparation_begin (prepared (mw_wallet s)) of
        (Inl e, p) \<Rightarrow> (Err (prepared_transaction_error_native e), s)
      | (Inr gd, p) \<Rightarrow>
          (case take_validated g hash (\<lambda>pending.
              build_verified_multisig P hash (pm_configuration pending) sigs) (mw_pending s) of
             (Inl e, q) \<Rightarrow>
               (Err (map_pending_multisig_error up e InvalidInput ''MULTISIG_FINALIZATION_INVALID''),
                s\<lparr> mw_wallet := (mw_wallet s)\<lparr> prepared := (prepared (mw_wallet s))\<lparr>
                  next_generation := pg_generation gd \<rparr> \<rparr> \<rparr>)
           | (Inr (pending, multisig), q) \<Rightarrow>
               (let tx = unsigned_finalize P (my_keypair M)
                      (unsigned_set_multisig M multisig (pm_unsigned pending)) in
                (Ok \<lparr> np_hash = to_hex H (tx_hash W tx), np_preparation_id = pg_generation gd,
                      np_fee = tx_fee W tx,
                      np_transaction = KindMultisigFinalized (pm_transaction_preview pending) \<rparr>,
                 s\<lparr> mw_wallet := (mw_wallet s)\<lparr> prepared := (prepared (mw_wallet s))\<lparr>
                      next_generation := pg_generation gd,
                      state := Ready (pg_generation gd) (tx_hash W tx)
                        (without_review_extra_data tx (pm_state pending)) \<rparr> \<rparr>,
                    mw_pending := (mw_pending s)\<lparr> request := None \<rparr> \<rparr>))))"
proof (cases "preparation_begin (prepared (mw_wallet s))")
  case (Pair r p)
  let ?take = "take_validated g hash (\<lambda>pending.
    build_verified_multisig P hash (pm_configuration pending) sigs) (mw_pending s)"
  obtain t q where take: "?take = (t, q)" by (cases ?take)
  note unfolded = finalize_multisig_transaction_def parse_multisig_signing_hash_def Let_def assms Pair take
  show ?thesis
  proof (cases r)
    case (Inl e)
    then show ?thesis
      using refused_preparation [of "prepared (mw_wallet s)" e p] Pair by (simp add: unfolded)
  next
    case (Inr gd)
    then have begun: "preparation_begin (prepared (mw_wallet s)) = (Ok gd, p)" using Pair by simp
    show ?thesis
    proof (cases t)
      case (Inl e)
      have "q = mw_pending s" by (rule take_validated_Err [OF take [unfolded Inl]])
      then show ?thesis by (simp add: unfolded \<open>r = _\<close> Inl begun_preparation [OF begun])
    next
      case (Inr t')
      obtain pending multisig where t': "t' = (pending, multisig)" by (cases t')
      then have "q = (mw_pending s)\<lparr> request := None \<rparr>" using take Inr by (simp add: take_validated_Ok)
      then show ?thesis by (simp add: unfolded \<open>r = _\<close> Inr t' begun_preparation [OF begun])
    qed
  qed
qed

section \<open>A concrete instance\<close>

text \<open>Addresses that are their keys; a wallet with the key of the first participant.\<close>

definition demo_members :: "(nat, nat, bool) address_api" where
  "demo_members =
     \<lparr> address_from_string = (\<lambda>s. if s = ''b'' then Ok 2 else if s = ''c'' then Ok 3 else Ok 1),
       address_to_string = (\<lambda>a. if a = 2 then ''b'' else if a = 3 then ''c'' else ''a''),
       address_is_mainnet = (\<lambda>_. False), address_is_normal = (\<lambda>_. True), to_public_key = (\<lambda>a. a),
       extract_data = (\<lambda>a. (None, a)), new_address = (\<lambda>_ _ k. k), element_size = (\<lambda>_. 1),
       extra_data_limit_size = 1024 \<rparr>"

definition demo_multisig_api ::
  "(nat, bool, nat, unit, unit, unit, unit, (u8 \<times> unit) list, unit) multisig_api" where
  "demo_multisig_api =
     \<lparr> my_network = Testnet, my_public_key = 1, my_keypair = (), sign_data = (\<lambda>_. ()),
       stored_multisig_state = (\<lambda>_. Ok None), create_transaction_state = (\<lambda>_ _ _. Ok ()),
       multisig_tx_version = (\<lambda>_. Ok 2), create_unsigned_transaction = (\<lambda>_ _ _ _ _. Ok ((), ())),
       unsigned_set_multisig = (\<lambda>_ u. u), has_network_handler = (\<lambda>_. True),
       fetch_multisig = (\<lambda>_ _. Ok (RemoteActive [1, 2] 1)) \<rparr>"

definition demo_signed_wallet :: "(nat, bool, unit, unit, unit) wallet_api" where
  "demo_signed_wallet =
     \<lparr> wallet_is_online = (\<lambda>_. True), wallet_estimate_fees = (\<lambda>_ _. Ok 3),
       create_transaction = (\<lambda>_ _ w. (Ok ((), ()), w)),
       get_plaintext_balance_for = (\<lambda>_ _. Ok 100), get_tx_version = (\<lambda>_. Ok ()),
       get_synced_topoheight = (\<lambda>_. Ok ()), get_top_block_hash = (\<lambda>_. Ok ()),
       submit_transaction = (\<lambda>_ w. (Ok (), w)), apply_changes = (\<lambda>_ _ w. (Ok (), w)),
       delete_unconfirmed_balances = (\<lambda>w. w), tx_hash = (\<lambda>_. False), tx_fee = (\<lambda>_. 3),
       xelis_asset = True, summary_json = (\<lambda>_ _ _. []) \<rparr>"

definition demo_pending_wallet :: "(bool, unit, unit, unit, unit, unit) multisig_wallet" where
  "demo_pending_wallet =
     \<lparr> mw_wallet = \<lparr> prepared = default_prepared_store, world = () \<rparr>,
       mw_pending = \<lparr> request = Some (1, True, \<lparr> pm_unsigned = (), pm_state = (),
         pm_configuration = \<lparr> mp_threshold = 1, mp_participants = [()] \<rparr>,
         pm_transaction_preview = SigningDeleteMultisig \<rparr>), pending_next_generation = 1 \<rparr> \<rparr>"

lemma demo_signed_share: "parse_multisig_signature_share demo_hash_api demo_protocol_api ''share'' True =
    Ok \<lparr> ms_id = 0, ms_signature = ''s'' \<rparr>"
  by (simp add: parse_multisig_signature_share_def demo_hash_api_def demo_protocol_api_def
      demo_share_def demo_trim check_def with_context_def MAX_MULTISIG_SIGNATURE_SHARE_SIZE_def
      MULTISIG_SIGNATURE_SHARE_VERSION_def)

section \<open>Properties\<close>

text \<open>
  C9: finalizing is all or nothing.  A failed finalization leaves the pending
  request, the prepared transaction and the upstream wallet as they were.  A
  successful one consumes exactly the pending request that the caller named,
  and the slot then holds the transaction finalized with a collection of
  signatures that meets the threshold of the request's own configuration with
  valid signatures of distinct participants over the request's hash.
\<close>

theorem finalization_all_or_nothing:
  assumes "multisig_collection P entries"
  shows "case finalize_multisig_transaction up H W P M g ht shares s of
     (Inl e, s') \<Rightarrow> mw_pending s' = mw_pending s \<and> world (mw_wallet s') = world (mw_wallet s) \<and>
       state (prepared (mw_wallet s')) = state (prepared (mw_wallet s)) \<and>
       active_preparation (prepared (mw_wallet s')) = active_preparation (prepared (mw_wallet s))
   | (Inr np, s') \<Rightarrow> \<exists>hash pending multisig tx.
       from_hex H ht = Ok hash \<and> request (mw_pending s) = Some (g, hash, pending) \<and>
       mw_pending s' = (mw_pending s)\<lparr> request := None \<rparr> \<and>
       tx = unsigned_finalize P (my_keypair M) (unsigned_set_multisig M multisig (pm_unsigned pending)) \<and>
       length (entries multisig) = unat (mp_threshold (pm_configuration pending)) \<and>
       distinct (map fst (entries multisig)) \<and>
       (\<forall>e \<in> set (entries multisig). valid_signature_of P hash (pm_configuration pending) e) \<and>
       state (prepared (mw_wallet s')) = Ready (np_preparation_id np) (tx_hash W tx)
         (without_review_extra_data tx (pm_state pending)) \<and>
       np_transaction np = KindMultisigFinalized (pm_transaction_preview pending) \<and>
       np_hash np = to_hex H (tx_hash W tx)"
proof -
  let ?parse = "\<lambda>hash. collect_results (\<lambda>share. parse_multisig_signature_share H P share hash) shares"
  consider (bad) e where "finalize_multisig_transaction up H W P M g ht shares s = (Err e, s)"
    | (ok) hash sigs where "from_hex H ht = Ok hash" "?parse hash = Ok sigs"
    by (cases "from_hex H ht"; cases "?parse (projr (from_hex H ht))")
      (auto simp: finalize_multisig_transaction_def parse_multisig_signing_hash_def)
  then show ?thesis
  proof cases
    case ok
    show ?thesis
      unfolding finalize_parsed [OF ok] Let_def
      by (auto simp: take_validated_Ok ok(1) dest: build_verified_multisig_Ok [OF assms]
          split: sum.split prod.split)
  qed simp
qed

theorem finalization_all_or_nothing_witness:
  "\<exists>np s'. finalize_multisig_transaction demo_upstream_text demo_hash_api demo_signed_wallet
     demo_protocol_api demo_multisig_api 1 ''1'' [''share''] demo_pending_wallet = (Ok np, s') \<and>
     request (mw_pending s') = None \<and> np_hash np = ''0''"
proof -
  let ?run = "finalize_multisig_transaction demo_upstream_text demo_hash_api demo_signed_wallet
     demo_protocol_api demo_multisig_api 1 ''1'' [''share''] demo_pending_wallet"
  have hex: "from_hex demo_hash_api ''1'' = Ok True" by (simp add: demo_hash_api_def)
  have shares: "collect_results (\<lambda>share. parse_multisig_signature_share demo_hash_api demo_protocol_api
      share True) [''share''] = Ok [\<lparr> ms_id = 0, ms_signature = ''s'' \<rparr>]"
    by (simp add: demo_signed_share)
  have "\<exists>np s'. ?run = (Ok np, s')"
    unfolding finalize_parsed [OF hex shares]
    by (simp add: demo_pending_wallet_def default_prepared_store_def
        preparation_begin_def begin_preparation_def ensure_replaceable_def allocate_generation_def
        checked_add_def take_validated_def pending_validate_def ensure_expected_request_def
        build_verified_multisig_def verify_multisig_signature_def demo_protocol_api_def Let_def
        with_context_def check_def)
  then obtain np s' where run: "?run = (Ok np, s')" by blast
  from finalization_all_or_nothing [OF demo_collection, where up = demo_upstream_text and H = demo_hash_api
      and W = demo_signed_wallet and M = demo_multisig_api and g = 1 and ht = "''1''"
      and shares = "[''share'']" and s = demo_pending_wallet, unfolded run]
  show ?thesis
    using run by (auto simp: demo_hash_api_def demo_signed_wallet_def)
qed

text \<open>
  C10: only an active participant signs, and under its own number.  A share is
  produced only when the node reports an active configuration for the source
  of the request and the participant at the share's signer id has the key of
  the opened wallet; the signature is the wallet's over the hash of the
  unsigned transaction that the request carries.
\<close>

theorem only_participants_sign:
  assumes "sign_multisig_signing_request up H A P M fresh encoded w = Ok share"
    and "max_multisig_participants P \<le> 255"
  shows "\<exists>parsed source participants threshold.
    parse_multisig_signing_request H P fresh encoded (my_network M) = Ok parsed \<and>
    address_from_string A (pr_source parsed) = Ok source \<and>
    fetch_multisig M source w = Ok (RemoteActive participants threshold) \<and>
    unat (ns_signer_id share) < length participants \<and>
    to_public_key A (participants ! unat (ns_signer_id share)) = my_public_key M \<and>
    0 < threshold \<and> unat threshold \<le> length participants \<and>
    ns_signing_hash share = to_hex H (pr_signing_hash parsed) \<and>
    ns_signature share = sig_to_hex P (sign_data M (hash_bytes P (pr_signing_hash parsed)))"
proof -
  obtain parsed source remote conf signer where parsed:
    "parse_multisig_signing_request H P fresh encoded (my_network M) = Ok parsed"
    "address_from_string A (pr_source parsed) = Ok source" "fetch_multisig M source w = Ok remote"
    "resolve_active_multisig_configuration A P remote (my_public_key M) = Ok conf"
    "rc_signer_id conf = Some signer"
    "create_multisig_signature_share H P (pr_signing_hash parsed) signer
       (sign_data M (hash_bytes P (pr_signing_hash parsed))) = Ok share"
    using assms(1)
    by (auto simp: sign_multisig_signing_request_def resolve_multisig_signing_configuration_def
        create_authorized_multisig_signature_share_def result_simps)
  obtain participants threshold where remote: "remote = RemoteActive participants threshold"
    and valid: "validate_multisig_setup P threshold (length participants) = Ok ()"
    and signer: "find_signer_id A (my_public_key M) participants = Some signer"
    using parsed(4,5)
    by (auto simp: resolve_active_multisig_configuration_def result_simps
        split: remote_multisig_state.splits)
  have bounds: "0 < threshold" "unat threshold \<le> length participants" "length participants \<le> 255"
    using valid assms(2)
    by (auto simp: validate_multisig_setup_def word_neq_0_conv split: if_splits)
  have "ns_signer_id share = signer" "ns_signing_hash share = to_hex H (pr_signing_hash parsed)"
    "ns_signature share = sig_to_hex P (sign_data M (hash_bytes P (pr_signing_hash parsed)))"
    using parsed(6) by (auto simp: create_multisig_signature_share_def result_simps Let_def)
  then show ?thesis
    using parsed(1,2,3) remote bounds find_signer_id_index [OF signer bounds(3)] by blast
qed

theorem only_participants_sign_witness:
  "\<exists>share. sign_multisig_signing_request demo_upstream_text demo_hash_api demo_members demo_protocol_api
     demo_multisig_api () ''env'' () = Ok share \<and> unat (ns_signer_id share) < 2"
proof -
  have "\<exists>share. sign_multisig_signing_request demo_upstream_text demo_hash_api demo_members
     demo_protocol_api demo_multisig_api () ''env'' () = Ok share"
    by (simp add: sign_multisig_signing_request_def parse_multisig_signing_request_def
        demo_protocol_api_def demo_envelope_def MAX_MULTISIG_SIGNING_REQUEST_SIZE_def demo_trim
        check_def with_context_def MULTISIG_SIGNING_REQUEST_VERSION_def Let_def
        multisig_request_signing_bytes_def validate_and_build_transaction_preview_def
        demo_hash_api_def resolve_multisig_signing_configuration_def demo_members_def
        demo_multisig_api_def resolve_active_multisig_configuration_def find_signer_id_def
        validate_multisig_setup_def create_authorized_multisig_signature_share_def
        create_multisig_signature_share_def demo_share_def MULTISIG_SIGNATURE_SHARE_VERSION_def
        upt_conv_Cons)
  then obtain share where run: "sign_multisig_signing_request demo_upstream_text demo_hash_api
     demo_members demo_protocol_api demo_multisig_api () ''env'' () = Ok share" by blast
  from only_participants_sign [OF run] show ?thesis
    using run by (auto simp: demo_protocol_api_def demo_multisig_api_def)
qed

text \<open>
  The participants of a new configuration are the ones the user typed, in
  order: every text is an address, no two are the same, and each is a plain
  address of the wallet's network class that is not the wallet's own.
\<close>

theorem participants_parsed_exactly:
  assumes "parse_multisig_participants A texts mainnet key = Ok addresses"
  shows "distinct addresses \<and>
    list_all2 (\<lambda>t a. address_from_string A t = Ok a \<and> address_is_normal A a \<and>
      address_is_mainnet A a = mainnet \<and> to_public_key A a \<noteq> key) texts addresses"
  using parse_participants_loop_Ok [of A mainnet key texts "[]" addresses] assms
  by (simp add: parse_multisig_participants_def is_multisig_participant_address_valid_def)

theorem participants_parsed_exactly_witness:
  "parse_multisig_participants demo_members [''b'', ''c''] False 1 = Ok [2, 3] \<and>
   distinct [2, 3 :: nat] \<and> to_public_key demo_members 2 \<noteq> 1"
proof -
  have run: "parse_multisig_participants demo_members [''b'', ''c''] False 1 = Ok [2, 3]"
    by (simp add: parse_multisig_participants_def is_multisig_participant_address_valid_def
        demo_members_def)
  from participants_parsed_exactly [OF run] run show ?thesis by simp
qed

text \<open>
  At most one request is pending.  Creating a request of any kind touches
  neither the upstream wallet nor the prepared transaction; when it fails it
  changes nothing at all, and when it succeeds no request was pending before
  and the one pending now has a fresh id, which is the id returned, and the
  preview returned.
\<close>

theorem one_pending_request:
  "request_outcome s (create_multisig_transfers_transaction up H A W P M fresh transfers policy s) \<and>
   request_outcome s (create_multisig_transfer_all_transaction up H A W P M fresh dest asset extra encrypt
     policy s) \<and>
   request_outcome s (create_multisig_burn_transaction up H A W P M fresh amount asset_text policy s) \<and>
   request_outcome s (create_multisig_burn_all_transaction up H A W P M fresh asset_text policy s) \<and>
   request_outcome s (init_delete_multisig up H A W P M fresh policy s)"
  by (simp add: create_multisig_transfers_transaction_def create_multisig_transfer_all_transaction_def
      create_multisig_burn_transaction_def create_multisig_burn_all_transaction_def
      init_delete_multisig_def Let_def prepare_pending_outcome prepare_pending_with_fee_outcome
      split: sum.split prod.split)

end
