(* ===== verification/Xswd_Payload.thy ===== *)
theory Xswd_Payload
  imports Rust_Prelude
begin

text \<open>
  The payload projection of \<open>models/xswd_dtos.rs\<close>: a JSON value is flattened into a
  token stream under the resource limits a host configures.  Numbers of the
  JSON library are a type parameter with the three views the code takes of
  them; \<open>umax\<close> is the largest \<open>usize\<close> of the platform.
\<close>

section \<open>Limits\<close>

definition DEFAULT_XSWD_PAYLOAD_DEPTH :: u32 where "DEFAULT_XSWD_PAYLOAD_DEPTH = 64"
definition DEFAULT_XSWD_PAYLOAD_TOKENS :: u32 where "DEFAULT_XSWD_PAYLOAD_TOKENS = 65536"
definition DEFAULT_XSWD_CONTAINER_MEMBERS :: u32 where "DEFAULT_XSWD_CONTAINER_MEMBERS = 4096"
definition DEFAULT_XSWD_TEXT_BYTES :: u32 where "DEFAULT_XSWD_TEXT_BYTES = 4 * 1024 * 1024"
definition DEFAULT_XSWD_TOTAL_TEXT_BYTES :: u32 where "DEFAULT_XSWD_TOTAL_TEXT_BYTES = 8 * 1024 * 1024"
definition TECHNICAL_MAX_XSWD_PAYLOAD_DEPTH :: u32 where "TECHNICAL_MAX_XSWD_PAYLOAD_DEPTH = 128"
definition TECHNICAL_MAX_XSWD_PAYLOAD_TOKENS :: u32 where "TECHNICAL_MAX_XSWD_PAYLOAD_TOKENS = 262144"
definition TECHNICAL_MAX_XSWD_CONTAINER_MEMBERS :: u32 where "TECHNICAL_MAX_XSWD_CONTAINER_MEMBERS = 65536"
definition TECHNICAL_MAX_XSWD_TEXT_BYTES :: u32 where "TECHNICAL_MAX_XSWD_TEXT_BYTES = 8 * 1024 * 1024"
definition TECHNICAL_MAX_XSWD_TOTAL_TEXT_BYTES :: u32 where "TECHNICAL_MAX_XSWD_TOTAL_TEXT_BYTES = 16 * 1024 * 1024"

lemmas limit_defs =
  DEFAULT_XSWD_PAYLOAD_DEPTH_def DEFAULT_XSWD_PAYLOAD_TOKENS_def DEFAULT_XSWD_CONTAINER_MEMBERS_def
  DEFAULT_XSWD_TEXT_BYTES_def DEFAULT_XSWD_TOTAL_TEXT_BYTES_def TECHNICAL_MAX_XSWD_PAYLOAD_DEPTH_def
  TECHNICAL_MAX_XSWD_PAYLOAD_TOKENS_def TECHNICAL_MAX_XSWD_CONTAINER_MEMBERS_def
  TECHNICAL_MAX_XSWD_TEXT_BYTES_def TECHNICAL_MAX_XSWD_TOTAL_TEXT_BYTES_def

record projection_limits =
  max_depth :: u32
  max_tokens :: u32
  max_container_members :: u32
  max_text_bytes :: u32
  max_total_text_bytes :: u32

definition default_projection_limits :: projection_limits where
  "default_projection_limits =
     \<lparr> max_depth = DEFAULT_XSWD_PAYLOAD_DEPTH, max_tokens = DEFAULT_XSWD_PAYLOAD_TOKENS,
       max_container_members = DEFAULT_XSWD_CONTAINER_MEMBERS,
       max_text_bytes = DEFAULT_XSWD_TEXT_BYTES,
       max_total_text_bytes = DEFAULT_XSWD_TOTAL_TEXT_BYTES \<rparr>"

datatype projection_limits_error =
  LimitDepth | LimitTokens | LimitContainerMembers | LimitTextBytes | LimitTotalTextBytes

fun limits_error_code :: "projection_limits_error \<Rightarrow> string" where
  "limits_error_code LimitDepth = ''XSWD_LIMIT_MAX_DEPTH_INVALID''"
| "limits_error_code LimitTokens = ''XSWD_LIMIT_MAX_TOKENS_INVALID''"
| "limits_error_code LimitContainerMembers = ''XSWD_LIMIT_MAX_CONTAINER_MEMBERS_INVALID''"
| "limits_error_code LimitTextBytes = ''XSWD_LIMIT_MAX_TEXT_BYTES_INVALID''"
| "limits_error_code LimitTotalTextBytes = ''XSWD_LIMIT_MAX_TOTAL_TEXT_BYTES_INVALID''"

definition validate_limits ::
  "projection_limits \<Rightarrow> (projection_limits, projection_limits_error) result" where
  "validate_limits l =
     (if max_depth l = 0 \<or> max_depth l > TECHNICAL_MAX_XSWD_PAYLOAD_DEPTH then Err LimitDepth
      else if max_tokens l = 0 \<or> max_tokens l > TECHNICAL_MAX_XSWD_PAYLOAD_TOKENS
      then Err LimitTokens
      else if max_container_members l = 0 \<or>
        max_container_members l > TECHNICAL_MAX_XSWD_CONTAINER_MEMBERS
      then Err LimitContainerMembers
      else if max_text_bytes l = 0 \<or> max_text_bytes l > TECHNICAL_MAX_XSWD_TEXT_BYTES
      then Err LimitTextBytes
      else if max_total_text_bytes l = 0 \<or>
        max_total_text_bytes l > TECHNICAL_MAX_XSWD_TOTAL_TEXT_BYTES \<or>
        max_total_text_bytes l < max_text_bytes l
      then Err LimitTotalTextBytes
      else Ok l)"

section \<open>Values and tokens\<close>

datatype 'n json =
  JNull | JBool bool | JString string | JNumber 'n
| JArray "'n json list" | JObject "(string \<times> 'n json) list"

record ('n, 'f) number_api =
  as_i64 :: "'n \<Rightarrow> int option"
  as_u64 :: "'n \<Rightarrow> nat option"
  as_f64 :: "'n \<Rightarrow> 'f option"

datatype payload_token_kind =
  TokNull | TokBool | TokString | TokInteger | TokFloat | TokArrayStart | TokObjectStart | TokObjectKey

record 'f payload_token =
  tk_kind :: payload_token_kind
  tk_bool_value :: "bool option"
  tk_text_value :: "string option"
  tk_float_value :: "'f option"
  tk_length :: "u32 option"

definition token_with_kind :: "payload_token_kind \<Rightarrow> 'f payload_token" where
  "token_with_kind k = \<lparr> tk_kind = k, tk_bool_value = None, tk_text_value = None,
     tk_float_value = None, tk_length = None \<rparr>"

definition token_null :: "'f payload_token" where
  "token_null = token_with_kind TokNull"
definition token_bool :: "bool \<Rightarrow> 'f payload_token" where
  "token_bool b = (token_with_kind TokBool)\<lparr> tk_bool_value := Some b \<rparr>"
definition token_string :: "string \<Rightarrow> 'f payload_token" where
  "token_string s = (token_with_kind TokString)\<lparr> tk_text_value := Some s \<rparr>"
definition token_integer :: "string \<Rightarrow> 'f payload_token" where
  "token_integer s = (token_with_kind TokInteger)\<lparr> tk_text_value := Some s \<rparr>"
definition token_float :: "'f \<Rightarrow> 'f payload_token" where
  "token_float f = (token_with_kind TokFloat)\<lparr> tk_float_value := Some f \<rparr>"
definition token_array_start :: "u32 \<Rightarrow> 'f payload_token" where
  "token_array_start n = (token_with_kind TokArrayStart)\<lparr> tk_length := Some n \<rparr>"
definition token_object_start :: "u32 \<Rightarrow> 'f payload_token" where
  "token_object_start n = (token_with_kind TokObjectStart)\<lparr> tk_length := Some n \<rparr>"
definition token_object_key :: "string \<Rightarrow> 'f payload_token" where
  "token_object_key s = (token_with_kind TokObjectKey)\<lparr> tk_text_value := Some s \<rparr>"

lemmas token_defs = token_with_kind_def token_null_def token_bool_def token_string_def
  token_integer_def token_float_def token_array_start_def token_object_start_def token_object_key_def

datatype projection_error =
  SerializationError | RootNotObject | DepthLimit | TokenLimit | ContainerLimit | TextLimit
| TotalTextLimit | UnsupportedNumber

fun projection_error_code :: "projection_error \<Rightarrow> string" where
  "projection_error_code SerializationError = ''serialization''"
| "projection_error_code RootNotObject = ''root_not_object''"
| "projection_error_code DepthLimit = ''depth_limit''"
| "projection_error_code TokenLimit = ''token_limit''"
| "projection_error_code ContainerLimit = ''container_limit''"
| "projection_error_code TextLimit = ''text_limit''"
| "projection_error_code TotalTextLimit = ''total_text_limit''"
| "projection_error_code UnsupportedNumber = ''unsupported_number''"

section \<open>Projection\<close>

record 'f payload_projection =
  pj_limits :: projection_limits
  pj_tokens :: "'f payload_token list"
  pj_total_text_bytes :: nat

type_synonym ('f) projected = "('f payload_projection, projection_error) result"

definition new_projection :: "projection_limits \<Rightarrow> 'f payload_projection" where
  "new_projection l = \<lparr> pj_limits = l, pj_tokens = [], pj_total_text_bytes = 0 \<rparr>"

definition push_token :: "'f payload_token \<Rightarrow> 'f payload_projection \<Rightarrow> 'f projected" where
  "push_token t p =
     (if length (pj_tokens p) \<ge> unat (max_tokens (pj_limits p)) then Err TokenLimit
      else Ok (p\<lparr> pj_tokens := pj_tokens p @ [t] \<rparr>))"

definition validate_container_length ::
  "nat \<Rightarrow> 'f payload_projection \<Rightarrow> (unit, projection_error) result" where
  "validate_container_length n p =
     (if n > unat (max_container_members (pj_limits p)) then Err ContainerLimit else Ok ())"

definition add_text :: "nat \<Rightarrow> string \<Rightarrow> 'f payload_projection \<Rightarrow> 'f projected" where
  "add_text umax s p =
     (if length s > unat (max_text_bytes (pj_limits p)) then Err TextLimit
      else if pj_total_text_bytes p + length s > umax then Err TotalTextLimit
      else if pj_total_text_bytes p + length s > unat (max_total_text_bytes (pj_limits p))
      then Err TotalTextLimit
      else Ok (p\<lparr> pj_total_text_bytes := pj_total_text_bytes p + length s \<rparr>))"

definition number_token :: "('n, 'f) number_api \<Rightarrow> 'n \<Rightarrow> ('f payload_token, projection_error) result" where
  "number_token N n =
     (case as_i64 N n of
        Some i \<Rightarrow> Ok (token_integer (decimal_of_int i))
      | None \<Rightarrow>
          (case as_u64 N n of
             Some u \<Rightarrow> Ok (token_integer (decimal_of_nat u))
           | None \<Rightarrow>
               (case as_f64 N n of
                  Some f \<Rightarrow> Ok (token_float f)
                | None \<Rightarrow> Err UnsupportedNumber)))"

fun project_value :: "('n, 'f) number_api \<Rightarrow> nat \<Rightarrow> nat \<Rightarrow> 'n json \<Rightarrow> 'f payload_projection \<Rightarrow> 'f projected"
and project_values :: "('n, 'f) number_api \<Rightarrow> nat \<Rightarrow> nat \<Rightarrow> 'n json list \<Rightarrow> 'f payload_projection \<Rightarrow> 'f projected"
and project_fields ::
  "('n, 'f) number_api \<Rightarrow> nat \<Rightarrow> nat \<Rightarrow> (string \<times> 'n json) list \<Rightarrow> 'f payload_projection \<Rightarrow> 'f projected"
where
  "project_value N umax depth v p =
     (if depth > unat (max_depth (pj_limits p)) then Err DepthLimit
      else case v of
        JNull \<Rightarrow> push_token token_null p
      | JBool b \<Rightarrow> push_token (token_bool b) p
      | JString s \<Rightarrow> and_then (add_text umax s p) (push_token (token_string s))
      | JNumber n \<Rightarrow> and_then (number_token N n) (\<lambda>t. push_token t p)
      | JArray vs \<Rightarrow>
          and_then (validate_container_length (length vs) p) (\<lambda>_.
          and_then (push_token (token_array_start (word_of_nat (length vs))) p)
            (project_values N umax (depth + 1) vs))
      | JObject fs \<Rightarrow>
          and_then (validate_container_length (length fs) p) (\<lambda>_.
          and_then (push_token (token_object_start (word_of_nat (length fs))) p)
            (project_fields N umax (depth + 1) fs)))"
| "project_values N umax depth [] p = Ok p"
| "project_values N umax depth (v # vs) p =
     and_then (project_value N umax depth v p) (project_values N umax depth vs)"
| "project_fields N umax depth [] p = Ok p"
| "project_fields N umax depth ((k, v) # fs) p =
     and_then (add_text umax k p) (\<lambda>p.
     and_then (push_token (token_object_key k) p) (\<lambda>p.
     and_then (project_value N umax depth v p) (project_fields N umax depth fs)))"

fun is_object :: "'n json \<Rightarrow> bool" where
  "is_object (JObject _) = True"
| "is_object _ = False"

definition project_payload ::
  "('n, 'f) number_api \<Rightarrow> nat \<Rightarrow> ('t \<Rightarrow> 'n json option) \<Rightarrow> 't \<Rightarrow> projection_limits
   \<Rightarrow> ('f payload_token list, projection_error) result" where
  "project_payload N umax to_value t l =
     and_then (ok_or (to_value t) SerializationError) (\<lambda>v.
     if \<not> is_object v then Err RootNotObject
     else map_ok pj_tokens (project_value N umax 1 v (new_projection l)))"

section \<open>Reference\<close>

text \<open>What a projection is meant to give, value by value, and what the limits bound.\<close>

fun tokens_of :: "('n, 'f) number_api \<Rightarrow> 'n json \<Rightarrow> 'f payload_token list" where
  "tokens_of N JNull = [token_null]"
| "tokens_of N (JBool b) = [token_bool b]"
| "tokens_of N (JString s) = [token_string s]"
| "tokens_of N (JNumber n) = (case number_token N n of Inr t \<Rightarrow> [t] | Inl _ \<Rightarrow> [])"
| "tokens_of N (JArray vs) =
     token_array_start (word_of_nat (length vs)) # concat (map (tokens_of N) vs)"
| "tokens_of N (JObject fs) =
     token_object_start (word_of_nat (length fs)) #
       concat (map (\<lambda>(k, v). token_object_key k # tokens_of N v) fs)"

fun texts_of :: "'n json \<Rightarrow> string list" where
  "texts_of (JString s) = [s]"
| "texts_of (JArray vs) = concat (map texts_of vs)"
| "texts_of (JObject fs) = concat (map (\<lambda>(k, v). k # texts_of v) fs)"
| "texts_of _ = []"

fun containers_of :: "'n json \<Rightarrow> nat list" where
  "containers_of (JArray vs) = length vs # concat (map containers_of vs)"
| "containers_of (JObject fs) = length fs # concat (map (\<lambda>(k, v). containers_of v) fs)"
| "containers_of _ = []"

fun numbers_of :: "'n json \<Rightarrow> 'n list" where
  "numbers_of (JNumber n) = [n]"
| "numbers_of (JArray vs) = concat (map numbers_of vs)"
| "numbers_of (JObject fs) = concat (map (\<lambda>(k, v). numbers_of v) fs)"
| "numbers_of _ = []"

fun depth_of :: "'n json \<Rightarrow> nat" where
  "depth_of (JArray vs) = Suc (foldr max (map depth_of vs) 0)"
| "depth_of (JObject fs) = Suc (foldr max (map (\<lambda>(k, v). depth_of v) fs) 0)"
| "depth_of _ = 1"

definition within_payload_limits :: "('n, 'f) number_api \<Rightarrow> projection_limits \<Rightarrow> 'n json \<Rightarrow> bool" where
  "within_payload_limits N l v \<longleftrightarrow>
     depth_of v \<le> unat (max_depth l) \<and> length (tokens_of N v) \<le> unat (max_tokens l) \<and>
     list_all (\<lambda>c. c \<le> unat (max_container_members l)) (containers_of v) \<and>
     list_all (\<lambda>s. length s \<le> unat (max_text_bytes l)) (texts_of v) \<and>
     sum_list (map length (texts_of v)) \<le> unat (max_total_text_bytes l) \<and>
     list_all (\<lambda>n. is_ok (number_token N n)) (numbers_of v)"

section \<open>Lemmas\<close>

definition extended :: "'f payload_projection \<Rightarrow> 'f payload_token list \<Rightarrow> string list \<Rightarrow> 'f payload_projection" where
  "extended p toks txts =
     p\<lparr> pj_tokens := pj_tokens p @ toks,
        pj_total_text_bytes := pj_total_text_bytes p + sum_list (map length txts) \<rparr>"

definition fits ::
  "('n, 'f) number_api \<Rightarrow> 'f payload_projection \<Rightarrow> 'f payload_token list \<Rightarrow> string list \<Rightarrow> nat list
   \<Rightarrow> 'n list \<Rightarrow> bool" where
  "fits N p toks txts conts nums \<longleftrightarrow>
     length (pj_tokens p) + length toks \<le> unat (max_tokens (pj_limits p)) \<and>
     pj_total_text_bytes p + sum_list (map length txts) \<le> unat (max_total_text_bytes (pj_limits p)) \<and>
     list_all (\<lambda>s. length s \<le> unat (max_text_bytes (pj_limits p))) txts \<and>
     list_all (\<lambda>c. c \<le> unat (max_container_members (pj_limits p))) conts \<and>
     list_all (\<lambda>n. is_ok (number_token N n)) nums"

lemma extended_limits [simp]: "pj_limits (extended p toks txts) = pj_limits p"
  by (simp add: extended_def)

lemma extended_extended [simp]:
  "extended (extended p a b) a' b' = extended p (a @ a') (b @ b')"
  by (simp add: extended_def)

lemma extended_Nil [simp]: "extended p [] [] = p"
  by (simp add: extended_def)

lemma fits_append:
  "fits N p (a @ a') (b @ b') (c @ c') (d @ d') \<longleftrightarrow>
     fits N p a b c d \<and> fits N (extended p a b) a' b' c' d'"
  by (auto simp: fits_def extended_def)

lemma push_token_Ok:
  "fits N p [] [] [] [] \<Longrightarrow>
   push_token t p = Ok q \<longleftrightarrow> fits N p [t] [] [] [] \<and> q = extended p [t] []"
  by (auto simp: push_token_def fits_def extended_def)

lemma add_text_Ok:
  "unat (max_total_text_bytes (pj_limits p)) \<le> umax \<Longrightarrow> fits N p [] [] [] [] \<Longrightarrow>
   add_text umax s p = Ok q \<longleftrightarrow> fits N p [] [s] [] [] \<and> q = extended p [] [s]"
  by (auto simp: add_text_def fits_def extended_def)

lemma validate_container_length_Ok:
  "fits N p [] [] [] [] \<Longrightarrow> validate_container_length n p = Ok u \<longleftrightarrow> fits N p [] [] [n] []"
  by (auto simp: validate_container_length_def fits_def)

lemma foldr_max_le: "d + foldr max xs 0 \<le> (n :: nat) \<longleftrightarrow> d \<le> n \<and> (\<forall>x \<in> set xs. d + x \<le> n)"
  by (induction xs) auto

lemma fits_Nil: "fits N p a b c d \<Longrightarrow> fits N (extended p a b) [] [] [] []"
  by (simp add: fits_def extended_def)

lemma fits_start:
  "fits N p (t # a) b (n # c) d \<longleftrightarrow>
     fits N p [] [] [n] [] \<and> fits N p [t] [] [] [] \<and> fits N (extended p [t] []) a b c d"
  by (auto simp: fits_def extended_def)

lemma fits_field:
  "fits N p (t # a @ a') (s # b @ b') (c @ c') (d @ d') \<longleftrightarrow>
     fits N p [] [s] [] [] \<and> fits N (extended p [] [s]) [t] [] [] [] \<and>
     fits N (extended p [t] [s]) a b c d \<and> fits N (extended p (t # a) (s # b)) a' b' c' d'"
  by (auto simp: fits_def extended_def)

declare project_value.simps [simp del]

text \<open>The projection of a value is exact when it adds the reference tokens and succeeds exactly when
  depth and budgets allow.\<close>

definition projects_exactly :: "('n, 'f) number_api \<Rightarrow> nat \<Rightarrow> 'n json \<Rightarrow> bool" where
  "projects_exactly N umax v \<longleftrightarrow>
     (\<forall>d p q. unat (max_total_text_bytes (pj_limits p)) \<le> umax \<longrightarrow> fits N p [] [] [] [] \<longrightarrow>
        project_value N umax d v p = Ok q \<longleftrightarrow>
          d + depth_of v \<le> Suc (unat (max_depth (pj_limits p))) \<and>
          fits N p (tokens_of N v) (texts_of v) (containers_of v) (numbers_of v) \<and>
          q = extended p (tokens_of N v) (texts_of v))"

lemma projects_exactlyD:
  assumes "projects_exactly N umax v" "unat (max_total_text_bytes (pj_limits p)) \<le> umax"
    "fits N p a b c e"
  shows "project_value N umax d v (extended p a b) = Ok q \<longleftrightarrow>
    d + depth_of v \<le> Suc (unat (max_depth (pj_limits p))) \<and>
    fits N (extended p a b) (tokens_of N v) (texts_of v) (containers_of v) (numbers_of v) \<and>
    q = extended p (a @ tokens_of N v) (b @ texts_of v)"
  using assms(1) [unfolded projects_exactly_def, rule_format, of "extended p a b"]
    assms(2) fits_Nil [OF assms(3)] by simp

lemma project_values_exact:
  assumes "\<And>v. v \<in> set vs \<Longrightarrow> projects_exactly N umax v"
    and "unat (max_total_text_bytes (pj_limits p)) \<le> umax" "fits N p [] [] [] []"
  shows "project_values N umax d vs p = Ok q \<longleftrightarrow>
     (\<forall>v \<in> set vs. d + depth_of v \<le> Suc (unat (max_depth (pj_limits p)))) \<and>
     fits N p (concat (map (tokens_of N) vs)) (concat (map texts_of vs))
       (concat (map containers_of vs)) (concat (map numbers_of vs)) \<and>
     q = extended p (concat (map (tokens_of N) vs)) (concat (map texts_of vs))"
  using assms
proof (induction vs arbitrary: p)
  case (Cons v vs)
  let ?p = "extended p (tokens_of N v) (texts_of v)"
  have "project_values N umax d (v # vs) p = Ok q \<longleftrightarrow>
      (\<exists>r. project_value N umax d v p = Ok r \<and> project_values N umax d vs r = Ok q)"
    by (simp add: result_simps)
  also have "\<dots> \<longleftrightarrow> d + depth_of v \<le> Suc (unat (max_depth (pj_limits p))) \<and>
      fits N p (tokens_of N v) (texts_of v) (containers_of v) (numbers_of v) \<and>
      project_values N umax d vs ?p = Ok q"
    using projects_exactlyD [of N umax v p "[]" "[]" "[]" "[]"] Cons.prems by auto
  also have "\<dots> \<longleftrightarrow> (\<forall>w \<in> set (v # vs). d + depth_of w \<le> Suc (unat (max_depth (pj_limits p)))) \<and>
      fits N p (tokens_of N v) (texts_of v) (containers_of v) (numbers_of v) \<and>
      fits N ?p (concat (map (tokens_of N) vs)) (concat (map texts_of vs))
       (concat (map containers_of vs)) (concat (map numbers_of vs)) \<and>
      q = extended p (concat (map (tokens_of N) (v # vs))) (concat (map texts_of (v # vs)))"
    using Cons.IH [of ?p] Cons.prems by (auto dest: fits_Nil)
  finally show ?case
    by (simp add: fits_append conj_assoc)
qed auto

lemma project_fields_exact:
  assumes "\<And>k v. (k, v) \<in> set fs \<Longrightarrow> projects_exactly N umax v"
    and "unat (max_total_text_bytes (pj_limits p)) \<le> umax" "fits N p [] [] [] []"
  shows "project_fields N umax d fs p = Ok q \<longleftrightarrow>
     (\<forall>(k, v) \<in> set fs. d + depth_of v \<le> Suc (unat (max_depth (pj_limits p)))) \<and>
     fits N p (concat (map (\<lambda>(k, v). token_object_key k # tokens_of N v) fs))
       (concat (map (\<lambda>(k, v). k # texts_of v) fs))
       (concat (map (\<lambda>(k, v). containers_of v) fs)) (concat (map (\<lambda>(k, v). numbers_of v) fs)) \<and>
     q = extended p (concat (map (\<lambda>(k, v). token_object_key k # tokens_of N v) fs))
       (concat (map (\<lambda>(k, v). k # texts_of v) fs))"
  using assms
proof (induction fs arbitrary: p)
  case (Cons f fs)
  obtain k v where f: "f = (k, v)" by (cases f)
  let ?t = "token_object_key k :: 'b payload_token"
  let ?p = "extended p (?t # tokens_of N v) (k # texts_of v)"
  have key: "add_text umax k p = Ok p1 \<longleftrightarrow> fits N p [] [k] [] [] \<and> p1 = extended p [] [k]" for p1
    using add_text_Ok [OF Cons.prems(2,3)] .
  have push: "push_token ?t (extended p [] [k]) = Ok p2 \<longleftrightarrow>
      fits N (extended p [] [k]) [?t] [] [] [] \<and> p2 = extended p [?t] [k]"
    if "fits N p [] [k] [] []" for p2
    using push_token_Ok [OF fits_Nil [OF that]] by simp
  have exact: "projects_exactly N umax v" using Cons.prems(1) [of k v] by (simp add: f)
  have pair: "fits N p [] [k] [] [] \<and> fits N (extended p [] [k]) [?t] [] [] [] \<longleftrightarrow> fits N p [?t] [k] [] []"
    using fits_append [of N p "[]" "[?t]" "[k]" "[]" "[]" "[]" "[]" "[]"] by simp
  have val: "project_value N umax d v (extended p [?t] [k]) = Ok r \<longleftrightarrow>
      d + depth_of v \<le> Suc (unat (max_depth (pj_limits p))) \<and>
      fits N (extended p [?t] [k]) (tokens_of N v) (texts_of v) (containers_of v) (numbers_of v) \<and>
      r = ?p" if "fits N p [?t] [k] [] []" for r
    using projects_exactlyD [OF exact Cons.prems(2) that] by simp
  have "project_fields N umax d (f # fs) p = Ok q \<longleftrightarrow>
      (\<exists>p1 p2 r. add_text umax k p = Ok p1 \<and> push_token ?t p1 = Ok p2 \<and>
         project_value N umax d v p2 = Ok r \<and> project_fields N umax d fs r = Ok q)"
    by (auto simp: f result_simps)
  also have "\<dots> \<longleftrightarrow> fits N p [] [k] [] [] \<and> fits N (extended p [] [k]) [?t] [] [] [] \<and>
      (\<exists>r. project_value N umax d v (extended p [?t] [k]) = Ok r \<and> project_fields N umax d fs r = Ok q)"
    by (cases "fits N p [] [k] [] []") (simp_all add: key push)
  also have "\<dots> \<longleftrightarrow> d + depth_of v \<le> Suc (unat (max_depth (pj_limits p))) \<and>
      fits N p [] [k] [] [] \<and> fits N (extended p [] [k]) [?t] [] [] [] \<and>
      fits N (extended p [?t] [k]) (tokens_of N v) (texts_of v) (containers_of v) (numbers_of v) \<and>
      project_fields N umax d fs ?p = Ok q"
    by (cases "fits N p [?t] [k] [] []") (use pair val in auto)
  also have "\<dots> \<longleftrightarrow> (\<forall>(k, w) \<in> set (f # fs). d + depth_of w \<le> Suc (unat (max_depth (pj_limits p)))) \<and>
      fits N p [] [k] [] [] \<and> fits N (extended p [] [k]) [?t] [] [] [] \<and>
      fits N (extended p [?t] [k]) (tokens_of N v) (texts_of v) (containers_of v) (numbers_of v) \<and>
      fits N ?p (concat (map (\<lambda>(k, v). token_object_key k # tokens_of N v) fs))
       (concat (map (\<lambda>(k, v). k # texts_of v) fs))
       (concat (map (\<lambda>(k, v). containers_of v) fs)) (concat (map (\<lambda>(k, v). numbers_of v) fs)) \<and>
      q = extended p (concat (map (\<lambda>(k, v). token_object_key k # tokens_of N v) (f # fs)))
       (concat (map (\<lambda>(k, v). k # texts_of v) (f # fs)))"
    using Cons.IH [of ?p] Cons.prems fits_Nil [of N "extended p [?t] [k]" "tokens_of N v" "texts_of v"]
    by (auto simp: f)
  finally show ?case
    by (simp add: f fits_field conj_assoc)
qed auto

lemma project_value_JString:
  assumes "unat (max_total_text_bytes (pj_limits p)) \<le> umax" "fits N p [] [] [] []"
  shows "and_then (add_text umax s p) (push_token (token_string s)) = Ok q \<longleftrightarrow>
    fits N p [token_string s] [s] [] [] \<and> q = extended p [token_string s] [s]"
proof -
  have "fits N p [token_string s] [s] [] [] \<longleftrightarrow>
      fits N p [] [s] [] [] \<and> fits N (extended p [] [s]) [token_string s] [] [] []"
    by (auto simp: fits_def extended_def)
  moreover have "push_token (token_string s) (extended p [] [s]) = Ok q \<longleftrightarrow>
      fits N (extended p [] [s]) [token_string s] [] [] [] \<and> q = extended p [token_string s] [s]"
    if "fits N p [] [s] [] []"
    using push_token_Ok [OF fits_Nil [OF that]] by simp
  ultimately show ?thesis
    unfolding and_then_Ok add_text_Ok [OF assms] by blast
qed

lemma project_value_JNumber:
  assumes "fits N p [] [] [] []"
  shows "and_then (number_token N n) (\<lambda>t. push_token t p) = Ok q \<longleftrightarrow>
    fits N p (tokens_of N (JNumber n)) [] [] [n] \<and> q = extended p (tokens_of N (JNumber n)) []"
proof (cases "number_token N n")
  case (Inl e)
  then show ?thesis by (simp add: fits_def)
next
  case (Inr t)
  then have "fits N p [t] [] [] [n] \<longleftrightarrow> fits N p [t] [] [] []" by (simp add: fits_def)
  then show ?thesis using Inr push_token_Ok [OF assms] by simp
qed

lemma container_Ok:
  assumes "fits N p [] [] [] []"
  shows "and_then (validate_container_length n p) (\<lambda>_. and_then (push_token t p) k) = Ok q \<longleftrightarrow>
    fits N p [] [] [n] [] \<and> fits N p [t] [] [] [] \<and> k (extended p [t] []) = Ok q"
  unfolding and_then_Ok validate_container_length_Ok [OF assms] push_token_Ok [OF assms] by blast

lemma project_value_exact: "projects_exactly N umax v"
proof (induction v)
  case (JArray vs)
  show ?case
    unfolding projects_exactly_def
  proof (intro allI impI)
    fix d p q
    assume pre: "unat (max_total_text_bytes (pj_limits p)) \<le> umax" "fits N p [] [] [] []"
    let ?t = "token_array_start (word_of_nat (length vs))"
    have rest: "project_values N umax (d + 1) vs (extended p [?t] []) = Ok q \<longleftrightarrow>
       (\<forall>v \<in> set vs. d + 1 + depth_of v \<le> Suc (unat (max_depth (pj_limits p)))) \<and>
       fits N (extended p [?t] []) (concat (map (tokens_of N) vs)) (concat (map texts_of vs))
         (concat (map containers_of vs)) (concat (map numbers_of vs)) \<and>
       q = extended p (tokens_of N (JArray vs)) (texts_of (JArray vs))" if "fits N p [?t] [] [] []"
      using project_values_exact [OF JArray _ fits_Nil [OF that]] pre(1) by simp
    show "project_value N umax d (JArray vs) p = Ok q \<longleftrightarrow>
       d + depth_of (JArray vs) \<le> Suc (unat (max_depth (pj_limits p))) \<and>
       fits N p (tokens_of N (JArray vs)) (texts_of (JArray vs)) (containers_of (JArray vs))
         (numbers_of (JArray vs)) \<and>
       q = extended p (tokens_of N (JArray vs)) (texts_of (JArray vs))"
      unfolding project_value.simps [of N umax d "JArray vs" p]
      by (cases "fits N p [?t] [] [] []")
        (auto simp: container_Ok [OF pre(2)] rest [simplified] fits_start foldr_max_le)
  qed
next
  case (JObject fs)
  have fields: "projects_exactly N umax v" if "(k, v) \<in> set fs" for k v
    using JObject [OF that] by simp
  show ?case
    unfolding projects_exactly_def
  proof (intro allI impI)
    fix d p q
    assume pre: "unat (max_total_text_bytes (pj_limits p)) \<le> umax" "fits N p [] [] [] []"
    let ?t = "token_object_start (word_of_nat (length fs))"
    have rest: "project_fields N umax (d + 1) fs (extended p [?t] []) = Ok q \<longleftrightarrow>
       (\<forall>(k, v) \<in> set fs. d + 1 + depth_of v \<le> Suc (unat (max_depth (pj_limits p)))) \<and>
       fits N (extended p [?t] []) (concat (map (\<lambda>(k, v). token_object_key k # tokens_of N v) fs))
         (concat (map (\<lambda>(k, v). k # texts_of v) fs))
         (concat (map (\<lambda>(k, v). containers_of v) fs)) (concat (map (\<lambda>(k, v). numbers_of v) fs)) \<and>
       q = extended p (tokens_of N (JObject fs)) (texts_of (JObject fs))" if "fits N p [?t] [] [] []"
      using project_fields_exact [OF fields _ fits_Nil [OF that]] pre(1) by simp
    show "project_value N umax d (JObject fs) p = Ok q \<longleftrightarrow>
       d + depth_of (JObject fs) \<le> Suc (unat (max_depth (pj_limits p))) \<and>
       fits N p (tokens_of N (JObject fs)) (texts_of (JObject fs)) (containers_of (JObject fs))
         (numbers_of (JObject fs)) \<and>
       q = extended p (tokens_of N (JObject fs)) (texts_of (JObject fs))"
      unfolding project_value.simps [of N umax d "JObject fs" p]
      by (cases "fits N p [?t] [] [] []")
        (auto simp: container_Ok [OF pre(2)] rest [simplified] fits_start foldr_max_le)
  qed
qed (simp_all add: projects_exactly_def project_value.simps push_token_Ok project_value_JString project_value_JNumber not_less)

section \<open>Unique reading\<close>

text \<open>What the stream carries of a number: its decimal text or its float.\<close>

definition number_view :: "('n, 'f) number_api \<Rightarrow> 'n \<Rightarrow> (string option \<times> 'f option) option" where
  "number_view N n =
     (case number_token N n of
        Inr t \<Rightarrow> Some (tk_text_value t, tk_float_value t)
      | Inl _ \<Rightarrow> None)"

definition readable :: "('n, 'f) number_api \<Rightarrow> 'n json \<Rightarrow> bool" where
  "readable N v \<longleftrightarrow> list_all (\<lambda>c. c < 2 ^ 32) (containers_of v) \<and>
     list_all (\<lambda>n. is_ok (number_token N n)) (numbers_of v)"

lemma readable_simps [simp]:
  "readable N (JArray vs) \<longleftrightarrow> length vs < 2 ^ 32 \<and> list_all (readable N) vs"
  "readable N (JObject fs) \<longleftrightarrow> length fs < 2 ^ 32 \<and> list_all (\<lambda>(k, v). readable N v) fs"
  by (auto simp: readable_def list_all_iff)

lemma number_token_kind:
  "number_token N n = Ok t \<Longrightarrow>
   tk_kind t = TokInteger \<and> tk_float_value t = None \<or> tk_kind t = TokFloat \<and> tk_text_value t = None"
  by (auto simp: number_token_def token_defs split: option.splits)

lemma container_length_inj:
  "m < 4294967296 \<Longrightarrow> n < 4294967296 \<Longrightarrow> (word_of_nat m :: u32) = word_of_nat n \<Longrightarrow> m = n"
  by (drule arg_cong [of _ _ unat]) (simp add: unat_of_nat)

lemma tokens_start:
  assumes "readable N v" "t # r = tokens_of N v @ r'"
  shows "case tk_kind t of
      TokNull \<Rightarrow> v = JNull
    | TokBool \<Rightarrow> (\<exists>b. v = JBool b)
    | TokString \<Rightarrow> (\<exists>s. v = JString s)
    | TokArrayStart \<Rightarrow> (\<exists>vs. v = JArray vs)
    | TokObjectStart \<Rightarrow> (\<exists>fs. v = JObject fs)
    | TokObjectKey \<Rightarrow> False
    | _ \<Rightarrow> (\<exists>n. v = JNumber n \<and> number_token N n = Ok t)"
proof (cases v)
  case (JNumber n)
  then have "number_token N n = Ok t"
    using assms by (auto simp: readable_def result_simps)
  then show ?thesis
    using JNumber number_token_kind by fastforce
qed (use assms in \<open>auto simp: token_defs\<close>)

lemma start_inj:
  "token_array_start m = token_array_start n \<longleftrightarrow> m = n"
  "token_object_start m = token_object_start n \<longleftrightarrow> m = n"
  by (auto simp: token_defs)

lemma start_kind: "tk_kind (token_array_start m) = TokArrayStart" "tk_kind (token_object_start m) = TokObjectStart"
  by (simp_all add: token_defs)

definition reads_uniquely :: "('n, 'f) number_api \<Rightarrow> 'n json \<Rightarrow> bool" where
  "reads_uniquely N v \<longleftrightarrow>
     (\<forall>v' r r'. readable N v' \<longrightarrow> tokens_of N v @ r = tokens_of N v' @ r' \<longrightarrow>
        map_json (number_view N) v = map_json (number_view N) v' \<and> r = r')"

lemma reads_uniquely_values:
  assumes "length vs = length ws" "\<And>v. v \<in> set vs \<Longrightarrow> reads_uniquely N v" "list_all (readable N) ws"
    and "concat (map (tokens_of N) vs) @ r = concat (map (tokens_of N) ws) @ r'"
  shows "map (map_json (number_view N)) vs = map (map_json (number_view N)) ws \<and> r = r'"
  using assms
proof (induction vs ws arbitrary: r r' rule: list_induct2)
  case (Cons v vs w ws)
  have "map_json (number_view N) v = map_json (number_view N) w \<and>
      concat (map (tokens_of N) vs) @ r = concat (map (tokens_of N) ws) @ r'"
    using Cons.prems(1) [of v] Cons.prems(2,3) by (auto simp: reads_uniquely_def)
  then show ?case using Cons.IH [of r r'] Cons.prems by simp
qed simp

lemma reads_uniquely_fields:
  assumes "length fs = length gs" "\<And>k v. (k, v) \<in> set fs \<Longrightarrow> reads_uniquely N v"
    and "list_all (\<lambda>(k, v). readable N v) gs"
    and "concat (map (\<lambda>(k, v). token_object_key k # tokens_of N v) fs) @ r =
      concat (map (\<lambda>(k, v). token_object_key k # tokens_of N v) gs) @ r'"
  shows "map (map_prod id (map_json (number_view N))) fs =
      map (map_prod id (map_json (number_view N))) gs \<and> r = r'"
  using assms
proof (induction fs gs arbitrary: r r' rule: list_induct2)
  case (Cons f fs g gs)
  obtain k v l w where fg: "f = (k, v)" "g = (l, w)" by (cases f; cases g)
  have "k = l"
    using Cons.prems(3) by (simp add: fg token_defs)
  moreover have "map_json (number_view N) v = map_json (number_view N) w \<and>
      concat (map (\<lambda>(k, v). token_object_key k # tokens_of N v) fs) @ r =
      concat (map (\<lambda>(k, v). token_object_key k # tokens_of N v) gs) @ r'"
    using Cons.prems(1) [of k v] Cons.prems(2,3) by (auto simp: reads_uniquely_def fg)
  moreover have "reads_uniquely N u" if "(j, u) \<in> set fs" for j u
    using Cons.prems(1) [of j u] that by simp
  ultimately show ?case using Cons.IH [of r r'] Cons.prems(2) by (simp add: fg)
qed simp

lemma reads_uniquely_leaf:
  "reads_uniquely N JNull" "reads_uniquely N (JBool b)" "reads_uniquely N (JString s)"
proof -
  have null: "v = JNull" if "readable N v" "token_null # r = tokens_of N v @ r'" for v r r'
    using tokens_start [OF that] by (simp add: token_defs)
  have bool: "v = JBool b" if "readable N v" "token_bool b # r = tokens_of N v @ r'" for v r r'
    using tokens_start [OF that] that(2) by (auto simp: token_defs)
  have string: "v = JString s" if "readable N v" "token_string s # r = tokens_of N v @ r'" for v r r'
    using tokens_start [OF that] that(2) by (auto simp: token_defs)
  show "reads_uniquely N JNull" "reads_uniquely N (JBool b)" "reads_uniquely N (JString s)"
    unfolding reads_uniquely_def using null bool string by fastforce+
qed

lemma reads_uniquelyI:
  "(\<And>v' r r'. readable N v' \<Longrightarrow> tokens_of N v @ r = tokens_of N v' @ r' \<Longrightarrow>
     map_json (number_view N) v = map_json (number_view N) v' \<and> r = r') \<Longrightarrow> reads_uniquely N v"
  by (simp add: reads_uniquely_def)

lemma reads_uniquely_number:
  assumes "readable N (JNumber n)"
  shows "reads_uniquely N (JNumber n)"
proof (rule reads_uniquelyI)
  fix v' r r'
  assume v': "readable N v'" "tokens_of N (JNumber n) @ r = tokens_of N v' @ r'"
  obtain t where t: "number_token N n = Ok t"
    using assms by (auto simp: readable_def result_simps)
  have "t # r = tokens_of N v' @ r'" using v'(2) t by simp
  from tokens_start [OF v'(1) this] number_token_kind [OF t]
  obtain m where "v' = JNumber m" "number_token N m = Ok t" by auto
  then show "map_json (number_view N) (JNumber n) = map_json (number_view N) v' \<and> r = r'"
    using v'(2) t by (simp add: number_view_def)
qed

lemma reads_uniquely_array:
  assumes "\<And>v. v \<in> set vs \<Longrightarrow> reads_uniquely N v" "length vs < 4294967296"
  shows "reads_uniquely N (JArray vs)"
proof (rule reads_uniquelyI)
  fix v' r r'
  assume v': "readable N v'" "tokens_of N (JArray vs) @ r = tokens_of N v' @ r'"
  then have "token_array_start (word_of_nat (length vs)) # concat (map (tokens_of N) vs) @ r =
    tokens_of N v' @ r'" by simp
  from tokens_start [OF v'(1) this] obtain ws where ws: "v' = JArray ws"
    by (auto simp: start_kind)
  have "(word_of_nat (length vs) :: u32) = word_of_nat (length ws)"
    and rest: "concat (map (tokens_of N) vs) @ r = concat (map (tokens_of N) ws) @ r'"
    using v'(2) by (simp_all add: ws start_inj)
  then have "length vs = length ws"
    using container_length_inj [OF assms(2)] v'(1) by (simp add: ws)
  from reads_uniquely_values [OF this assms(1) _ rest] v'(1)
  show "map_json (number_view N) (JArray vs) = map_json (number_view N) v' \<and> r = r'"
    by (simp add: ws)
qed

lemma reads_uniquely_object:
  assumes "\<And>k v. (k, v) \<in> set fs \<Longrightarrow> reads_uniquely N v" "length fs < 4294967296"
  shows "reads_uniquely N (JObject fs)"
proof (rule reads_uniquelyI)
  fix v' r r'
  assume v': "readable N v'" "tokens_of N (JObject fs) @ r = tokens_of N v' @ r'"
  then have "token_object_start (word_of_nat (length fs)) #
    concat (map (\<lambda>(k, v). token_object_key k # tokens_of N v) fs) @ r = tokens_of N v' @ r'" by simp
  from tokens_start [OF v'(1) this] obtain gs where gs: "v' = JObject gs"
    by (auto simp: start_kind)
  have "(word_of_nat (length fs) :: u32) = word_of_nat (length gs)"
    and rest: "concat (map (\<lambda>(k, v). token_object_key k # tokens_of N v) fs) @ r =
       concat (map (\<lambda>(k, v). token_object_key k # tokens_of N v) gs) @ r'"
    using v'(2) by (simp_all add: gs start_inj)
  then have "length fs = length gs"
    using container_length_inj [OF assms(2)] v'(1) by (simp add: gs)
  from reads_uniquely_fields [OF this assms(1) _ rest] v'(1)
  show "map_json (number_view N) (JObject fs) = map_json (number_view N) v' \<and> r = r'"
    by (simp add: gs)
qed

lemma tokens_read_uniquely: "readable N v \<Longrightarrow> reads_uniquely N v"
proof (induction v)
  case (JNumber n)
  then show ?case by (rule reads_uniquely_number)
next
  case (JArray vs)
  then show ?case by (intro reads_uniquely_array) (simp_all add: list_all_iff)
next
  case (JObject fs)
  have "reads_uniquely N v" if "(k, v) \<in> set fs" for k v
  proof (rule JObject.IH [OF that])
    show "readable N v" using JObject.prems that by (auto simp: list_all_iff)
  qed simp
  then show ?case using JObject.prems by (intro reads_uniquely_object) simp_all
qed (rule reads_uniquely_leaf)+

lemma within_limits_fits:
  "fits N (new_projection l) (tokens_of N v) (texts_of v) (containers_of v) (numbers_of v) \<and>
     depth_of v \<le> unat (max_depth l) \<longleftrightarrow> within_payload_limits N l v"
  by (auto simp: fits_def new_projection_def within_payload_limits_def)

lemma new_projection_limits [simp]: "pj_limits (new_projection l) = l"
  by (simp add: new_projection_def)

lemma project_payload_Ok:
  assumes "unat (max_total_text_bytes l) \<le> umax"
  shows "project_payload N umax to_value t l = Ok toks \<longleftrightarrow>
    (\<exists>v. to_value t = Some v \<and> is_object v \<and> within_payload_limits N l v \<and> toks = tokens_of N v)"
proof -
  have new: "fits N (new_projection l) [] [] [] []"
    by (simp add: new_projection_def fits_def)
  have "project_value N umax 1 v (new_projection l) = Ok q \<longleftrightarrow>
      within_payload_limits N l v \<and> q = extended (new_projection l) (tokens_of N v) (texts_of v)" for v q
    using projects_exactlyD [OF project_value_exact _ new, of umax 1 v q] assms
      within_limits_fits [of N l v] by simp blast
  moreover have "pj_tokens (extended (new_projection l) a b) = a" for a b
    by (simp add: extended_def new_projection_def)
  ultimately show ?thesis
    by (cases "to_value t") (auto simp: project_payload_def result_simps)
qed

lemma within_limits_readable:
  assumes "within_payload_limits N l v"
  shows "readable N v"
proof -
  have "c < 2 ^ 32" if "c \<le> unat (max_container_members l)" for c
    using that unat_u32_less [of "max_container_members l"] by simp
  then show ?thesis
    using assms by (auto simp: within_payload_limits_def readable_def list_all_iff)
qed

section \<open>A concrete instance\<close>

definition demo_numbers :: "(int, unit) number_api" where
  "demo_numbers = \<lparr> as_i64 = Some, as_u64 = (\<lambda>_. None), as_f64 = (\<lambda>_. None) \<rparr>"

definition demo_payload :: "int json" where
  "demo_payload = JObject [(''id'', JNumber 7), (''args'', JArray [JNull, JString ''x''])]"

lemma demo_within: "within_payload_limits demo_numbers default_projection_limits demo_payload"
  by (simp add: within_payload_limits_def demo_payload_def demo_numbers_def number_token_def
      default_projection_limits_def limit_defs)

lemma demo_object: "is_object demo_payload"
  by (simp add: demo_payload_def)

lemma demo_umax: "unat (max_total_text_bytes default_projection_limits) \<le> 4294967295"
  by (simp add: default_projection_limits_def limit_defs)

section \<open>Properties\<close>

text \<open>
  C22: a payload is projected exactly when it respects every limit.  The
  projection succeeds if and only if the value serializes to an object whose
  depth, number of tokens, largest container, longest text and total text are
  within the limits and whose numbers have a supported form, and the tokens
  are then those of the reference definition.
\<close>

theorem payload_projection_exact:
  assumes "unat (max_total_text_bytes l) \<le> umax"
  shows "project_payload N umax to_value t l = Ok toks \<longleftrightarrow>
    (\<exists>v. to_value t = Some v \<and> is_object v \<and> within_payload_limits N l v \<and> toks = tokens_of N v)"
  using assms by (rule project_payload_Ok)

theorem payload_projection_exact_witness:
  "project_payload demo_numbers 4294967295 Some demo_payload default_projection_limits =
   Ok (tokens_of demo_numbers demo_payload)"
  by (rule payload_projection_exact [OF demo_umax, THEN iffD2])
    (intro exI [of _ demo_payload] conjI refl demo_object demo_within)

text \<open>
  The token stream loses nothing.  Two payloads with the same projection
  are the same value, up to what the stream carries of a number, its decimal
  text or its float; no framing token is ambiguous.
\<close>

theorem payload_projection_lossless:
  assumes "unat (max_total_text_bytes l) \<le> umax"
    and "project_payload N umax Some v l = Ok toks" "project_payload N umax Some v' l = Ok toks"
  shows "map_json (number_view N) v = map_json (number_view N) v'"
proof -
  have "within_payload_limits N l v" "within_payload_limits N l v'" "tokens_of N v = tokens_of N v'"
    using assms(2,3) unfolding project_payload_Ok [OF assms(1)] by auto
  then show ?thesis
    using tokens_read_uniquely [OF within_limits_readable [of N l v]] within_limits_readable [of N l v']
    by (auto simp: reads_uniquely_def)
qed

theorem payload_projection_lossless_witness:
  "map_json (number_view demo_numbers) demo_payload = map_json (number_view demo_numbers) demo_payload"
proof -
  have "project_payload demo_numbers 4294967295 Some demo_payload default_projection_limits =
      Ok (tokens_of demo_numbers demo_payload)"
    by (rule project_payload_Ok [OF demo_umax, THEN iffD2])
      (intro exI [of _ demo_payload] conjI refl demo_object demo_within)
  from payload_projection_lossless [OF demo_umax this this] show ?thesis .
qed

end
