(* ===== verification/Xswd_Registry.thy ===== *)
theory Xswd_Registry
  imports Rust_Prelude
begin

text \<open>
  The session registry of \<open>xswd/impl/registry.rs\<close>.  An application state is known by
  its identity; an entry holds a weak reference to it, so which states are
  still owned by someone is part of the state the operations run in.  The
  counter is one for the whole process and shared by the registries of all
  wallets.  The hash map is an association list; its iteration order is not
  specified, and no result depends on it because a state has one entry.
\<close>

section \<open>Model\<close>

datatype session_reference_error = ReferenceExhausted | ReferenceInvalid | ReferencePanic

fun reference_error_code :: "session_reference_error \<Rightarrow> string" where
  "reference_error_code ReferenceExhausted = ''XSWD_SESSION_REFERENCE_EXHAUSTED''"
| "reference_error_code ReferenceInvalid = ''XSWD_SESSION_REFERENCE_INVALID''"
| "reference_error_code ReferencePanic = ''''"

record 'a session_entry =
  se_state :: 'a
  se_active :: bool

record 'a session_registry =
  next_reference :: u64
  sessions :: "(u64 \<times> 'a session_entry) list"
  live :: "'a \<Rightarrow> bool"

definition remove_dead :: "'a session_registry \<Rightarrow> 'a session_registry" where
  "remove_dead s = s\<lparr> sessions := filter (\<lambda>(_, e). live s (se_state e)) (sessions s) \<rparr>"

definition fetch_reference :: "'a session_registry \<Rightarrow> u64 option \<times> 'a session_registry" where
  "fetch_reference s =
     (case checked_add (next_reference s) 1 of
        None \<Rightarrow> (None, s)
      | Some n \<Rightarrow> (Some (next_reference s), s\<lparr> next_reference := n \<rparr>))"

definition insert_session ::
  "u64 \<Rightarrow> 'a session_entry \<Rightarrow> 'a session_registry \<Rightarrow> 'a session_registry" where
  "insert_session r e s = s\<lparr> sessions := (r, e) # filter (\<lambda>(k, _). k \<noteq> r) (sessions s) \<rparr>"

definition project_session ::
  "'a \<Rightarrow> 'a session_registry \<Rightarrow> (u64, session_reference_error) result \<times> 'a session_registry" where
  "project_session a s =
     (let s = remove_dead s in
      case find (\<lambda>(_, e). se_state e = a) (sessions s) of
        Some (r, _) \<Rightarrow> (Ok r, s)
      | None \<Rightarrow>
          (case fetch_reference s of
             (None, s) \<Rightarrow> (Err ReferenceExhausted, s)
           | (Some r, s) \<Rightarrow> (Ok r, insert_session r \<lparr> se_state = a, se_active = True \<rparr> s)))"

text \<open>Indexing the map with a missing key would panic.\<close>

definition register_session ::
  "'a \<Rightarrow> 'a session_registry \<Rightarrow> (u64, session_reference_error) result \<times> 'a session_registry" where
  "register_session a s =
     (case project_session a s of
        (Inl e, s) \<Rightarrow> (Err e, s)
      | (Inr r, s) \<Rightarrow>
          (case map_of (sessions s) r of
             None \<Rightarrow> (Err ReferencePanic, s)
           | Some e \<Rightarrow> (if se_active e then Ok r else Err ReferenceInvalid, s)))"

definition resolve_session :: "u64 \<Rightarrow> 'a session_registry \<Rightarrow> 'a option \<times> 'a session_registry" where
  "resolve_session r s =
     (let s = remove_dead s in
      (case map_of (sessions s) r of
         None \<Rightarrow> None
       | Some e \<Rightarrow> if se_active e then (if live s (se_state e) then Some (se_state e) else None) else None,
       s))"

definition invalidate_state :: "'a \<Rightarrow> 'a session_registry \<Rightarrow> 'a session_registry" where
  "invalidate_state a s =
     (let s = remove_dead s;
          found = list_ex (\<lambda>(_, e). se_state e = a) (sessions s);
          s = s\<lparr> sessions := map (\<lambda>(r, e). (r, if se_state e = a then e\<lparr> se_active := False \<rparr> else e))
                (sessions s) \<rparr> in
      if found then s
      else case fetch_reference s of
        (None, s) \<Rightarrow> s
      | (Some r, s) \<Rightarrow> insert_session r \<lparr> se_state = a, se_active = False \<rparr> s)"

definition clear_sessions :: "'a session_registry \<Rightarrow> 'a session_registry" where
  "clear_sessions s =
     (let s = remove_dead s in
      s\<lparr> sessions := map (\<lambda>(r, e). (r, e\<lparr> se_active := False \<rparr>)) (sessions s) \<rparr>)"

section \<open>Several wallets\<close>

record ('i, 'a) xswd_system =
  xs_next :: u64
  xs_sessions :: "'i \<Rightarrow> (u64 \<times> 'a session_entry) list"
  xs_live :: "'a \<Rightarrow> bool"
  xs_gone :: "'a set"

definition xswd_init :: "('i, 'a) xswd_system" where
  "xswd_init = \<lparr> xs_next = 1, xs_sessions = (\<lambda>_. []), xs_live = (\<lambda>_. False), xs_gone = {} \<rparr>"

definition registry_of :: "'i \<Rightarrow> ('i, 'a) xswd_system \<Rightarrow> 'a session_registry" where
  "registry_of i c = \<lparr> next_reference = xs_next c, sessions = xs_sessions c i, live = xs_live c \<rparr>"

definition put_registry ::
  "'i \<Rightarrow> 'a session_registry \<Rightarrow> ('i, 'a) xswd_system \<Rightarrow> ('i, 'a) xswd_system" where
  "put_registry i s c =
     c\<lparr> xs_next := next_reference s, xs_sessions := (xs_sessions c)(i := sessions s) \<rparr>"

text \<open>A state comes into being once, is used by its owners, and is gone when the last one drops it.\<close>

inductive xswd_step :: "('i, 'a) xswd_system \<Rightarrow> ('i, 'a) xswd_system \<Rightarrow> bool" where
  xs_open: "\<not> xs_live c a \<Longrightarrow> a \<notin> xs_gone c \<Longrightarrow> xswd_step c (c\<lparr> xs_live := (xs_live c)(a := True) \<rparr>)"
| xs_drop: "xs_live c a \<Longrightarrow>
     xswd_step c (c\<lparr> xs_live := (xs_live c)(a := False), xs_gone := insert a (xs_gone c) \<rparr>)"
| xs_project: "xs_live c a \<Longrightarrow> xswd_step c (put_registry i (snd (project_session a (registry_of i c))) c)"
| xs_register: "xs_live c a \<Longrightarrow> xswd_step c (put_registry i (snd (register_session a (registry_of i c))) c)"
| xs_resolve: "xswd_step c (put_registry i (snd (resolve_session r (registry_of i c))) c)"
| xs_invalidate: "xs_live c a \<Longrightarrow> xswd_step c (put_registry i (invalidate_state a (registry_of i c)) c)"
| xs_clear: "xswd_step c (put_registry i (clear_sessions (registry_of i c)) c)"

inductive_cases xswd_stepE: "xswd_step c c'"

definition registry_inv :: "'a session_registry \<Rightarrow> bool" where
  "registry_inv s \<longleftrightarrow> distinct (map fst (sessions s)) \<and>
     distinct (map (se_state \<circ> snd) (sessions s)) \<and>
     list_all (\<lambda>(r, _). r < next_reference s) (sessions s)"

text \<open>What every operation does to the entries: none changes its state or regains activity, a new
  one has a number that was not handed out, and an entry of a live state is never lost.\<close>

definition registry_evolves :: "'a session_registry \<Rightarrow> 'a session_registry \<Rightarrow> bool" where
  "registry_evolves s s' \<longleftrightarrow>
     next_reference s \<le> next_reference s' \<and> live s' = live s \<and>
     (\<forall>r e'. (r, e') \<in> set (sessions s') \<longrightarrow>
        (\<exists>e. (r, e) \<in> set (sessions s) \<and> se_state e' = se_state e \<and> (se_active e' \<longrightarrow> se_active e)) \<or>
        next_reference s \<le> r \<and> r < next_reference s' \<and>
          (\<forall>k e. (k, e) \<in> set (sessions s) \<longrightarrow> se_state e = se_state e' \<longrightarrow> \<not> live s (se_state e))) \<and>
     (\<forall>r e. (r, e) \<in> set (sessions s) \<longrightarrow> live s (se_state e) \<longrightarrow>
        (\<exists>e'. (r, e') \<in> set (sessions s') \<and> se_state e' = se_state e))"

section \<open>Lemmas\<close>

lemma evolves_refl: "registry_evolves s s"
  by (auto simp: registry_evolves_def)

lemma evolves_live:
  "registry_evolves s s' \<Longrightarrow> (r, e) \<in> set (sessions s) \<Longrightarrow> live s (se_state e) \<Longrightarrow>
   \<exists>e'. (r, e') \<in> set (sessions s') \<and> se_state e' = se_state e"
  unfolding registry_evolves_def by blast

lemma evolves_entry:
  assumes "registry_evolves s s'" "(r, e') \<in> set (sessions s')"
  obtains (old) e where "(r, e) \<in> set (sessions s)" "se_state e' = se_state e"
      "se_active e' \<longrightarrow> se_active e"
  | (fresh) "next_reference s \<le> r" "r < next_reference s'"
      "\<And>k e. (k, e) \<in> set (sessions s) \<Longrightarrow> se_state e = se_state e' \<Longrightarrow> \<not> live s (se_state e)"
  using assms unfolding registry_evolves_def by blast

lemma evolves_trans:
  assumes "registry_evolves s s'" "registry_evolves s' s''"
  shows "registry_evolves s s''"
  unfolding registry_evolves_def
proof (intro conjI allI impI)
  show "next_reference s \<le> next_reference s''" "live s'' = live s"
    using assms by (auto simp: registry_evolves_def)
next
  fix r e
  assume "(r, e) \<in> set (sessions s)" "live s (se_state e)"
  moreover from this obtain e' where "(r, e') \<in> set (sessions s')" "se_state e' = se_state e"
    using evolves_live [OF assms(1)] by blast
  moreover have "live s' = live s" using assms(1) by (simp add: registry_evolves_def)
  ultimately show "\<exists>e''. (r, e'') \<in> set (sessions s'') \<and> se_state e'' = se_state e"
    using evolves_live [OF assms(2), of r e'] by simp
next
  fix r e''
  assume new: "(r, e'') \<in> set (sessions s'')"
  have mono: "next_reference s \<le> next_reference s'" "next_reference s' \<le> next_reference s''"
    and live: "live s' = live s"
    using assms by (auto simp: registry_evolves_def)
  from assms(2) new
  show "(\<exists>e. (r, e) \<in> set (sessions s) \<and> se_state e'' = se_state e \<and> (se_active e'' \<longrightarrow> se_active e)) \<or>
      next_reference s \<le> r \<and> r < next_reference s'' \<and>
        (\<forall>k e. (k, e) \<in> set (sessions s) \<longrightarrow> se_state e = se_state e'' \<longrightarrow> \<not> live s (se_state e))"
  proof (cases rule: evolves_entry)
    case (old e')
    from assms(1) old(1) show ?thesis
    proof (cases rule: evolves_entry)
      case (old e)
      then show ?thesis
        using \<open>se_state e'' = se_state e'\<close> \<open>se_active e'' \<longrightarrow> se_active e'\<close> by auto
    next
      case fresh
      then show ?thesis
        using \<open>se_state e'' = se_state e'\<close> mono by auto
    qed
  next
    case fresh
    have "\<not> live s (se_state e)" if entry: "(k, e) \<in> set (sessions s)" "se_state e = se_state e''" for k e
    proof
      assume "live s (se_state e)"
      then obtain e' where "(k, e') \<in> set (sessions s')" "se_state e' = se_state e"
        using evolves_live [OF assms(1) entry(1)] by blast
      then show False using fresh(3) entry live \<open>live s (se_state e)\<close> by auto
    qed
    then show ?thesis using fresh mono by auto
  qed
qed

lemma remove_dead_simps [simp]:
  "next_reference (remove_dead s) = next_reference s" "live (remove_dead s) = live s"
  "set (sessions (remove_dead s)) = {(r, e) \<in> set (sessions s). live s (se_state e)}"
  by (auto simp: remove_dead_def)

lemma remove_dead_evolves: "registry_evolves s (remove_dead s)"
  by (auto simp: registry_evolves_def)

lemma remove_dead_inv: "registry_inv s \<Longrightarrow> registry_inv (remove_dead s)"
  by (auto simp: registry_inv_def remove_dead_def list_all_iff distinct_map_filter comp_def
      distinct_map intro: inj_on_subset)

lemma deactivate_evolves:
  "registry_evolves s (s\<lparr> sessions := map (\<lambda>(r, e). (r, if p e then e\<lparr> se_active := False \<rparr> else e)) (sessions s) \<rparr>)"
  by (auto simp: registry_evolves_def split: if_splits; force)

lemma deactivate_maps:
  fixes l :: "(u64 \<times> 'a session_entry) list"
  shows "map fst (map (\<lambda>(r, e). (r, if p e then e\<lparr> se_active := False \<rparr> else e)) l) = map fst l"
    and "map (se_state \<circ> snd) (map (\<lambda>(r, e). (r, if p e then e\<lparr> se_active := False \<rparr> else e)) l) =
      map (se_state \<circ> snd) l"
  by (auto simp: comp_def)

lemma deactivate_inv:
  "registry_inv s \<Longrightarrow>
   registry_inv (s\<lparr> sessions := map (\<lambda>(r, e). (r, if p e then e\<lparr> se_active := False \<rparr> else e)) (sessions s) \<rparr>)"
  unfolding registry_inv_def
  by (simp add: deactivate_maps del: map_map) (auto simp: list_all_iff)

lemma mint:
  assumes "fetch_reference s = (Some r, s')" "registry_inv s"
    and "a \<notin> (se_state \<circ> snd) ` set (sessions s)"
  shows "registry_inv (insert_session r \<lparr> se_state = a, se_active = b \<rparr> s')"
    and "registry_evolves s (insert_session r \<lparr> se_state = a, se_active = b \<rparr> s')"
    and "sessions (insert_session r \<lparr> se_state = a, se_active = b \<rparr> s') =
      (r, \<lparr> se_state = a, se_active = b \<rparr>) # sessions s"
proof -
  obtain n where n: "checked_add (next_reference s) 1 = Some n" "r = next_reference s"
    "s' = s\<lparr> next_reference := n \<rparr>"
    using assms(1) by (auto simp: fetch_reference_def split: option.splits)
  have other: "se_state e \<noteq> a" if "(k, e) \<in> set (sessions s)" for k e
    using assms(3) that by force
  have less: "r < n" using checked_succ_Some(1) [OF n(1)] n(2) by simp
  have keys: "k < r" if "(k, e) \<in> set (sessions s)" for k e
    using assms(2) n(2) that by (auto simp: registry_inv_def list_all_iff)
  then have "filter (\<lambda>(k, _). k \<noteq> r) (sessions s) = sessions s"
    by (auto simp: filter_id_conv)
  then show new: "sessions (insert_session r \<lparr> se_state = a, se_active = b \<rparr> s') =
      (r, \<lparr> se_state = a, se_active = b \<rparr>) # sessions s"
    by (simp add: insert_session_def n(3))
  have fields: "next_reference (insert_session r e s') = n" "live (insert_session r e s') = live s" for e
    by (simp_all add: insert_session_def n(3))
  have "k < n" if "(k, e) \<in> set (sessions s)" for k e
    using keys [OF that] less by (rule less_trans)
  moreover have "r \<notin> fst ` set (sessions s)"
    by (auto dest: keys)
  ultimately show "registry_inv (insert_session r \<lparr> se_state = a, se_active = b \<rparr> s')"
    using assms(2,3) less by (auto simp: registry_inv_def new fields list_all_iff)
  show "registry_evolves s (insert_session r \<lparr> se_state = a, se_active = b \<rparr> s')"
    using less n(2) other unfolding registry_evolves_def new fields by (auto simp: less_imp_le)
qed

definition registry_op :: "('a session_registry \<Rightarrow> 'a session_registry) \<Rightarrow> bool" where
  "registry_op f \<longleftrightarrow> (\<forall>s. registry_inv s \<longrightarrow> registry_inv (f s) \<and> registry_evolves s (f s))"

lemma registry_opI:
  "(\<And>s. registry_inv s \<Longrightarrow> registry_inv (f s) \<and> registry_evolves s (f s)) \<Longrightarrow> registry_op f"
  by (simp add: registry_op_def)

lemma registry_op_remove_dead: "registry_op remove_dead"
  by (simp add: registry_op_def remove_dead_inv remove_dead_evolves)

lemma fetch_reference_cases:
  obtains (none) "fetch_reference s = (None, s)" "next_reference s = u64_MAX"
  | (some) s' where "fetch_reference s = (Some (next_reference s), s')"
proof (cases "checked_add (next_reference s) 1")
  case None
  then have "fetch_reference s = (None, s)" "next_reference s = u64_MAX"
    by (simp_all add: fetch_reference_def checked_succ_None [THEN iffD1])
  then show ?thesis by (rule none)
next
  case (Some n)
  then show ?thesis using some by (simp add: fetch_reference_def)
qed

lemma registry_op_project: "registry_op (\<lambda>s. snd (project_session a s))"
proof (rule registry_opI)
  fix s :: "'a session_registry"
  assume "registry_inv s"
  let ?s = "remove_dead s"
  have rd: "registry_inv ?s" "registry_evolves s ?s"
    using \<open>registry_inv s\<close> by (simp_all add: remove_dead_inv remove_dead_evolves)
  show "registry_inv (snd (project_session a s)) \<and> registry_evolves s (snd (project_session a s))"
  proof (cases "find (\<lambda>(_, e). se_state e = a) (sessions ?s)")
    case None
    then have new: "a \<notin> (se_state \<circ> snd) ` set (sessions ?s)"
      by (auto simp: find_None_iff) blast
    show ?thesis
    proof (cases rule: fetch_reference_cases [of ?s])
      case none
      then show ?thesis using rd None by (simp add: project_session_def Let_def)
    next
      case (some s')
      then show ?thesis
        using None mint(1) [OF some rd(1) new] evolves_trans [OF rd(2) mint(2) [OF some rd(1) new]]
        by (simp add: project_session_def Let_def)
    qed
  qed (use rd in \<open>auto simp: project_session_def Let_def\<close>)
qed

lemma register_snd: "snd (register_session a s) = snd (project_session a s)"
  by (auto simp: register_session_def split: sum.split prod.split option.split)

lemma resolve_snd: "snd (resolve_session r s) = remove_dead s"
  by (simp add: resolve_session_def Let_def)

lemma registry_op_invalidate: "registry_op (invalidate_state a)"
proof (rule registry_opI)
  fix s :: "'a session_registry"
  assume "registry_inv s"
  let ?d = "remove_dead s"
  let ?s = "?d\<lparr> sessions := map (\<lambda>(r, e). (r, if se_state e = a then e\<lparr> se_active := False \<rparr> else e))
                (sessions ?d) \<rparr>"
  have rd: "registry_inv ?s" "registry_evolves s ?s"
    by (rule deactivate_inv [OF remove_dead_inv [OF \<open>registry_inv s\<close>]])
      (rule evolves_trans [OF remove_dead_evolves deactivate_evolves])
  show "registry_inv (invalidate_state a s) \<and> registry_evolves s (invalidate_state a s)"
  proof (cases "list_ex (\<lambda>(_, e). se_state e = a) (sessions ?d)")
    case True
    then show ?thesis using rd by (simp add: invalidate_state_def Let_def)
  next
    case False
    have "(se_state \<circ> snd) ` set (sessions ?s) = (se_state \<circ> snd) ` set (sessions ?d)"
      unfolding set_map [symmetric] by (simp add: deactivate_maps del: map_map set_map)
    moreover have "a \<notin> (se_state \<circ> snd) ` set (sessions ?d)"
      using False by (force simp add: list_ex_iff simp del: remove_dead_simps)
    ultimately have new: "a \<notin> (se_state \<circ> snd) ` set (sessions ?s)" by simp
    show ?thesis
    proof (cases rule: fetch_reference_cases [of ?s])
      case none
      then show ?thesis using rd False by (simp add: invalidate_state_def Let_def)
    next
      case (some s')
      then show ?thesis
        using False mint(1) [OF some rd(1) new] evolves_trans [OF rd(2) mint(2) [OF some rd(1) new]]
        by (simp add: invalidate_state_def Let_def)
    qed
  qed
qed

lemma registry_op_clear: "registry_op clear_sessions"
proof (rule registry_opI)
  fix s :: "'a session_registry"
  assume "registry_inv s"
  then show "registry_inv (clear_sessions s) \<and> registry_evolves s (clear_sessions s)"
    using deactivate_inv [OF remove_dead_inv, of s "\<lambda>_. True"]
      evolves_trans [OF remove_dead_evolves deactivate_evolves [of "remove_dead s" "\<lambda>_. True"]]
    by (simp add: clear_sessions_def Let_def)
qed

section \<open>Revocation\<close>

text \<open>A live state is revoked when its entry is inactive, or when it has none and no number is left
  to give it one.\<close>

definition revoked :: "'a session_registry \<Rightarrow> 'a \<Rightarrow> bool" where
  "revoked s a \<longleftrightarrow>
     list_ex (\<lambda>(r, e). se_state e = a \<and> \<not> se_active e) (sessions s) \<or>
     next_reference s = u64_MAX \<and> list_all (\<lambda>(r, e). se_state e \<noteq> a) (sessions s)"

lemma same_key: "registry_inv s \<Longrightarrow> (r, e) \<in> set (sessions s) \<Longrightarrow> (r, e') \<in> set (sessions s) \<Longrightarrow> e = e'"
  unfolding registry_inv_def by (blast dest: eq_key_imp_eq_value)

lemma same_state:
  "registry_inv s \<Longrightarrow> (r, e) \<in> set (sessions s) \<Longrightarrow> (r', e') \<in> set (sessions s) \<Longrightarrow>
   se_state e = se_state e' \<Longrightarrow> r = r' \<and> e = e'"
  unfolding registry_inv_def by (force simp: distinct_map inj_on_def)

lemma revoked_evolves:
  assumes "registry_inv s" "registry_evolves s s'" "live s a" "revoked s a"
  shows "revoked s' a"
proof (cases "list_ex (\<lambda>(r, e). se_state e = a \<and> \<not> se_active e) (sessions s)")
  case True
  then obtain r e where e: "(r, e) \<in> set (sessions s)" "se_state e = a" "\<not> se_active e"
    by (auto simp: list_ex_iff)
  then obtain e' where e': "(r, e') \<in> set (sessions s')" "se_state e' = a"
    using evolves_live [OF assms(2), of r e] assms(3) by auto
  from assms(2) e'(1) have "\<not> se_active e'"
  proof (cases rule: evolves_entry)
    case (old d)
    then show ?thesis using same_key [OF assms(1) e(1)] e(3) by auto
  next
    case fresh
    then show ?thesis using e e'(2) assms(3) by auto
  qed
  then show ?thesis using e' by (auto simp: revoked_def list_ex_iff)
next
  case False
  then have max: "next_reference s = u64_MAX" and none: "(r, e) \<in> set (sessions s) \<Longrightarrow> se_state e \<noteq> a" for r e
    using assms(4) by (auto simp: revoked_def list_all_iff)
  have max': "next_reference s' = u64_MAX"
    using assms(2) max by (simp add: registry_evolves_def word_order.extremum_unique)
  have "se_state e' \<noteq> a" if "(r, e') \<in> set (sessions s')" for r e'
    using assms(2) that
  proof (cases rule: evolves_entry)
    case (old e)
    then show ?thesis using none by auto
  next
    case fresh
    then show ?thesis using max max' by simp
  qed
  then show ?thesis using max' by (auto simp: revoked_def list_all_iff)
qed

lemma invalidate_revokes:
  assumes "registry_inv s"
  shows "revoked (invalidate_state a s) a"
proof -
  let ?d = "remove_dead s"
  show ?thesis
  proof (cases "list_ex (\<lambda>(_, e). se_state e = a) (sessions ?d)")
    case True
    then show ?thesis
      by (force simp: invalidate_state_def Let_def revoked_def list_ex_iff)
  next
    case False
    let ?s = "?d\<lparr> sessions := map (\<lambda>(r, e). (r, if se_state e = a then e\<lparr> se_active := False \<rparr> else e))
                  (sessions ?d) \<rparr>"
    have absent: "list_all (\<lambda>(r, e). se_state e \<noteq> a) (sessions ?s)"
      using False by (auto simp: list_all_iff list_ex_iff)
    show ?thesis
    proof (cases rule: fetch_reference_cases [of ?s])
      case none
      then show ?thesis using False absent by (simp add: invalidate_state_def Let_def revoked_def)
    next
      case (some s')
      then show ?thesis
        using False by (simp add: invalidate_state_def Let_def revoked_def insert_session_def)
    qed
  qed
qed

lemma resolve_Some:
  assumes "fst (resolve_session r s) = Some a"
  obtains e where "(r, e) \<in> set (sessions s)" "se_state e = a" "se_active e" "live s a"
proof -
  obtain e where "map_of (sessions (remove_dead s)) r = Some e" "se_active e" "live s (se_state e)"
    "se_state e = a"
    using assms by (auto simp: resolve_session_def Let_def split: option.splits if_splits)
  moreover from this have "(r, e) \<in> set (sessions (remove_dead s))" by (simp only: map_of_SomeD)
  ultimately show ?thesis by (intro that) simp_all
qed

lemma revoked_not_resolved:
  assumes "registry_inv s" "revoked s a"
  shows "fst (resolve_session r s) \<noteq> Some a"
proof
  assume "fst (resolve_session r s) = Some a"
  then obtain e where e: "(r, e) \<in> set (sessions s)" "se_state e = a" "se_active e"
    by (rule resolve_Some)
  then have "list_ex (\<lambda>(r, e). se_state e = a \<and> \<not> se_active e) (sessions s)"
    using assms(2) by (auto simp: revoked_def list_all_iff)
  then obtain r' e' where "(r', e') \<in> set (sessions s)" "se_state e' = a" "\<not> se_active e'"
    by (auto simp: list_ex_iff)
  then show False
    using same_state [OF assms(1) e(1), of r' e'] e(2,3) by simp
qed

lemma find_SomeD: "find P xs = Some x \<Longrightarrow> x \<in> set xs \<and> P x"
  by (induction xs) (auto split: if_splits)

lemma project_found:
  assumes "registry_inv s" "(r, e) \<in> set (sessions s)" "se_state e = a" "live s a"
  shows "project_session a s = (Ok r, remove_dead s)" "map_of (sessions (remove_dead s)) r = Some e"
proof -
  let ?d = "remove_dead s"
  have inv: "registry_inv ?d" and mem: "(r, e) \<in> set (sessions ?d)"
    using assms remove_dead_inv by auto
  show "map_of (sessions ?d) r = Some e"
    using inv mem by (simp add: registry_inv_def del: remove_dead_simps)
  have "find (\<lambda>(_, e). se_state e = a) (sessions ?d) \<noteq> None"
    using mem assms(3) by (auto simp: find_None_iff simp del: remove_dead_simps)
  then obtain r' e' where found: "find (\<lambda>(_, e). se_state e = a) (sessions ?d) = Some (r', e')"
    by auto
  then have "(r', e') \<in> set (sessions ?d)" "se_state e' = a"
    using find_SomeD by fastforce+
  then have "r' = r" using same_state [OF inv mem] assms(3) by auto
  then show "project_session a s = (Ok r, ?d)" using found by (simp add: project_session_def Let_def)
qed

lemma revoked_not_registered:
  assumes "registry_inv s" "revoked s a" "live s a"
  shows "\<exists>e. fst (register_session a s) = Err e"
proof (cases "list_ex (\<lambda>(r, e). se_state e = a \<and> \<not> se_active e) (sessions s)")
  case True
  then obtain r e where "(r, e) \<in> set (sessions s)" "se_state e = a" "\<not> se_active e"
    by (auto simp: list_ex_iff)
  then show ?thesis
    using project_found [OF assms(1) _ _ assms(3), of r e] by (simp add: register_session_def)
next
  case False
  then have max: "next_reference s = u64_MAX" and absent: "list_all (\<lambda>(r, e). se_state e \<noteq> a) (sessions s)"
    using assms(2) by (auto simp: revoked_def)
  have "find (\<lambda>(_, e). se_state e = a) (sessions (remove_dead s)) = None"
    using absent by (auto simp: find_None_iff list_all_iff)
  moreover have "fetch_reference (remove_dead s) = (None, remove_dead s)"
    using max checked_succ_None [of "u64_MAX"] by (simp add: fetch_reference_def)
  ultimately show ?thesis by (simp add: register_session_def project_session_def Let_def)
qed

lemma project_key: "project_session a s = (Ok r, s') \<Longrightarrow> r \<in> fst ` set (sessions s')"
  by (auto simp: project_session_def Let_def insert_session_def rev_image_eqI
      split: option.splits prod.splits simp del: remove_dead_simps dest!: find_SomeD)

lemma register_never_panics: "fst (register_session a s) \<noteq> Err ReferencePanic"
proof (cases "project_session a s")
  case (Pair r s')
  moreover have "r \<noteq> Err ReferencePanic"
    using Pair by (auto simp: project_session_def Let_def split: option.splits prod.splits)
  ultimately show ?thesis
    using project_key [of a s _ s']
    by (auto simp: register_session_def map_of_eq_None_iff split: sum.splits option.splits)
qed

section \<open>What the registry promises its clients\<close>

datatype 'a registry_call = CallProject 'a | CallRegister 'a | CallInvalidate 'a

fun run_call :: "'a registry_call \<Rightarrow> 'a session_registry \<Rightarrow> 'a session_registry" where
  "run_call (CallProject a) s = snd (project_session a s)"
| "run_call (CallRegister a) s = snd (register_session a s)"
| "run_call (CallInvalidate a) s = invalidate_state a s"

locale session_authority =
  fixes wf_auth :: "'s \<Rightarrow> bool" and alive :: "'s \<Rightarrow> 'a \<Rightarrow> bool" and barred :: "'s \<Rightarrow> 'a \<Rightarrow> bool"
    and call :: "'c \<Rightarrow> 's \<Rightarrow> 's" and bar :: "'a \<Rightarrow> 'c" and admit :: "'a \<Rightarrow> 's \<Rightarrow> bool"
  assumes wf_call: "wf_auth s \<Longrightarrow> wf_auth (call c s)"
    and alive_call: "wf_auth s \<Longrightarrow> alive (call c s) = alive s"
    and bar_bars: "wf_auth s \<Longrightarrow> barred (call (bar a) s) a"
    and barred_call: "wf_auth s \<Longrightarrow> alive s a \<Longrightarrow> barred s a \<Longrightarrow> barred (call c s) a"
    and barred_admit: "wf_auth s \<Longrightarrow> alive s a \<Longrightarrow> barred s a \<Longrightarrow> \<not> admit a s"
begin

lemma wf_calls: "wf_auth s \<Longrightarrow> wf_auth (fold call cs s)"
  by (induction cs arbitrary: s) (auto simp: wf_call)

lemma alive_calls: "wf_auth s \<Longrightarrow> alive (fold call cs s) = alive s"
  by (induction cs arbitrary: s) (auto simp: wf_call alive_call)

lemma barred_calls: "wf_auth s \<Longrightarrow> alive s a \<Longrightarrow> barred s a \<Longrightarrow> barred (fold call cs s) a"
  by (induction cs arbitrary: s) (auto simp: wf_call alive_call barred_call)

lemma bar_lasts: "wf_auth s \<Longrightarrow> alive s a \<Longrightarrow> bar a \<in> set cs \<Longrightarrow> barred (fold call cs s) a"
proof (induction cs arbitrary: s)
  case (Cons c cs)
  then show ?case
    using barred_calls [of "call c s" a cs] bar_bars [of s a]
    by (auto simp: wf_call alive_call)
qed simp

lemma never_admitted:
  "wf_auth s \<Longrightarrow> alive s a \<Longrightarrow> bar a \<in> set cs \<Longrightarrow> \<not> admit a (fold call cs s)"
  using bar_lasts barred_admit wf_calls alive_calls by metis

end

definition admits :: "'a \<Rightarrow> 'a session_registry \<Rightarrow> bool" where
  "admits a s \<longleftrightarrow> is_ok (fst (register_session a s))"

lemma registry_op_call: "registry_op (run_call c)"
  unfolding registry_op_def
  using registry_op_project registry_op_invalidate
  by (cases c) (simp_all add: register_snd registry_op_def)

interpretation xswd_authority: session_authority registry_inv live revoked run_call CallInvalidate admits
proof
  fix s :: "'a session_registry" and c a
  assume inv: "registry_inv s"
  have op: "registry_inv (run_call c s)" "registry_evolves s (run_call c s)"
    using registry_op_call [of c] inv by (simp_all add: registry_op_def)
  then show "registry_inv (run_call c s)" "live (run_call c s) = live s"
    by (simp_all add: registry_evolves_def)
  show "revoked (run_call (CallInvalidate a) s) a"
    using invalidate_revokes [OF inv] by simp
  assume live: "live s a" and rev: "revoked s a"
  show "revoked (run_call c s) a"
    by (rule revoked_evolves [OF inv op(2) live rev])
  show "\<not> admits a s"
    using revoked_not_registered [OF inv rev live] by (auto simp: admits_def)
qed

section \<open>Across wallets\<close>

definition xswd_inv :: "('i, 'a) xswd_system \<Rightarrow> bool" where
  "xswd_inv c \<longleftrightarrow> (\<forall>i. registry_inv (registry_of i c)) \<and>
     (\<forall>i j r e e'. (r, e) \<in> set (xs_sessions c i) \<longrightarrow> (r, e') \<in> set (xs_sessions c j) \<longrightarrow> i = j) \<and>
     (\<forall>a. xs_live c a \<longrightarrow> a \<notin> xs_gone c)"

definition wallet_revoked :: "('i, 'a) xswd_system \<Rightarrow> 'i \<Rightarrow> 'a \<Rightarrow> bool" where
  "wallet_revoked c i a \<longleftrightarrow> a \<in> xs_gone c \<or> xs_live c a \<and> revoked (registry_of i c) a"

lemma registry_of_simps [simp]:
  "next_reference (registry_of i c) = xs_next c" "sessions (registry_of i c) = xs_sessions c i"
  "live (registry_of i c) = xs_live c"
  by (simp_all add: registry_of_def)

lemma put_registry_simps [simp]:
  "xs_next (put_registry i s c) = next_reference s"
  "xs_sessions (put_registry i s c) = (xs_sessions c)(i := sessions s)"
  "xs_live (put_registry i s c) = xs_live c" "xs_gone (put_registry i s c) = xs_gone c"
  by (simp_all add: put_registry_def)

lemma xswd_step_cases:
  assumes "xswd_step c c'"
  obtains (op) i s where "registry_inv (registry_of i c) \<Longrightarrow> registry_inv s"
      "registry_inv (registry_of i c) \<Longrightarrow> registry_evolves (registry_of i c) s" "c' = put_registry i s c"
  | (opened) a where "\<not> xs_live c a" "a \<notin> xs_gone c" "c' = c\<lparr> xs_live := (xs_live c)(a := True) \<rparr>"
  | (dropped) a where "xs_live c a"
      "c' = c\<lparr> xs_live := (xs_live c)(a := False), xs_gone := insert a (xs_gone c) \<rparr>"
  using assms
proof cases
  case (xs_project a i)
  then show ?thesis
    using registry_op_call [of "CallProject a"] by (intro op [of i]) (auto simp: registry_op_def)
next
  case (xs_register a i)
  then show ?thesis
    using registry_op_call [of "CallRegister a"] by (intro op [of i]) (auto simp: registry_op_def)
next
  case (xs_resolve i r)
  then show ?thesis
    using registry_op_remove_dead by (intro op [of i]) (auto simp: registry_op_def resolve_snd)
next
  case (xs_invalidate a i)
  then show ?thesis
    using registry_op_invalidate [of a] by (intro op [of i]) (auto simp: registry_op_def)
next
  case (xs_clear i)
  then show ?thesis
    using registry_op_clear by (intro op [of i]) (auto simp: registry_op_def)
qed (use opened dropped in auto)

lemma registry_inv_weaken:
  "registry_inv s \<Longrightarrow> next_reference s \<le> n \<Longrightarrow>
   registry_inv \<lparr> next_reference = n, sessions = sessions s, live = l \<rparr>"
  by (auto simp: registry_inv_def list_all_iff intro: less_le_trans)

lemma xswd_inv_init: "xswd_inv xswd_init"
  by (simp add: xswd_inv_def xswd_init_def registry_of_def registry_inv_def)

lemma xswd_key_old:
  assumes "xswd_inv c" "(r, e) \<in> set (xs_sessions c i)"
  shows "r < xs_next c"
  using assms by (auto simp: xswd_inv_def registry_inv_def list_all_iff)

text \<open>An entry after a step was there before, for the same state, unless its number is new.\<close>

lemma xswd_step_entry:
  assumes "xswd_step c c'" "xswd_inv c" "(r, e') \<in> set (xs_sessions c' i)"
  shows "xs_next c \<le> r \<or> (\<exists>e. (r, e) \<in> set (xs_sessions c i) \<and> se_state e' = se_state e)"
  using assms(1)
proof (cases rule: xswd_step_cases)
  case (op j s)
  have ev: "registry_evolves (registry_of j c) s"
    using op assms(2) by (simp add: xswd_inv_def)
  show ?thesis
  proof (cases "i = j")
    case True
    with assms(3) op(3) have "(r, e') \<in> set (sessions s)" by simp
    with ev show ?thesis by (cases rule: evolves_entry) (auto simp: True)
  qed (use assms(3) op(3) in auto)
qed (use assms(3) in auto)

lemma xswd_next_mono: "xswd_step c c' \<Longrightarrow> xswd_inv c \<Longrightarrow> xs_next c \<le> xs_next c'"
  by (cases rule: xswd_step_cases, assumption) (auto simp: xswd_inv_def registry_evolves_def)

lemma xswd_keys_apart:
  assumes "xswd_step c c'" "xswd_inv c" "(r, e) \<in> set (xs_sessions c' i)" "(r, e') \<in> set (xs_sessions c' j)"
  shows "i = j"
proof (cases "\<exists>d d'. (r, d) \<in> set (xs_sessions c i) \<and> (r, d') \<in> set (xs_sessions c j)")
  case True
  then show ?thesis using assms(2) unfolding xswd_inv_def by blast
next
  case False
  then have "xs_next c \<le> r"
    using xswd_step_entry [OF assms(1,2,3)] xswd_step_entry [OF assms(1,2,4)] by blast
  then have fresh: "(r, d) \<notin> set (xs_sessions c k)" for d k
    using xswd_key_old [OF assms(2)] by (meson not_le)
  from assms(1) show ?thesis
  proof (cases rule: xswd_step_cases)
    case (op k s)
    then have "i = k" "j = k" using assms(3,4) fresh by (auto split: if_splits)
    then show ?thesis by simp
  qed (use assms(3) fresh in auto)
qed

lemma xswd_inv_step:
  assumes "xswd_step c c'" "xswd_inv c"
  shows "xswd_inv c'"
proof -
  have regs: "registry_inv (registry_of k c)" for k
    using assms(2) by (simp add: xswd_inv_def)
  have "registry_inv (registry_of k c')" for k
    using assms(1)
  proof (cases rule: xswd_step_cases)
    case (op i s)
    then show ?thesis
      using registry_inv_weaken [OF op(1) [OF regs]] registry_inv_weaken [OF regs [of k]] op(2) [OF regs]
      by (cases "k = i") (auto simp: registry_of_def registry_evolves_def)
  qed (use regs [of k] in \<open>auto simp: registry_of_def registry_inv_def\<close>)
  moreover have "a \<notin> xs_gone c'" if "xs_live c' a" for a
    using assms(1)
  proof (cases rule: xswd_step_cases)
  qed (use that assms(2) in \<open>auto simp: xswd_inv_def split: if_splits\<close>)
  ultimately show ?thesis
    using xswd_keys_apart [OF assms] unfolding xswd_inv_def by blast
qed

lemma xswd_inv_star: "xswd_step\<^sup>*\<^sup>* c c' \<Longrightarrow> xswd_inv c \<Longrightarrow> xswd_inv c'"
  by (induction rule: rtranclp_induct) (auto intro: xswd_inv_step)

lemma xswd_next_star: "xswd_step\<^sup>*\<^sup>* c c' \<Longrightarrow> xswd_inv c \<Longrightarrow> xs_next c \<le> xs_next c'"
proof (induction rule: rtranclp_induct)
  case (step d d')
  then show ?case using xswd_next_mono xswd_inv_star order_trans by blast
qed simp

lemma xswd_entry_star:
  assumes "xswd_step\<^sup>*\<^sup>* c c'" "xswd_inv c" "(r, e') \<in> set (xs_sessions c' i)" "r < xs_next c"
  shows "\<exists>e. (r, e) \<in> set (xs_sessions c i) \<and> se_state e' = se_state e"
  using assms
proof (induction arbitrary: e' rule: rtranclp_induct)
  case (step d d')
  have "r < xs_next d" using xswd_next_star [OF step.hyps(1) step.prems(1)] step.prems(3) by simp
  then obtain e where "(r, e) \<in> set (xs_sessions d i)" "se_state e' = se_state e"
    using xswd_step_entry [OF step.hyps(2) xswd_inv_star [OF step.hyps(1) step.prems(1)] step.prems(2)]
    by (auto simp: not_le)
  then show ?case using step.IH [of e] step.prems by auto
qed auto

lemma wallet_revoked_step:
  assumes "xswd_step c c'" "xswd_inv c" "wallet_revoked c i a"
  shows "wallet_revoked c' i a"
proof (cases "a \<in> xs_gone c")
  case True
  from assms(1) show ?thesis
    by (cases rule: xswd_step_cases) (use True in \<open>auto simp: wallet_revoked_def\<close>)
next
  case False
  then have live: "xs_live c a" and rev: "revoked (registry_of i c) a"
    using assms(3) by (auto simp: wallet_revoked_def)
  have inv: "registry_inv (registry_of k c)" for k using assms(2) by (simp add: xswd_inv_def)
  from assms(1) show ?thesis
  proof (cases rule: xswd_step_cases)
    case (op j s)
    have ev: "registry_evolves (registry_of j c) s" using op(2) inv by blast
    have "revoked (registry_of i c') a"
    proof (cases "i = j")
      case True
      have "revoked s a" using revoked_evolves [OF inv ev [folded True] _ rev] live by simp
      then show ?thesis by (simp add: op(3) True revoked_def)
    next
      case False
      have "xs_next c = u64_MAX \<Longrightarrow> next_reference s = u64_MAX"
        using ev by (simp add: registry_evolves_def word_order.extremum_unique)
      then show ?thesis using rev False by (auto simp: op(3) revoked_def)
    qed
    then show ?thesis using live by (simp add: wallet_revoked_def op(3))
  qed (use live rev in \<open>auto simp: wallet_revoked_def revoked_def\<close>)
qed

lemma wallet_revoked_star:
  "xswd_step\<^sup>*\<^sup>* c c' \<Longrightarrow> xswd_inv c \<Longrightarrow> wallet_revoked c i a \<Longrightarrow> wallet_revoked c' i a"
  by (induction rule: rtranclp_induct) (auto intro: wallet_revoked_step xswd_inv_star)

section \<open>Properties\<close>

text \<open>
  A session reference names one session.  If a reference ever resolves to
  an application state in some wallet, then however the wallets of the process
  go on, it never resolves to another state and never in another wallet.
\<close>

theorem session_reference_unique:
  assumes "xswd_step\<^sup>*\<^sup>* xswd_init c" "fst (resolve_session r (registry_of i c)) = Some a"
    and "xswd_step\<^sup>*\<^sup>* c c'" "fst (resolve_session r (registry_of j c')) = Some b"
  shows "i = j \<and> a = b"
proof -
  have inv: "xswd_inv c" using xswd_inv_star [OF assms(1) xswd_inv_init] .
  obtain e where e: "(r, e) \<in> set (xs_sessions c i)" "se_state e = a"
    using assms(2) by (auto elim: resolve_Some)
  obtain e' where e': "(r, e') \<in> set (xs_sessions c' j)" "se_state e' = b"
    using assms(4) by (auto elim: resolve_Some)
  obtain d where d: "(r, d) \<in> set (xs_sessions c j)" "se_state d = b"
    using xswd_entry_star [OF assms(3) inv e'(1) xswd_key_old [OF inv e(1)]] e'(2) by auto
  then have "i = j" using inv e(1) unfolding xswd_inv_def by blast
  moreover from this have "e = d"
    using same_key [of "registry_of i c" r e d] inv e(1) d(1) by (simp add: xswd_inv_def)
  ultimately show ?thesis using e(2) d(2) by simp
qed

definition demo_xswd :: "(bool, bool) xswd_system" where
  "demo_xswd = \<lparr> xs_next = 2, xs_sessions = (\<lambda>i. if i then [(1, \<lparr> se_state = True, se_active = True \<rparr>)] else []),
     xs_live = (\<lambda>a. a), xs_gone = {} \<rparr>"

lemma demo_xswd_reachable: "xswd_step\<^sup>*\<^sup>* xswd_init demo_xswd"
proof -
  let ?c = "xswd_init\<lparr> xs_live := (\<lambda>_. False)(True := True) \<rparr> :: (bool, bool) xswd_system"
  have "xswd_step xswd_init ?c"
    using xs_open [of xswd_init True] by (simp add: xswd_init_def)
  moreover have "put_registry True (snd (project_session True (registry_of True ?c))) ?c = demo_xswd"
    by (auto simp: demo_xswd_def xswd_init_def registry_of_def put_registry_def project_session_def
        remove_dead_def fetch_reference_def checked_add_def insert_session_def fun_eq_iff)
  then have "xswd_step ?c demo_xswd"
    using xs_project [of ?c True True] by simp
  ultimately show ?thesis by (meson converse_rtranclp_into_rtranclp r_into_rtranclp)
qed

lemma demo_xswd_resolves: "fst (resolve_session 1 (registry_of True demo_xswd)) = Some True"
  by (simp add: demo_xswd_def registry_of_def resolve_session_def remove_dead_def)

theorem session_reference_unique_witness:
  "fst (resolve_session 1 (registry_of True demo_xswd)) = Some True \<and> True = True"
  using session_reference_unique [OF demo_xswd_reachable demo_xswd_resolves rtranclp.rtrancl_refl
      demo_xswd_resolves] demo_xswd_resolves by simp

text \<open>
  C21: a revoked session stays revoked.  Once a live application state has been
  invalidated in a wallet, or has lost its session there when everything was
  cleared, no later operation of any wallet makes a reference resolve to it in
  that wallet, and registering it again is refused for as long as it lives.
\<close>

theorem revoked_session_stays_revoked:
  assumes "xswd_step\<^sup>*\<^sup>* xswd_init c" "xs_live c a"
    and "c1 = put_registry i (invalidate_state a (registry_of i c)) c \<or>
      c1 = put_registry i (clear_sessions (registry_of i c)) c \<and>
        fst (resolve_session r0 (registry_of i c)) = Some a"
    and "xswd_step\<^sup>*\<^sup>* c1 c'"
  shows "fst (resolve_session r (registry_of i c')) \<noteq> Some a \<and>
    (xs_live c' a \<longrightarrow> (\<exists>e. fst (register_session a (registry_of i c')) = Err e))"
proof -
  have inv: "xswd_inv c" using xswd_inv_star [OF assms(1) xswd_inv_init] .
  have "xswd_step c c1" using assms(2,3) by (auto intro: xs_invalidate xs_clear)
  then have inv1: "xswd_inv c1" using xswd_inv_step inv by blast
  have reg: "registry_inv (registry_of i c)" using inv by (simp add: xswd_inv_def)
  have "revoked (registry_of i c1) a"
    using assms(3)
  proof
    assume "c1 = put_registry i (invalidate_state a (registry_of i c)) c"
    then show ?thesis using invalidate_revokes [OF reg, of a] by (simp add: revoked_def)
  next
    assume cleared: "c1 = put_registry i (clear_sessions (registry_of i c)) c \<and>
      fst (resolve_session r0 (registry_of i c)) = Some a"
    then obtain e where "(r0, e) \<in> set (xs_sessions c i)" "se_state e = a" "xs_live c a"
      by (auto elim: resolve_Some)
    then have "(r0, e\<lparr> se_active := False \<rparr>) \<in> set (xs_sessions c1 i)"
      using cleared by (auto simp: clear_sessions_def Let_def intro!: image_eqI [of _ _ "(r0, e)"])
    then show ?thesis
      using \<open>se_state e = a\<close> unfolding revoked_def list_ex_iff
      by (intro disjI1 bexI [of _ "(r0, e\<lparr> se_active := False \<rparr>)"]) simp_all
  qed
  moreover have "xs_live c1 a" using assms(2,3) by auto
  ultimately have "wallet_revoked c1 i a" by (simp add: wallet_revoked_def)
  then have rev: "wallet_revoked c' i a" by (rule wallet_revoked_star [OF assms(4) inv1])
  have inv': "xswd_inv c'" by (rule xswd_inv_star [OF assms(4) inv1])
  then have reg': "registry_inv (registry_of i c')" by (simp add: xswd_inv_def)
  show ?thesis
  proof (cases "xs_live c' a")
    case True
    then have "revoked (registry_of i c') a"
      using rev inv' by (simp add: wallet_revoked_def xswd_inv_def)
    then show ?thesis
      using True revoked_not_resolved [OF reg'] revoked_not_registered [OF reg'] by simp
  next
    case False
    then show ?thesis by (auto elim: resolve_Some)
  qed
qed

theorem revoked_session_stays_revoked_witness:
  "fst (resolve_session 1 (registry_of True
     (put_registry True (invalidate_state True (registry_of True demo_xswd)) demo_xswd))) \<noteq> Some True"
proof -
  have "xs_live demo_xswd True" by (simp add: demo_xswd_def)
  from revoked_session_stays_revoked [OF demo_xswd_reachable this disjI1 [OF refl] rtranclp.rtrancl_refl]
  show ?thesis by blast
qed

end
