(* ===== verification/Xswd_Dispatcher.thy ===== *)
theory Xswd_Dispatcher
  imports Xswd_Payload Xswd_Registry "HOL-Library.Multiset"
begin

text \<open>
  The event dispatcher of \<open>xswd/impl/dispatcher.rs\<close> with the parts of
  \<open>xswd/impl.rs\<close> it calls.  One turn of its loop is a function of the state and
  of what is ready: an event in the channel, the closed channel, or the
  outcome of the Dart callback that is running.  Reply channels are values;
  the replies sent, the Dart callbacks started and the events received are
  recorded in the state.
\<close>

section \<open>Data\<close>

definition MAX_DEFERRED_XSWD_EVENTS :: nat where "MAX_DEFERRED_XSWD_EVENTS = 64"
definition MAX_XSWD_RECEIVE_BURST :: nat where "MAX_XSWD_RECEIVE_BURST = 16"
definition XSWD_HANDLER_CLOSED :: string where "XSWD_HANDLER_CLOSED = ''XSWD_HANDLER_CLOSED''"
definition XSWD_HANDLER_OVERLOADED :: string where "XSWD_HANDLER_OVERLOADED = ''XSWD_HANDLER_OVERLOADED''"
definition XSWD_REQUEST_CANCELLED :: string where "XSWD_REQUEST_CANCELLED = ''XSWD_REQUEST_CANCELLED''"
definition XSWD_REQUEST_QUEUE_FULL :: string where "XSWD_REQUEST_QUEUE_FULL = ''XSWD_REQUEST_QUEUE_FULL''"

datatype permission = PermissionAllow | PermissionReject | PermissionAsk
datatype permission_result = ResultAccept | ResultReject | ResultAlwaysAccept | ResultAlwaysReject
datatype permission_policy = PolicyAsk | PolicyAccept | PolicyReject
datatype user_permission_decision = UserAccept | UserReject | UserAlwaysAccept | UserAlwaysReject

datatype decision_outcome =
  DecisionAccept | DecisionReject | DecisionAlwaysAccept | DecisionAlwaysReject
| DecisionInvalidPayload | DecisionTimeout | DecisionException

datatype notification_outcome =
  NotificationCompleted | NotificationInvalidPayload | NotificationTimeout | NotificationException

datatype ('a, 'r, 'p, 'c) xswd_event =
  RequestApplication 'a 'c | RequestPermission 'a 'r 'c | PrefetchPermissions 'a 'p 'c
| CancelRequest 'a 'c | AppDisconnect 'a

datatype xswd_reply =
  PermissionReply "(permission_result, string) result"
| PrefetchReply "((string \<times> permission) list, string) result"
| CancelReply

record app_info =
  ai_session_ref :: u64
  ai_id :: string
  ai_name :: string
  ai_description :: string
  ai_url :: "string option"
  ai_permissions :: "(string \<times> permission_policy) list"
  ai_is_relayer :: bool

datatype 'f xswd_request_type =
  TypeApplication | TypePermission "'f payload_token list" | TypePrefetch "'f payload_token list"
| TypeCancelRequest | TypeAppDisconnect

record 'f xswd_request_summary =
  rs_event_type :: "'f xswd_request_type"
  rs_application_info :: app_info

datatype 'f dart_call =
  DartApplication "'f xswd_request_summary" | DartPermission "'f xswd_request_summary"
| DartPrefetch "'f xswd_request_summary" | DartCancel "'f xswd_request_summary" bool
| DartDisconnect "'f xswd_request_summary"

text \<open>What the dispatcher reads of an application, its requests and the host's limits.\<close>

record 'a app_api =
  get_id :: "'a \<Rightarrow> string"
  get_name :: "'a \<Rightarrow> string"
  get_description :: "'a \<Rightarrow> string"
  get_url :: "'a \<Rightarrow> string option"
  get_permissions :: "'a \<Rightarrow> (string \<times> permission) list"

record ('a, 'r, 'p, 'n, 'f) xswd_config =
  cf_app :: "'a app_api"
  cf_limits :: projection_limits
  cf_numbers :: "('n, 'f) number_api"
  cf_usize_max :: nat
  cf_request_json :: "'r \<Rightarrow> 'n json option"
  cf_prefetch_json :: "'p \<Rightarrow> 'n json option"
  cf_prefetch_names :: "'p \<Rightarrow> string list"

datatype notification_kind = NotifyCancelRequest | NotifyAppDisconnect

record ('a, 'f) prepared_notification =
  nt_state :: 'a
  nt_summary :: "'f xswd_request_summary"
  nt_kind :: notification_kind
  nt_cancelled_admission :: bool

datatype ('a, 'r, 'p, 'c, 'f) deferred_event =
  DeferredRaw "('a, 'r, 'p, 'c) xswd_event" | DeferredNotification "('a, 'f) prepared_notification"

datatype ('p, 'c) pending_response = PendingPermission 'c | PendingPrefetch 'p 'c

datatype ('p, 'c) active_kind = ActiveDecision "('p, 'c) pending_response" bool | ActiveNotification notification_kind

text \<open>A future is known by the kind of outcome it yields.\<close>

datatype future_kind = DecisionFuture | NotificationFuture

datatype active_outcome = OutcomeDecision decision_outcome | OutcomeNotification notification_outcome

record ('a, 'p, 'c) active_callback =
  ac_state :: 'a
  ac_kind :: "('p, 'c) active_kind"
  ac_future :: future_kind

record ('a, 'p, 'c) pending_decision =
  pd_state :: 'a
  pd_response :: "('p, 'c) pending_response"
  pd_is_application_admission :: bool

datatype ('a, 'c) lifecycle_event = LifecycleCancelRequest 'a 'c | LifecycleAppDisconnect 'a

datatype ('a, 'p, 'c) prepared_event =
  PreparedDecision "('a, 'p, 'c) pending_decision" | PreparedLifecycle "('a, 'c) lifecycle_event"
| PreparedHandled

record ('a, 'r, 'p, 'c, 'f) dispatcher =
  ds_running :: bool
  ds_deferred :: "('a, 'r, 'p, 'c, 'f) deferred_event list"
  ds_active :: "('a, 'p, 'c) active_callback option"
  ds_burst :: nat
  ds_observed :: "'a list"
  ds_registry :: "'a session_registry"
  ds_sent :: "('c \<times> xswd_reply) list"
  ds_calls :: "'f dart_call list"
  ds_received :: "('a, 'r, 'p, 'c) xswd_event list"

section \<open>Replies\<close>

definition send_reply :: "'c \<Rightarrow> xswd_reply \<Rightarrow> ('a, 'r, 'p, 'c, 'f) dispatcher \<Rightarrow> ('a, 'r, 'p, 'c, 'f) dispatcher" where
  "send_reply c reply s = s\<lparr> ds_sent := ds_sent s @ [(c, reply)] \<rparr>"

definition start_call :: "'f dart_call \<Rightarrow> ('a, 'r, 'p, 'c, 'f) dispatcher \<Rightarrow> ('a, 'r, 'p, 'c, 'f) dispatcher" where
  "start_call d s = s\<lparr> ds_calls := ds_calls s @ [d] \<rparr>"

definition send_permission_failure where
  "send_permission_failure c code = send_reply c (PermissionReply (Err code))"

definition send_prefetch_failure where
  "send_prefetch_failure c code = send_reply c (PrefetchReply (Err code))"

definition acknowledge_cancelled_request where
  "acknowledge_cancelled_request c = send_reply c CancelReply"

fun decision_failure_code :: "decision_outcome \<Rightarrow> string" where
  "decision_failure_code DecisionInvalidPayload = ''XSWD_CALLBACK_PAYLOAD_INVALID''"
| "decision_failure_code DecisionTimeout = ''XSWD_CALLBACK_TIMEOUT''"
| "decision_failure_code DecisionException = ''XSWD_CALLBACK_EXCEPTION''"
| "decision_failure_code _ = ''XSWD_CALLBACK_OUTCOME_INVALID''"

fun permission_result_from_outcome :: "decision_outcome \<Rightarrow> (permission_result, string) result" where
  "permission_result_from_outcome DecisionAccept = Ok ResultAccept"
| "permission_result_from_outcome DecisionReject = Ok ResultReject"
| "permission_result_from_outcome DecisionAlwaysAccept = Ok ResultAlwaysAccept"
| "permission_result_from_outcome DecisionAlwaysReject = Ok ResultAlwaysReject"
| "permission_result_from_outcome failure = Err (decision_failure_code failure)"

definition index_insert :: "'k \<Rightarrow> 'v \<Rightarrow> ('k \<times> 'v) list \<Rightarrow> ('k \<times> 'v) list" where
  "index_insert k v m =
     (if k \<in> fst ` set m then map (\<lambda>(k', v'). if k' = k then (k, v) else (k', v')) m else m @ [(k, v)])"

definition prefetch_permissions_from_decision ::
  "user_permission_decision \<Rightarrow> string list \<Rightarrow> (string \<times> permission) list" where
  "prefetch_permissions_from_decision decision names =
     (if decision = UserAccept \<or> decision = UserAlwaysAccept
      then fold (\<lambda>p m. index_insert p PermissionAllow m) names [] else [])"

definition handle_permission_outcome where
  "handle_permission_outcome outcome c =
     send_reply c (PermissionReply (permission_result_from_outcome outcome))"

definition handle_prefetch_permissions_outcome where
  "handle_prefetch_permissions_outcome cf outcome p c =
     send_reply c (PrefetchReply
       (if outcome = DecisionAccept \<or> outcome = DecisionAlwaysAccept
        then Ok (prefetch_permissions_from_decision UserAccept (cf_prefetch_names cf p))
        else if outcome = DecisionReject \<or> outcome = DecisionAlwaysReject then Ok []
        else Err (decision_failure_code outcome)))"

fun complete_response where
  "complete_response cf (PendingPermission c) outcome = handle_permission_outcome outcome c"
| "complete_response cf (PendingPrefetch p c) outcome = handle_prefetch_permissions_outcome cf outcome p c"

fun fail_response where
  "fail_response (PendingPermission c) code = send_permission_failure c code"
| "fail_response (PendingPrefetch p c) code = send_prefetch_failure c code"

section \<open>The active callback\<close>

fun is_decision :: "('p, 'c) active_kind \<Rightarrow> bool" where
  "is_decision (ActiveDecision _ _) = True"
| "is_decision (ActiveNotification _) = False"

definition is_decision_for :: "('a, 'p, 'c) active_callback \<Rightarrow> 'a \<Rightarrow> bool" where
  "is_decision_for act a \<longleftrightarrow> is_decision (ac_kind act) \<and> ac_state act = a"

definition is_application_admission :: "('a, 'p, 'c) active_callback \<Rightarrow> bool" where
  "is_application_admission act \<longleftrightarrow> (case ac_kind act of ActiveDecision _ b \<Rightarrow> b | _ \<Rightarrow> False)"

definition is_disconnect_for :: "('a, 'p, 'c) active_callback \<Rightarrow> 'a \<Rightarrow> bool" where
  "is_disconnect_for act a \<longleftrightarrow> ac_kind act = ActiveNotification NotifyAppDisconnect \<and> ac_state act = a"

fun complete_kind where
  "complete_kind cf (ActiveDecision response _) (OutcomeDecision outcome) s = complete_response cf response outcome s"
| "complete_kind cf (ActiveNotification _) (OutcomeNotification _) s = s"
| "complete_kind cf _ _ s = s"

fun fail_active where
  "fail_active (ActiveDecision response _) code s = fail_response response code s"
| "fail_active (ActiveNotification _) code s = s"

definition cancel_active where
  "cancel_active k s = fail_active k XSWD_REQUEST_CANCELLED s"

definition into_active :: "('a, 'p, 'c) pending_decision \<Rightarrow> ('a, 'p, 'c) active_callback" where
  "into_active d =
     \<lparr> ac_state = pd_state d, ac_kind = ActiveDecision (pd_response d) (pd_is_application_admission d),
       ac_future = DecisionFuture \<rparr>"

definition start_notification ::
  "('a, 'f) prepared_notification \<Rightarrow> ('a, 'r, 'p, 'c, 'f) dispatcher
   \<Rightarrow> ('a, 'p, 'c) active_callback \<times> ('a, 'r, 'p, 'c, 'f) dispatcher" where
  "start_notification n s =
     (\<lparr> ac_state = nt_state n, ac_kind = ActiveNotification (nt_kind n), ac_future = NotificationFuture \<rparr>,
      start_call (case nt_kind n of
          NotifyCancelRequest \<Rightarrow> DartCancel (nt_summary n) (nt_cancelled_admission n)
        | NotifyAppDisconnect \<Rightarrow> DartDisconnect (nt_summary n)) s)"

section \<open>Summaries\<close>

fun policy_of_permission :: "permission \<Rightarrow> permission_policy" where
  "policy_of_permission PermissionAsk = PolicyAsk"
| "policy_of_permission PermissionAllow = PolicyAccept"
| "policy_of_permission PermissionReject = PolicyReject"

definition create_app_info_with_session_ref :: "'a app_api \<Rightarrow> 'a \<Rightarrow> bool \<Rightarrow> u64 \<Rightarrow> app_info" where
  "create_app_info_with_session_ref app a is_relayer r =
     \<lparr> ai_session_ref = r, ai_id = get_id app a, ai_name = get_name app a,
       ai_description = get_description app a, ai_url = get_url app a,
       ai_permissions = map (\<lambda>(k, p). (k, policy_of_permission p)) (get_permissions app a),
       ai_is_relayer = is_relayer \<rparr>"

definition create_event_summary ::
  "('a, 'r, 'p, 'n, 'f) xswd_config \<Rightarrow> 'a \<Rightarrow> 'f xswd_request_type \<Rightarrow> ('a, 'r, 'p, 'c, 'f) dispatcher
   \<Rightarrow> ('f xswd_request_summary, session_reference_error) result \<times> ('a, 'r, 'p, 'c, 'f) dispatcher" where
  "create_event_summary cf a ty s =
     (case register_session a (ds_registry s) of
        (r, reg) \<Rightarrow>
          (map_ok (\<lambda>r. \<lparr> rs_event_type = ty,
             rs_application_info = create_app_info_with_session_ref (cf_app cf) a False r \<rparr>) r,
           s\<lparr> ds_registry := reg \<rparr>))"

definition create_lifecycle_event_summary ::
  "('a, 'r, 'p, 'n, 'f) xswd_config \<Rightarrow> 'a \<Rightarrow> 'f xswd_request_type \<Rightarrow> ('a, 'r, 'p, 'c, 'f) dispatcher
   \<Rightarrow> ('f xswd_request_summary, session_reference_error) result \<times> ('a, 'r, 'p, 'c, 'f) dispatcher" where
  "create_lifecycle_event_summary cf a ty s =
     (case project_session a (ds_registry s) of
        (r, reg) \<Rightarrow>
          (map_ok (\<lambda>r. \<lparr> rs_event_type = ty,
             rs_application_info = create_app_info_with_session_ref (cf_app cf) a False r \<rparr>) r,
           s\<lparr> ds_registry := reg \<rparr>))"

definition fail_permission_projection where
  "fail_permission_projection c = send_reply c (PermissionReply (Err ''XSWD_PAYLOAD_PROJECTION_FAILED''))"

definition fail_prefetch_projection where
  "fail_prefetch_projection c = send_reply c (PrefetchReply (Err ''XSWD_PAYLOAD_PROJECTION_FAILED''))"

fun prepare_xswd_event ::
  "('a, 'r, 'p, 'n, 'f) xswd_config \<Rightarrow> ('a, 'r, 'p, 'c) xswd_event \<Rightarrow> ('a, 'r, 'p, 'c, 'f) dispatcher
   \<Rightarrow> ('a, 'p, 'c) prepared_event \<times> ('a, 'r, 'p, 'c, 'f) dispatcher" where
  "prepare_xswd_event cf (RequestApplication a c) s =
     (case create_event_summary cf a TypeApplication s of
        (Inl e, s) \<Rightarrow> (PreparedHandled, send_permission_failure c (reference_error_code e) s)
      | (Inr summary, s) \<Rightarrow>
          (PreparedDecision \<lparr> pd_state = a, pd_response = PendingPermission c,
             pd_is_application_admission = True \<rparr>, start_call (DartApplication summary) s))"
| "prepare_xswd_event cf (RequestPermission a request c) s =
     (case project_payload (cf_numbers cf) (cf_usize_max cf) (cf_request_json cf) request (cf_limits cf) of
        Inl e \<Rightarrow> (PreparedHandled, fail_permission_projection c s)
      | Inr payload \<Rightarrow>
          (case create_event_summary cf a (TypePermission payload) s of
             (Inl e, s) \<Rightarrow> (PreparedHandled, send_permission_failure c (reference_error_code e) s)
           | (Inr summary, s) \<Rightarrow>
               (PreparedDecision \<lparr> pd_state = a, pd_response = PendingPermission c,
                  pd_is_application_admission = False \<rparr>, start_call (DartPermission summary) s)))"
| "prepare_xswd_event cf (PrefetchPermissions a permissions c) s =
     (case project_payload (cf_numbers cf) (cf_usize_max cf) (cf_prefetch_json cf) permissions (cf_limits cf) of
        Inl e \<Rightarrow> (PreparedHandled, fail_prefetch_projection c s)
      | Inr payload \<Rightarrow>
          (case create_event_summary cf a (TypePrefetch payload) s of
             (Inl e, s) \<Rightarrow> (PreparedHandled, send_prefetch_failure c (reference_error_code e) s)
           | (Inr summary, s) \<Rightarrow>
               (PreparedDecision \<lparr> pd_state = a, pd_response = PendingPrefetch permissions c,
                  pd_is_application_admission = False \<rparr>, start_call (DartPrefetch summary) s)))"
| "prepare_xswd_event cf (CancelRequest a c) s = (PreparedLifecycle (LifecycleCancelRequest a c), s)"
| "prepare_xswd_event cf (AppDisconnect a) s = (PreparedLifecycle (LifecycleAppDisconnect a), s)"

fun acknowledge_lifecycle where
  "acknowledge_lifecycle (LifecycleCancelRequest a c) s =
     ((a, NotifyCancelRequest), acknowledge_cancelled_request c s)"
| "acknowledge_lifecycle (LifecycleAppDisconnect a) s = ((a, NotifyAppDisconnect), s)"

definition prepare_xswd_lifecycle_notification ::
  "('a, 'r, 'p, 'n, 'f) xswd_config \<Rightarrow> 'a \<Rightarrow> notification_kind \<Rightarrow> bool \<Rightarrow> ('a, 'r, 'p, 'c, 'f) dispatcher
   \<Rightarrow> ('a, 'f) prepared_notification option \<times> ('a, 'r, 'p, 'c, 'f) dispatcher" where
  "prepare_xswd_lifecycle_notification cf a kind cancelled s =
     (case kind of
        NotifyCancelRequest \<Rightarrow>
          (case create_lifecycle_event_summary cf a TypeCancelRequest s of
             (Inl e, s) \<Rightarrow> (None, s)
           | (Inr summary, s) \<Rightarrow>
               (Some \<lparr> nt_state = a, nt_summary = summary, nt_kind = NotifyCancelRequest,
                  nt_cancelled_admission = cancelled \<rparr>, s))
      | NotifyAppDisconnect \<Rightarrow>
          (case create_lifecycle_event_summary cf a TypeAppDisconnect s of
             (Inl e, s) \<Rightarrow> (None, s)
           | (Inr summary, s) \<Rightarrow>
               (Some \<lparr> nt_state = a, nt_summary = summary, nt_kind = NotifyAppDisconnect,
                  nt_cancelled_admission = False \<rparr>, s)))"

section \<open>The deferred queue\<close>

fun cancel_deferred_loop where
  "cancel_deferred_loop a [] retained cancelled s = (cancelled, s\<lparr> ds_deferred := retained \<rparr>)"
| "cancel_deferred_loop a (e # es) retained cancelled s =
     (case e of
        DeferredRaw (RequestApplication a' c) \<Rightarrow>
          if a' = a then cancel_deferred_loop a es retained True (send_permission_failure c XSWD_REQUEST_CANCELLED s)
          else cancel_deferred_loop a es (retained @ [e]) cancelled s
      | DeferredRaw (RequestPermission a' _ c) \<Rightarrow>
          if a' = a then cancel_deferred_loop a es retained cancelled (send_permission_failure c XSWD_REQUEST_CANCELLED s)
          else cancel_deferred_loop a es (retained @ [e]) cancelled s
      | DeferredRaw (PrefetchPermissions a' _ c) \<Rightarrow>
          if a' = a then cancel_deferred_loop a es retained cancelled (send_prefetch_failure c XSWD_REQUEST_CANCELLED s)
          else cancel_deferred_loop a es (retained @ [e]) cancelled s
      | _ \<Rightarrow> cancel_deferred_loop a es (retained @ [e]) cancelled s)"

definition cancel_deferred_xswd_decisions where
  "cancel_deferred_xswd_decisions a s = cancel_deferred_loop a (ds_deferred s) [] False s"

fun fail_deferred_xswd_event where
  "fail_deferred_xswd_event (DeferredRaw (RequestApplication a c)) code s = send_permission_failure c code s"
| "fail_deferred_xswd_event (DeferredRaw (RequestPermission a r c)) code s = send_permission_failure c code s"
| "fail_deferred_xswd_event (DeferredRaw (PrefetchPermissions a p c)) code s = send_prefetch_failure c code s"
| "fail_deferred_xswd_event (DeferredRaw (CancelRequest a c)) code s = acknowledge_cancelled_request c s"
| "fail_deferred_xswd_event (DeferredRaw (AppDisconnect a)) code s = s"
| "fail_deferred_xswd_event (DeferredNotification n) code s = s"

definition defer_xswd_decision where
  "defer_xswd_decision ev s =
     (if length (ds_deferred s) < MAX_DEFERRED_XSWD_EVENTS
      then s\<lparr> ds_deferred := ds_deferred s @ [DeferredRaw ev] \<rparr>
      else case ev of
        RequestApplication a c \<Rightarrow> send_permission_failure c XSWD_REQUEST_QUEUE_FULL s
      | RequestPermission a r c \<Rightarrow> send_permission_failure c XSWD_REQUEST_QUEUE_FULL s
      | PrefetchPermissions a p c \<Rightarrow> send_prefetch_failure c XSWD_REQUEST_QUEUE_FULL s
      | AppDisconnect a \<Rightarrow> s
      | CancelRequest a c \<Rightarrow> acknowledge_cancelled_request c s)"

fun is_xswd_decision_event where
  "is_xswd_decision_event (DeferredRaw (RequestApplication _ _)) = True"
| "is_xswd_decision_event (DeferredRaw (RequestPermission _ _ _)) = True"
| "is_xswd_decision_event (DeferredRaw (PrefetchPermissions _ _ _)) = True"
| "is_xswd_decision_event _ = False"

fun is_deferred_disconnect_for where
  "is_deferred_disconnect_for a (DeferredNotification n) \<longleftrightarrow>
     nt_kind n = NotifyAppDisconnect \<and> nt_state n = a"
| "is_deferred_disconnect_for a (DeferredRaw _) \<longleftrightarrow> False"

definition defer_xswd_disconnect where
  "defer_xswd_disconnect n s =
     (if (case ds_active s of Some act \<Rightarrow> is_disconnect_for act (nt_state n) | None \<Rightarrow> False) \<or>
         list_ex (is_deferred_disconnect_for (nt_state n)) (ds_deferred s)
      then (None, s)
      else if length (ds_deferred s) \<ge> MAX_DEFERRED_XSWD_EVENTS then
        (case List.extract is_xswd_decision_event (ds_deferred s) of
           Some (before, e, after) \<Rightarrow>
             (let s = fail_deferred_xswd_event e XSWD_REQUEST_QUEUE_FULL (s\<lparr> ds_deferred := before @ after \<rparr>) in
              (None, if length (ds_deferred s) < MAX_DEFERRED_XSWD_EVENTS
                     then s\<lparr> ds_deferred := ds_deferred s @ [DeferredNotification n] \<rparr> else s))
         | None \<Rightarrow>
             (case ds_deferred s of
                [] \<Rightarrow> (None, s\<lparr> ds_deferred := [DeferredNotification n] \<rparr>)
              | e # es \<Rightarrow>
                  (case e of DeferredNotification m \<Rightarrow> Some m | DeferredRaw _ \<Rightarrow> None,
                   s\<lparr> ds_deferred := es @ [DeferredNotification n] \<rparr>)))
      else (None, s\<lparr> ds_deferred := ds_deferred s @ [DeferredNotification n] \<rparr>))"

fun fail_deferred_loop where
  "fail_deferred_loop [] code s = s\<lparr> ds_deferred := [] \<rparr>"
| "fail_deferred_loop (e # es) code s = fail_deferred_loop es code (fail_deferred_xswd_event e code s)"

definition fail_deferred_xswd_events where
  "fail_deferred_xswd_events code s = fail_deferred_loop (ds_deferred s) code s"

section \<open>Observed states\<close>

fun xswd_event_state :: "('a, 'r, 'p, 'c) xswd_event \<Rightarrow> 'a" where
  "xswd_event_state (RequestApplication a _) = a"
| "xswd_event_state (RequestPermission a _ _) = a"
| "xswd_event_state (PrefetchPermissions a _ _) = a"
| "xswd_event_state (CancelRequest a _) = a"
| "xswd_event_state (AppDisconnect a) = a"

definition track_xswd_state :: "'a \<Rightarrow> ('a, 'r, 'p, 'c, 'f) dispatcher \<Rightarrow> ('a, 'r, 'p, 'c, 'f) dispatcher" where
  "track_xswd_state a s =
     (let observed = filter (live (ds_registry s)) (ds_observed s) in
      s\<lparr> ds_observed := (if a \<in> set observed then observed else observed @ [a]) \<rparr>)"

definition invalidate_observed_xswd_states ::
  "('a, 'r, 'p, 'c, 'f) dispatcher \<Rightarrow> ('a, 'r, 'p, 'c, 'f) dispatcher" where
  "invalidate_observed_xswd_states s =
     s\<lparr> ds_registry := fold invalidate_state (filter (live (ds_registry s)) (ds_observed s)) (ds_registry s) \<rparr>"

definition receive_event ::
  "('a, 'r, 'p, 'c) xswd_event \<Rightarrow> ('a, 'r, 'p, 'c, 'f) dispatcher \<Rightarrow> ('a, 'r, 'p, 'c, 'f) dispatcher" where
  "receive_event ev s = track_xswd_state (xswd_event_state ev) (s\<lparr> ds_received := ds_received s @ [ev] \<rparr>)"

section \<open>The loop\<close>

definition invalidate_in where
  "invalidate_in a s = s\<lparr> ds_registry := invalidate_state a (ds_registry s) \<rparr>"

definition activate ::
  "('a, 'f) prepared_notification \<Rightarrow> ('a, 'r, 'p, 'c, 'f) dispatcher \<Rightarrow> ('a, 'r, 'p, 'c, 'f) dispatcher" where
  "activate n s = (case start_notification n s of (act, s) \<Rightarrow> s\<lparr> ds_active := Some act, ds_burst := 0 \<rparr>)"

definition dispatch_next where
  "dispatch_next cf e s =
     (case e of
        DeferredNotification n \<Rightarrow> activate n s
      | DeferredRaw ev \<Rightarrow>
          (case prepare_xswd_event cf ev s of
             (PreparedDecision d, s) \<Rightarrow> s\<lparr> ds_active := Some (into_active d), ds_burst := 0 \<rparr>
           | (PreparedLifecycle lc, s) \<Rightarrow>
               (case acknowledge_lifecycle lc s of
                  ((a, kind), s) \<Rightarrow>
                    (let s = (if kind = NotifyAppDisconnect then invalidate_in a s else s) in
                     case prepare_xswd_lifecycle_notification cf a kind False s of
                       (None, s) \<Rightarrow> s
                     | (Some n, s) \<Rightarrow> activate n s))
           | (PreparedHandled, s) \<Rightarrow> s))"

definition take_active_if where
  "take_active_if b f s =
     (if b then (case ds_active s of None \<Rightarrow> s | Some act \<Rightarrow> f (ac_kind act) (s\<lparr> ds_active := None \<rparr>)) else s)"

definition notify_cancel ::
  "bool \<Rightarrow> ('a, 'f) prepared_notification option \<Rightarrow> ('a, 'r, 'p, 'c, 'f) dispatcher \<Rightarrow> ('a, 'r, 'p, 'c, 'f) dispatcher" where
  "notify_cancel cancels_active notification s =
     (case notification of
        None \<Rightarrow> s
      | Some n \<Rightarrow>
          if cancels_active then activate n s
          else if length (ds_deferred s) < MAX_DEFERRED_XSWD_EVENTS
          then s\<lparr> ds_deferred := ds_deferred s @ [DeferredNotification n] \<rparr>
          else s)"

definition dispatch_cancel_request where
  "dispatch_cancel_request cf a c s =
     (case cancel_deferred_xswd_decisions a s of
        (cancelled_deferred, s) \<Rightarrow>
          (let cancels_active = (case ds_active s of Some act \<Rightarrow> is_decision_for act a | None \<Rightarrow> False);
               cancelled_admission = (cancelled_deferred \<or> cancels_active \<and>
                 (case ds_active s of Some act \<Rightarrow> is_application_admission act | None \<Rightarrow> False));
               s = (if cancelled_admission then invalidate_in a s else s);
               s = take_active_if cancels_active cancel_active s;
               s = acknowledge_cancelled_request c s in
           case prepare_xswd_lifecycle_notification cf a NotifyCancelRequest cancelled_admission s of
             (notification, s) \<Rightarrow> notify_cancel cancels_active notification s))"

definition overload where
  "overload next s =
     (let s = (case ds_active s of
          Some act \<Rightarrow> if is_application_admission act then invalidate_in (ac_state act) s else s
        | None \<Rightarrow> s);
          s = take_active_if True (\<lambda>k. fail_active k XSWD_HANDLER_OVERLOADED) s in
      activate next s)"

definition notify_disconnect ::
  "bool \<Rightarrow> ('a, 'f) prepared_notification option \<Rightarrow> ('a, 'r, 'p, 'c, 'f) dispatcher \<Rightarrow> ('a, 'r, 'p, 'c, 'f) dispatcher" where
  "notify_disconnect disconnects_active notification s =
     (case notification of
        None \<Rightarrow> s
      | Some n \<Rightarrow>
          if disconnects_active then activate n s
          else (case defer_xswd_disconnect n s of
                  (None, s) \<Rightarrow> s
                | (Some next, s) \<Rightarrow> overload next s))"

definition dispatch_app_disconnect where
  "dispatch_app_disconnect cf a s =
     (case cancel_deferred_xswd_decisions a s of
        (_, s) \<Rightarrow>
          (let disconnects_active = (case ds_active s of Some act \<Rightarrow> is_decision_for act a | None \<Rightarrow> False);
               s = invalidate_in a s;
               s = take_active_if disconnects_active cancel_active s in
           case prepare_xswd_lifecycle_notification cf a NotifyAppDisconnect False s of
             (notification, s) \<Rightarrow> notify_disconnect disconnects_active notification s))"

definition dispatch_event where
  "dispatch_event cf ev s =
     (let s = receive_event ev (s\<lparr> ds_burst := ds_burst s + 1 \<rparr>) in
      case ev of
        CancelRequest a c \<Rightarrow> dispatch_cancel_request cf a c s
      | AppDisconnect a \<Rightarrow> dispatch_app_disconnect cf a s
      | _ \<Rightarrow> defer_xswd_decision ev s)"

definition dispatch_callback where
  "dispatch_callback cf outcome s =
     take_active_if True (\<lambda>k. complete_kind cf k outcome) (s\<lparr> ds_burst := 0 \<rparr>)"

definition dispatch_closed where
  "dispatch_closed s =
     (let s = invalidate_observed_xswd_states s;
          s = take_active_if True (\<lambda>k. fail_active k XSWD_HANDLER_CLOSED) s;
          s = fail_deferred_xswd_events XSWD_HANDLER_CLOSED s in
      s\<lparr> ds_running := False \<rparr>)"

text \<open>What a turn finds: an event, a closed channel or nothing, and the outcome of the running
  callback when it is ready, one for each kind of future.\<close>

type_synonym ('a, 'r, 'p, 'c) channel = "('a, 'r, 'p, 'c) xswd_event option option"
type_synonym poll = "(decision_outcome \<times> notification_outcome) option"

datatype ('a, 'r, 'p, 'c) handler_input =
  InputCallback active_outcome | InputEvent "('a, 'r, 'p, 'c) xswd_event option" | InputPending

definition poll_future :: "('a, 'p, 'c) active_callback \<Rightarrow> poll \<Rightarrow> active_outcome option" where
  "poll_future act poll =
     map_option (\<lambda>(d, n). case ac_future act of
       DecisionFuture \<Rightarrow> OutcomeDecision d | NotificationFuture \<Rightarrow> OutcomeNotification n) poll"

text \<open>The biased select: events first, except that a full burst lets the callback go first.\<close>

definition select_input ::
  "nat \<Rightarrow> ('a, 'r, 'p, 'c) channel \<Rightarrow> active_outcome option \<Rightarrow> ('a, 'r, 'p, 'c) handler_input \<times> nat" where
  "select_input burst incoming ready =
     (if burst \<ge> MAX_XSWD_RECEIVE_BURST
      then (case ready of
              Some outcome \<Rightarrow> InputCallback outcome
            | None \<Rightarrow> (case incoming of Some ev \<Rightarrow> InputEvent ev | None \<Rightarrow> InputPending), 0)
      else (case incoming of
              Some ev \<Rightarrow> InputEvent ev
            | None \<Rightarrow> (case ready of Some outcome \<Rightarrow> InputCallback outcome | None \<Rightarrow> InputPending), burst))"

definition dispatcher_turn where
  "dispatcher_turn cf incoming poll s =
     (if \<not> ds_running s then None
      else case ds_active s of
        None \<Rightarrow>
          (case ds_deferred s of
             e # es \<Rightarrow> Some (dispatch_next cf e (s\<lparr> ds_deferred := es \<rparr>))
           | [] \<Rightarrow>
               (case incoming of
                  None \<Rightarrow> None
                | Some None \<Rightarrow> Some ((invalidate_observed_xswd_states s)\<lparr> ds_running := False \<rparr>)
                | Some (Some ev) \<Rightarrow> Some (dispatch_next cf (DeferredRaw ev) (receive_event ev s))))
      | Some act \<Rightarrow>
          (case select_input (ds_burst s) incoming (poll_future act poll) of
             (InputCallback outcome, burst) \<Rightarrow> Some (dispatch_callback cf outcome (s\<lparr> ds_burst := burst \<rparr>))
           | (InputEvent None, burst) \<Rightarrow> Some (dispatch_closed (s\<lparr> ds_burst := burst \<rparr>))
           | (InputEvent (Some ev), burst) \<Rightarrow> Some (dispatch_event cf ev (s\<lparr> ds_burst := burst \<rparr>))
           | (InputPending, burst) \<Rightarrow> None))"

definition dispatcher_start :: "'a session_registry \<Rightarrow> ('a, 'r, 'p, 'c, 'f) dispatcher" where
  "dispatcher_start reg =
     \<lparr> ds_running = True, ds_deferred = [], ds_active = None, ds_burst = 0, ds_observed = [],
       ds_registry = reg, ds_sent = [], ds_calls = [], ds_received = [] \<rparr>"

text \<open>Turns of the dispatcher, interleaved with the registry operations of other code and with
  states that come into being or are dropped.\<close>

inductive dispatcher_step ::
  "('a, 'r, 'p, 'n, 'f) xswd_config \<Rightarrow> ('a, 'r, 'p, 'c, 'f) dispatcher \<Rightarrow> ('a, 'r, 'p, 'c, 'f) dispatcher \<Rightarrow> bool"
  for cf where
  turn: "dispatcher_turn cf incoming poll s = Some s' \<Longrightarrow> dispatcher_step cf s s'"
| elsewhere: "registry_inv reg \<Longrightarrow> registry_evolves (ds_registry s) reg \<Longrightarrow>
     dispatcher_step cf s (s\<lparr> ds_registry := reg \<rparr>)"
| ownership: "dispatcher_step cf s (s\<lparr> ds_registry := (ds_registry s)\<lparr> live := alive \<rparr> \<rparr>)"

section \<open>What is owed\<close>

fun event_callbacks :: "('a, 'r, 'p, 'c) xswd_event \<Rightarrow> 'c multiset" where
  "event_callbacks (RequestApplication _ c) = {#c#}"
| "event_callbacks (RequestPermission _ _ c) = {#c#}"
| "event_callbacks (PrefetchPermissions _ _ c) = {#c#}"
| "event_callbacks (CancelRequest _ c) = {#c#}"
| "event_callbacks (AppDisconnect _) = {#}"

fun deferred_callbacks :: "('a, 'r, 'p, 'c, 'f) deferred_event \<Rightarrow> 'c multiset" where
  "deferred_callbacks (DeferredRaw ev) = event_callbacks ev"
| "deferred_callbacks (DeferredNotification _) = {#}"

fun response_callback :: "('p, 'c) pending_response \<Rightarrow> 'c" where
  "response_callback (PendingPermission c) = c"
| "response_callback (PendingPrefetch _ c) = c"

fun kind_callbacks :: "('p, 'c) active_kind \<Rightarrow> 'c multiset" where
  "kind_callbacks (ActiveDecision response _) = {#response_callback response#}"
| "kind_callbacks (ActiveNotification _) = {#}"

definition active_callbacks :: "('a, 'p, 'c) active_callback option \<Rightarrow> 'c multiset" where
  "active_callbacks act = (case act of None \<Rightarrow> {#} | Some act \<Rightarrow> kind_callbacks (ac_kind act))"

definition answered :: "('a, 'r, 'p, 'c, 'f) dispatcher \<Rightarrow> 'c multiset" where
  "answered s = mset (map fst (ds_sent s))"

definition owed :: "('a, 'r, 'p, 'c, 'f) dispatcher \<Rightarrow> 'c multiset" where
  "owed s = active_callbacks (ds_active s) + sum_list (map deferred_callbacks (ds_deferred s))"

definition requested :: "('a, 'r, 'p, 'c, 'f) dispatcher \<Rightarrow> 'c multiset" where
  "requested s = sum_list (map event_callbacks (ds_received s))"

definition future_matches :: "('a, 'p, 'c) active_callback \<Rightarrow> bool" where
  "future_matches act \<longleftrightarrow> (ac_future act = DecisionFuture) = is_decision (ac_kind act)"

fun queueable :: "('a, 'r, 'p, 'c, 'f) deferred_event \<Rightarrow> bool" where
  "queueable (DeferredNotification _) = True"
| "queueable (DeferredRaw ev) = is_xswd_decision_event (DeferredRaw ev :: ('a, 'r, 'p, 'c, 'f) deferred_event)"

definition dispatcher_inv :: "('a, 'r, 'p, 'c, 'f) dispatcher \<Rightarrow> bool" where
  "dispatcher_inv s \<longleftrightarrow>
     length (ds_deferred s) \<le> MAX_DEFERRED_XSWD_EVENTS \<and> list_all queueable (ds_deferred s) \<and>
     (case ds_active s of None \<Rightarrow> True | Some act \<Rightarrow> future_matches act) \<and>
     ds_burst s \<le> MAX_XSWD_RECEIVE_BURST \<and> registry_inv (ds_registry s) \<and>
     (\<not> ds_running s \<longrightarrow> ds_active s = None \<and> ds_deferred s = []) \<and>
     answered s + owed s = requested s"

text \<open>Which deferred events a state's cancellation removes, and the failure each of them is sent.\<close>

fun targets :: "'a \<Rightarrow> ('a, 'r, 'p, 'c, 'f) deferred_event \<Rightarrow> bool" where
  "targets a (DeferredRaw (RequestApplication a' _)) \<longleftrightarrow> a' = a"
| "targets a (DeferredRaw (RequestPermission a' _ _)) \<longleftrightarrow> a' = a"
| "targets a (DeferredRaw (PrefetchPermissions a' _ _)) \<longleftrightarrow> a' = a"
| "targets a _ \<longleftrightarrow> False"

fun failure_replies :: "string \<Rightarrow> ('a, 'r, 'p, 'c, 'f) deferred_event \<Rightarrow> ('c \<times> xswd_reply) list" where
  "failure_replies code (DeferredRaw (RequestApplication _ c)) = [(c, PermissionReply (Err code))]"
| "failure_replies code (DeferredRaw (RequestPermission _ _ c)) = [(c, PermissionReply (Err code))]"
| "failure_replies code (DeferredRaw (PrefetchPermissions _ _ c)) = [(c, PrefetchReply (Err code))]"
| "failure_replies code (DeferredRaw (CancelRequest _ c)) = [(c, CancelReply)]"
| "failure_replies code _ = []"

section \<open>Lemmas\<close>

named_theorems dispatch_simps \<open>equations that compute the effect of a dispatcher operation\<close>

lemmas reply_defs [dispatch_simps] =
  send_reply_def start_call_def send_permission_failure_def send_prefetch_failure_def
  acknowledge_cancelled_request_def handle_permission_outcome_def
  handle_prefetch_permissions_outcome_def fail_permission_projection_def fail_prefetch_projection_def
  cancel_active_def invalidate_in_def

lemma failure_replies_callbacks: "mset (map fst (failure_replies code e)) = deferred_callbacks e"
  by (cases "(code, e)" rule: failure_replies.cases) auto

lemma fail_deferred_event [dispatch_simps]:
  "fail_deferred_xswd_event e code s = s\<lparr> ds_sent := ds_sent s @ failure_replies code e \<rparr>"
  by (cases "(code, e)" rule: failure_replies.cases) (auto simp: dispatch_simps)

lemma fail_deferred_events [dispatch_simps]:
  "fail_deferred_xswd_events code s =
     s\<lparr> ds_deferred := [], ds_sent := ds_sent s @ concat (map (failure_replies code) (ds_deferred s)) \<rparr>"
proof -
  have "fail_deferred_loop es code s =
      s\<lparr> ds_deferred := [], ds_sent := ds_sent s @ concat (map (failure_replies code) es) \<rparr>" for es s
    by (induction es arbitrary: s) (auto simp: fail_deferred_event)
  then show ?thesis by (simp add: fail_deferred_xswd_events_def)
qed

lemma cancel_deferred_loop_eq:
  "cancel_deferred_loop a es ret b s =
     (b \<or> list_ex (\<lambda>e. \<exists>c. e = DeferredRaw (RequestApplication a c)) es,
      s\<lparr> ds_deferred := ret @ filter (\<lambda>e. \<not> targets a e) es,
         ds_sent := ds_sent s @
           concat (map (failure_replies XSWD_REQUEST_CANCELLED) (filter (targets a) es)) \<rparr>)"
  by (induction es arbitrary: ret b s)
    (auto simp: dispatch_simps split: deferred_event.split xswd_event.split)

lemma cancel_deferred [dispatch_simps]:
  "cancel_deferred_xswd_decisions a s =
     (list_ex (\<lambda>e. \<exists>c. e = DeferredRaw (RequestApplication a c)) (ds_deferred s),
      s\<lparr> ds_deferred := filter (\<lambda>e. \<not> targets a e) (ds_deferred s),
         ds_sent := ds_sent s @
           concat (map (failure_replies XSWD_REQUEST_CANCELLED) (filter (targets a) (ds_deferred s))) \<rparr>)"
  by (simp add: cancel_deferred_xswd_decisions_def cancel_deferred_loop_eq)

text \<open>The invariant while some callbacks are in the hands of the operation that runs.\<close>

definition held_inv :: "'c multiset \<Rightarrow> ('a, 'r, 'p, 'c, 'f) dispatcher \<Rightarrow> bool" where
  "held_inv x s \<longleftrightarrow> ds_running s \<and>
     length (ds_deferred s) \<le> MAX_DEFERRED_XSWD_EVENTS \<and> list_all queueable (ds_deferred s) \<and>
     (case ds_active s of None \<Rightarrow> True | Some act \<Rightarrow> future_matches act) \<and>
     ds_burst s \<le> MAX_XSWD_RECEIVE_BURST \<and> registry_inv (ds_registry s) \<and>
     answered s + owed s + x = requested s"

lemma dispatcher_inv_held:
  "dispatcher_inv s \<longleftrightarrow> held_inv {#} (s\<lparr> ds_running := True \<rparr>) \<and>
     (\<not> ds_running s \<longrightarrow> ds_active s = None \<and> ds_deferred s = [])"
  by (auto simp: dispatcher_inv_def held_inv_def answered_def owed_def requested_def)

lemmas owed_defs = answered_def owed_def requested_def active_callbacks_def

lemma held_receive: "held_inv x s \<Longrightarrow> held_inv (x + event_callbacks ev) (receive_event ev s)"
  by (simp add: held_inv_def receive_event_def track_xswd_state_def Let_def owed_defs ac_simps)

lemma held_invalidate: "held_inv x s \<Longrightarrow> held_inv x (invalidate_in a s)"
  using registry_op_invalidate [of a]
  by (auto simp: held_inv_def invalidate_in_def owed_defs registry_op_def)

lemma held_reply: "held_inv (x + {#c#}) s \<Longrightarrow> held_inv x (send_reply c r s)"
  by (simp add: held_inv_def send_reply_def owed_defs ac_simps)

lemma held_activate: "held_inv x s \<Longrightarrow> ds_active s = None \<Longrightarrow> held_inv x (activate n s)"
  by (simp add: held_inv_def activate_def start_notification_def start_call_def owed_defs future_matches_def)

text \<open>An operation that answers what it is given.\<close>

definition answers :: "'c multiset \<Rightarrow> (('a, 'r, 'p, 'c, 'f) dispatcher \<Rightarrow> ('a, 'r, 'p, 'c, 'f) dispatcher) \<Rightarrow> bool" where
  "answers m f \<longleftrightarrow> (\<exists>l. mset (map fst l) = m \<and> (\<forall>s. f s = s\<lparr> ds_sent := ds_sent s @ l \<rparr>))"

lemma answers_reply: "f = send_reply c r \<Longrightarrow> answers {#c#} f"
  by (auto simp: answers_def send_reply_def intro!: exI [of _ "[(c, r)]"])

lemma answers_nothing: "f = (\<lambda>s. s) \<Longrightarrow> answers {#} f"
  by (auto simp: answers_def intro!: exI [of _ "[]"])

lemma fail_active_answers: "answers (kind_callbacks k) (fail_active k code)"
proof (cases k)
  case (ActiveDecision response b)
  show ?thesis
    unfolding ActiveDecision kind_callbacks.simps
    by (rule answers_reply [where r = "case response of PendingPermission _ \<Rightarrow> PermissionReply (Err code)
          | PendingPrefetch _ _ \<Rightarrow> PrefetchReply (Err code)"])
      (cases response; simp add: fun_eq_iff send_permission_failure_def send_prefetch_failure_def)
next
  case (ActiveNotification n)
  then show ?thesis by (simp add: answers_nothing fun_eq_iff)
qed

lemma complete_kind_answers:
  assumes "(\<exists>d. outcome = OutcomeDecision d) = is_decision k"
  shows "answers (kind_callbacks k) (complete_kind cf k outcome)"
proof (cases k)
  case (ActiveDecision response b)
  then obtain d where d: "outcome = OutcomeDecision d" using assms by auto
  show ?thesis
    unfolding ActiveDecision d kind_callbacks.simps
    by (cases response)
      (auto intro!: answers_reply simp: fun_eq_iff handle_permission_outcome_def
        handle_prefetch_permissions_outcome_def)
next
  case (ActiveNotification n)
  then show ?thesis by (cases outcome) (simp_all add: answers_nothing fun_eq_iff)
qed

lemma held_take_active:
  assumes "held_inv x s" "\<And>act. ds_active s = Some act \<Longrightarrow> answers (kind_callbacks (ac_kind act)) (f (ac_kind act))"
  shows "held_inv x (take_active_if b f s)" "b \<Longrightarrow> ds_active (take_active_if b f s) = None"
    "ds_deferred (take_active_if b f s) = ds_deferred s"
  using assms
  by (cases "ds_active s"; force simp: take_active_if_def held_inv_def owed_defs answers_def ac_simps)+

lemma held_notification:
  assumes "prepare_xswd_lifecycle_notification cf a k b s = (n, s')"
  shows "s' = s\<lparr> ds_registry := run_call (CallProject a) (ds_registry s) \<rparr>"
    and "held_inv x s \<Longrightarrow> held_inv x s'"
proof -
  show eq: "s' = s\<lparr> ds_registry := run_call (CallProject a) (ds_registry s) \<rparr>"
    using assms
    by (auto simp: prepare_xswd_lifecycle_notification_def create_lifecycle_event_summary_def
        split: notification_kind.splits prod.splits sum.splits)
  show "held_inv x s \<Longrightarrow> held_inv x s'"
    using xswd_authority.wf_call by (auto simp: eq held_inv_def owed_defs simp del: run_call.simps)
qed

lemma failure_replies_all:
  "mset (map fst (concat (map (failure_replies code) es))) = sum_list (map deferred_callbacks es)"
  by (induction es) (simp_all add: failure_replies_callbacks [simplified])

lemma sum_list_filter_split:
  fixes g :: "'b \<Rightarrow> 'm :: comm_monoid_add"
  shows "sum_list (map g (filter P es)) + sum_list (map g (filter (\<lambda>e. \<not> P e) es)) = sum_list (map g es)"
  by (induction es) (auto simp: ac_simps)

lemma held_cancel_deferred:
  assumes "cancel_deferred_xswd_decisions a s = (b, s')" "held_inv x s"
  shows "held_inv x s'"
proof -
  have "length (filter (\<lambda>e. \<not> targets a e) (ds_deferred s)) \<le> MAX_DEFERRED_XSWD_EVENTS"
    using assms(2) length_filter_le le_trans unfolding held_inv_def by blast
  moreover note failure_replies_all [of XSWD_REQUEST_CANCELLED "filter (targets a) (ds_deferred s)"]
    sum_list_filter_split [of deferred_callbacks "targets a" "ds_deferred s", symmetric]
  ultimately show ?thesis
    using assms by (auto simp: cancel_deferred held_inv_def owed_defs list_all_iff ac_simps simp del: map_concat)
qed

lemma held_fail_deferred:
  "held_inv x s \<Longrightarrow> held_inv x (fail_deferred_xswd_events code s)"
  using failure_replies_all [of code "ds_deferred s"]
  by (simp add: fail_deferred_events held_inv_def owed_defs ac_simps del: map_concat)

lemma held_push:
  assumes "held_inv (x + deferred_callbacks e) s" "queueable e" "length (ds_deferred s) < MAX_DEFERRED_XSWD_EVENTS"
  shows "held_inv x (s\<lparr> ds_deferred := ds_deferred s @ [e] \<rparr>)"
  using assms by (simp add: held_inv_def owed_defs ac_simps)

lemma held_defer_decision:
  assumes "held_inv (x + event_callbacks ev) s" "queueable (DeferredRaw ev :: ('a, 'r, 'p, 'c, 'f) deferred_event)"
  shows "held_inv x (defer_xswd_decision ev (s :: ('a, 'r, 'p, 'c, 'f) dispatcher))"
  using assms held_push [of x "DeferredRaw ev" s]
  by (auto simp: defer_xswd_decision_def send_permission_failure_def send_prefetch_failure_def
      intro: held_reply split: xswd_event.split)

lemma fold_invalidate: "fold invalidate_state as = fold run_call (map CallInvalidate as)"
proof
  show "fold invalidate_state as reg = fold run_call (map CallInvalidate as) reg" for reg
    by (induction as arbitrary: reg) simp_all
qed

lemma held_invalidate_observed: "held_inv x s \<Longrightarrow> held_inv x (invalidate_observed_xswd_states s)"
  by (simp add: held_inv_def invalidate_observed_xswd_states_def owed_defs fold_invalidate
      xswd_authority.wf_calls del: fold_map)

lemma decision_event_queueable: "is_xswd_decision_event e \<Longrightarrow> queueable e"
  by (cases e) auto

lemma held_push_notification:
  "held_inv x s \<Longrightarrow> length (ds_deferred s) < MAX_DEFERRED_XSWD_EVENTS \<Longrightarrow>
   held_inv x (s\<lparr> ds_deferred := ds_deferred s @ [DeferredNotification n] \<rparr>)"
  using held_push [of x "DeferredNotification n" s] by simp

lemma held_saturated:
  assumes "held_inv x s" "List.extract is_xswd_decision_event (ds_deferred s) = None" "ds_deferred s = e # es"
  shows "held_inv x (s\<lparr> ds_deferred := es @ [DeferredNotification n] \<rparr>)"
proof -
  have "deferred_callbacks e = {#}"
    using assms by (cases e) (auto simp: held_inv_def extract_None_iff)
  then show ?thesis using assms(1,3) by (simp add: held_inv_def owed_defs)
qed

lemma held_evict:
  assumes "held_inv x s" "List.extract is_xswd_decision_event (ds_deferred s) = Some (before, e, after)"
  shows "held_inv x (fail_deferred_xswd_event e code (s\<lparr> ds_deferred := before @ after \<rparr>))"
proof -
  have "ds_deferred s = before @ e # after" using extract_SomeE [OF assms(2)] by simp
  then show ?thesis
    using assms(1) failure_replies_callbacks [of code e]
    by (simp add: fail_deferred_event held_inv_def owed_defs ac_simps)
qed

lemma held_defer_disconnect:
  assumes "held_inv x s" "defer_xswd_disconnect n s = (r, s')"
  shows "held_inv x s'"
proof (cases "List.extract is_xswd_decision_event (ds_deferred s)")
  case None
  have "ds_deferred s = [] \<Longrightarrow> held_inv x (s\<lparr> ds_deferred := [DeferredNotification n] \<rparr>)"
    using held_push_notification [OF assms(1)] by (simp add: MAX_DEFERRED_XSWD_EVENTS_def)
  then show ?thesis
    using assms None held_push_notification [OF assms(1)] held_saturated [OF assms(1) None]
    by (auto simp: defer_xswd_disconnect_def Let_def split: if_splits list.splits)
next
  case (Some t)
  obtain before e after where t: "t = (before, e, after)" by (cases t)
  from held_evict [OF assms(1) Some [unfolded t]] show ?thesis
    using assms Some t held_push_notification [OF assms(1)]
    by (auto simp: defer_xswd_disconnect_def Let_def held_push_notification split: if_splits)
qed

lemma defer_disconnect_active:
  "defer_xswd_disconnect n s = (r, s') \<Longrightarrow> ds_active s' = ds_active s"
  by (auto simp: defer_xswd_disconnect_def Let_def fail_deferred_event
      split: if_splits list.splits option.splits prod.splits)

text \<open>What preparing an event leaves in the hands of the dispatcher.\<close>

fun lifecycle_callbacks :: "('a, 'c) lifecycle_event \<Rightarrow> 'c multiset" where
  "lifecycle_callbacks (LifecycleCancelRequest _ c) = {#c#}"
| "lifecycle_callbacks (LifecycleAppDisconnect _) = {#}"

fun prepared_callbacks :: "('a, 'p, 'c) prepared_event \<Rightarrow> 'c multiset" where
  "prepared_callbacks (PreparedDecision d) = {#response_callback (pd_response d)#}"
| "prepared_callbacks (PreparedLifecycle lc) = lifecycle_callbacks lc"
| "prepared_callbacks PreparedHandled = {#}"

lemma event_summary_state:
  "create_event_summary cf a ty s = (r, s') \<Longrightarrow>
   s' = s\<lparr> ds_registry := run_call (CallRegister a) (ds_registry s) \<rparr>"
  by (auto simp: create_event_summary_def split: prod.splits)

lemma held_registry_call: "held_inv x s \<Longrightarrow> held_inv x (s\<lparr> ds_registry := run_call c (ds_registry s) \<rparr>)"
  by (simp add: held_inv_def owed_defs xswd_authority.wf_call del: run_call.simps)

lemma held_start_call: "held_inv x (start_call d s) = held_inv x s"
  by (simp add: held_inv_def start_call_def owed_defs)

lemmas held_reply_single = held_reply [of "{#}", simplified]

lemma held_prepare:
  assumes "prepare_xswd_event cf ev s = (p, s')" "held_inv (event_callbacks ev) s"
  shows "held_inv (prepared_callbacks p) s'"
proof -
  have "held_inv (event_callbacks ev) t" if "create_event_summary cf a ty s = (r, t)" for a ty r t
    by (simp only: event_summary_state [OF that] held_registry_call [OF assms(2)])
  then show ?thesis
    using assms
    by (cases ev) (auto simp: held_start_call fail_permission_projection_def fail_prefetch_projection_def
        send_permission_failure_def send_prefetch_failure_def held_reply_single
        split: prod.splits sum.splits)
qed

lemma prepare_active: "prepare_xswd_event cf ev s = (p, s') \<Longrightarrow> ds_active s' = ds_active s"
  by (cases ev) (auto simp: create_event_summary_def dispatch_simps split: prod.splits sum.splits)

lemma held_acknowledge:
  "acknowledge_lifecycle lc s = (r, s') \<Longrightarrow> held_inv (lifecycle_callbacks lc) s \<Longrightarrow> held_inv {#} s'"
  by (cases lc) (auto simp: acknowledge_cancelled_request_def held_reply_single)

lemma acknowledge_active: "acknowledge_lifecycle lc s = (r, s') \<Longrightarrow> ds_active s' = ds_active s"
  by (cases lc) (auto simp: dispatch_simps)

lemma notification_active:
  "prepare_xswd_lifecycle_notification cf a k b s = (n, s') \<Longrightarrow> ds_active s' = ds_active s"
  using held_notification(1) [of cf a k b s n s'] by simp

lemma held_dispatch_next:
  assumes "held_inv (deferred_callbacks e) s" "ds_active s = None"
  shows "held_inv {#} (dispatch_next cf e s)"
proof (cases e)
  case (DeferredNotification n)
  then show ?thesis using assms by (simp add: dispatch_next_def held_activate)
next
  case (DeferredRaw ev)
  obtain p t where p: "prepare_xswd_event cf ev s = (p, t)" by force
  have t: "held_inv (prepared_callbacks p) t" "ds_active t = None"
    using held_prepare [OF p] prepare_active [OF p] assms DeferredRaw by simp_all
  show ?thesis
  proof (cases p)
    case (PreparedDecision d)
    then show ?thesis
      using t p DeferredRaw
      by (simp add: dispatch_next_def held_inv_def into_active_def future_matches_def owed_defs)
  next
    case (PreparedLifecycle lc)
    obtain a k u where u: "acknowledge_lifecycle lc t = ((a, k), u)" by (metis surj_pair)
    let ?u = "if k = NotifyAppDisconnect then invalidate_in a u else u"
    obtain n v where v: "prepare_xswd_lifecycle_notification cf a k False ?u = (n, v)" by force
    have "held_inv {#} ?u" "ds_active ?u = None"
      using held_acknowledge [OF u] held_invalidate [of "{#}" u a] acknowledge_active [OF u] t PreparedLifecycle
      by (simp_all add: invalidate_in_def)
    then have "held_inv {#} v" "ds_active v = None"
      using held_notification(2) [OF v] notification_active [OF v] by simp_all
    then show ?thesis
      using p u v DeferredRaw PreparedLifecycle
      by (cases n) (simp_all add: dispatch_next_def held_activate)
  next
    case PreparedHandled
    then show ?thesis using t p DeferredRaw by (simp add: dispatch_next_def)
  qed
qed

lemma cancel_active_answers: "answers (kind_callbacks k) (cancel_active k)"
  using fail_active_answers [of k XSWD_REQUEST_CANCELLED] by (simp add: answers_def cancel_active_def)

text \<open>The two operations that end a decision, as the states they go through.\<close>

lemma dispatch_cancel_through:
  obtains b t ca adm n v where "cancel_deferred_xswd_decisions a s = (b, t)"
    "ca \<longleftrightarrow> (case ds_active t of Some act \<Rightarrow> is_decision_for act a | None \<Rightarrow> False)"
    "prepare_xswd_lifecycle_notification cf a NotifyCancelRequest adm
       (acknowledge_cancelled_request c
         (take_active_if ca cancel_active (if adm then invalidate_in a t else t))) = (n, v)"
    "dispatch_cancel_request cf a c s = notify_cancel ca n v"
proof -
  obtain b t where t: "cancel_deferred_xswd_decisions a s = (b, t)" by force
  define ca where "ca \<longleftrightarrow> (case ds_active t of Some act \<Rightarrow> is_decision_for act a | None \<Rightarrow> False)"
  define adm where "adm \<longleftrightarrow> b \<or> ca \<and> (case ds_active t of Some act \<Rightarrow> is_application_admission act | None \<Rightarrow> False)"
  obtain n v where v: "prepare_xswd_lifecycle_notification cf a NotifyCancelRequest adm
       (acknowledge_cancelled_request c
         (take_active_if ca cancel_active (if adm then invalidate_in a t else t))) = (n, v)" by force
  moreover from v have "dispatch_cancel_request cf a c s = notify_cancel ca n v"
    unfolding dispatch_cancel_request_def Let_def t adm_def ca_def by simp
  ultimately show thesis using that [OF t ca_def] by simp
qed

lemma dispatch_disconnect_through:
  obtains b t da n v where "cancel_deferred_xswd_decisions a s = (b, t)"
    "da \<longleftrightarrow> (case ds_active t of Some act \<Rightarrow> is_decision_for act a | None \<Rightarrow> False)"
    "prepare_xswd_lifecycle_notification cf a NotifyAppDisconnect False
       (take_active_if da cancel_active (invalidate_in a t)) = (n, v)"
    "dispatch_app_disconnect cf a s = notify_disconnect da n v"
proof -
  obtain b t where t: "cancel_deferred_xswd_decisions a s = (b, t)" by force
  define da where "da \<longleftrightarrow> (case ds_active t of Some act \<Rightarrow> is_decision_for act a | None \<Rightarrow> False)"
  obtain n v where v: "prepare_xswd_lifecycle_notification cf a NotifyAppDisconnect False
      (take_active_if da cancel_active (invalidate_in a t)) = (n, v)" by force
  moreover from v have "dispatch_app_disconnect cf a s = notify_disconnect da n v"
    unfolding dispatch_app_disconnect_def Let_def t da_def by simp
  ultimately show thesis using that [OF t da_def] by simp
qed

lemma held_dispatch_cancel:
  assumes "held_inv {#c#} s"
  shows "held_inv {#} (dispatch_cancel_request cf a c s)"
proof (rule dispatch_cancel_through [of a s cf c])
  fix b t ca adm n v
  assume t: "cancel_deferred_xswd_decisions a s = (b, t)"
    and v: "prepare_xswd_lifecycle_notification cf a NotifyCancelRequest adm
       (acknowledge_cancelled_request c
         (take_active_if ca cancel_active (if adm then invalidate_in a t else t))) = (n, v)"
    and result: "dispatch_cancel_request cf a c s = notify_cancel ca n v"
  let ?u = "take_active_if ca cancel_active (if adm then invalidate_in a t else t)"
  have "held_inv {#c#} (if adm then invalidate_in a t else t)"
    using held_cancel_deferred [OF t assms] held_invalidate by auto
  then have u: "held_inv {#c#} ?u" "ca \<Longrightarrow> ds_active ?u = None"
    using cancel_active_answers by (auto intro!: held_take_active)
  have "held_inv {#} (acknowledge_cancelled_request c ?u)"
    "ds_active (acknowledge_cancelled_request c ?u) = ds_active ?u"
    using u by (simp_all add: acknowledge_cancelled_request_def held_reply_single) (simp add: send_reply_def)
  then have "held_inv {#} v" "ca \<Longrightarrow> ds_active v = None"
    using held_notification(2) [OF v] notification_active [OF v] u by simp_all
  then show ?thesis
    unfolding result notify_cancel_def by (auto simp: held_activate held_push_notification split: option.split)
qed

lemma held_overload:
  assumes "held_inv {#} w"
  shows "held_inv {#} (overload n w)"
  unfolding overload_def Let_def using assms fail_active_answers
  by (intro held_activate held_take_active) (auto simp: held_invalidate split: option.splits)

lemma held_dispatch_disconnect:
  assumes "held_inv {#} s"
  shows "held_inv {#} (dispatch_app_disconnect cf a s)"
proof (rule dispatch_disconnect_through [of a s cf])
  fix b t da n v
  assume t: "cancel_deferred_xswd_decisions a s = (b, t)"
    and v: "prepare_xswd_lifecycle_notification cf a NotifyAppDisconnect False
       (take_active_if da cancel_active (invalidate_in a t)) = (n, v)"
    and result: "dispatch_app_disconnect cf a s = notify_disconnect da n v"
  let ?u = "take_active_if da cancel_active (invalidate_in a t)"
  have "held_inv {#} (invalidate_in a t)"
    by (rule held_invalidate [OF held_cancel_deferred [OF t assms]])
  then have "held_inv {#} ?u" "da \<Longrightarrow> ds_active ?u = None"
    using cancel_active_answers by (auto intro!: held_take_active)
  then have held: "held_inv {#} v" "da \<Longrightarrow> ds_active v = None"
    using held_notification(2) [OF v] notification_active [OF v] by simp_all
  show ?thesis
    unfolding result notify_disconnect_def using held held_defer_disconnect [OF held(1)]
    by (auto simp: held_activate intro!: held_overload split: option.split prod.split)
qed

lemma burst_bounded:
  "select_input burst incoming ready = (input, burst') \<Longrightarrow> burst' < MAX_XSWD_RECEIVE_BURST"
  by (auto simp: select_input_def MAX_XSWD_RECEIVE_BURST_def split: if_splits)

lemma held_burst: "held_inv x s \<Longrightarrow> n \<le> MAX_XSWD_RECEIVE_BURST \<Longrightarrow> held_inv x (s\<lparr> ds_burst := n \<rparr>)"
  by (simp add: held_inv_def owed_defs)

lemma held_dispatch_event:
  assumes "held_inv {#} s" "ds_burst s < MAX_XSWD_RECEIVE_BURST"
  shows "held_inv {#} (dispatch_event cf ev s)"
proof -
  have "held_inv (event_callbacks ev) (receive_event ev (s\<lparr> ds_burst := ds_burst s + 1 \<rparr>))"
    using held_receive [OF held_burst [OF assms(1)], of "ds_burst s + 1" ev] assms(2) by simp
  then show ?thesis
    using held_defer_decision [of "{#}" ev]
    by (cases ev) (simp_all add: dispatch_event_def Let_def held_dispatch_cancel held_dispatch_disconnect)
qed

lemma held_dispatch_callback:
  assumes "held_inv {#} s" "ds_active s = Some act" "poll_future act poll = Some outcome"
  shows "held_inv {#} (dispatch_callback cf outcome s)"
proof -
  have "future_matches act" using assms(1,2) by (simp add: held_inv_def)
  then have "(\<exists>d. outcome = OutcomeDecision d) = is_decision (ac_kind act)"
    using assms(3) by (cases "ac_future act") (auto simp: poll_future_def future_matches_def)
  then show ?thesis
    unfolding dispatch_callback_def using assms(1,2) complete_kind_answers
    by (intro held_take_active) (auto simp: held_burst)
qed

lemma held_dispatch_closed:
  assumes "held_inv {#} s"
  shows "dispatcher_inv (dispatch_closed s)"
proof -
  let ?t = "take_active_if True (\<lambda>k. fail_active k XSWD_HANDLER_CLOSED) (invalidate_observed_xswd_states s)"
  have "held_inv {#} ?t" "ds_active ?t = None"
    using held_invalidate_observed [OF assms] fail_active_answers by (auto intro!: held_take_active)
  then have "held_inv {#} (fail_deferred_xswd_events XSWD_HANDLER_CLOSED ?t)"
    "ds_active (fail_deferred_xswd_events XSWD_HANDLER_CLOSED ?t) = None"
    "ds_deferred (fail_deferred_xswd_events XSWD_HANDLER_CLOSED ?t) = []"
    by (simp_all add: held_fail_deferred) (simp_all add: fail_deferred_events)
  then show ?thesis
    by (simp add: dispatcher_inv_held dispatch_closed_def Let_def held_inv_def owed_defs)
qed

lemma running_inv: "held_inv {#} s \<Longrightarrow> dispatcher_inv s"
  by (simp add: dispatcher_inv_held held_inv_def owed_defs)

lemma inv_running: "dispatcher_inv s \<Longrightarrow> ds_running s \<Longrightarrow> held_inv {#} s"
  by (simp add: dispatcher_inv_held held_inv_def owed_defs)

lemma inv_turn_idle:
  assumes "held_inv {#} s" "ds_active s = None" "dispatcher_turn cf incoming poll s = Some s'"
  shows "dispatcher_inv s'"
proof (cases "ds_deferred s")
  case (Cons e es)
  then have "held_inv (deferred_callbacks e) (s\<lparr> ds_deferred := es \<rparr>)"
    using assms(1) by (simp add: held_inv_def owed_defs ac_simps)
  from held_dispatch_next [OF this, of cf] show ?thesis
    using assms Cons by (auto simp: dispatcher_turn_def running_inv split: if_splits)
next
  case Nil
  have "held_inv {#} (dispatch_next cf (DeferredRaw ev) (receive_event ev s))" for ev
    using held_receive [OF assms(1), of ev] assms(2)
    by (intro held_dispatch_next) (simp_all add: receive_event_def track_xswd_state_def Let_def)
  moreover have "dispatcher_inv ((invalidate_observed_xswd_states s)\<lparr> ds_running := False \<rparr>)"
    using held_invalidate_observed [OF assms(1)] assms(2) Nil
    by (simp add: dispatcher_inv_held held_inv_def owed_defs invalidate_observed_xswd_states_def)
  ultimately show ?thesis
    using assms Nil by (auto simp: dispatcher_turn_def running_inv split: if_splits option.splits)
qed

lemma inv_turn_busy:
  assumes "held_inv {#} s" "ds_active s = Some act" "dispatcher_turn cf incoming poll s = Some s'"
  shows "dispatcher_inv s'"
proof -
  obtain input burst where sel: "select_input (ds_burst s) incoming (poll_future act poll) = (input, burst)"
    by force
  have held: "held_inv {#} (s\<lparr> ds_burst := burst \<rparr>)"
    using burst_bounded [OF sel] by (simp add: held_burst assms(1))
  have ready: "poll_future act poll = Some outcome" if "input = InputCallback outcome" for outcome
    using sel that by (auto simp: select_input_def split: if_splits option.splits)
  show ?thesis
  proof (cases input)
    case (InputCallback outcome)
    then show ?thesis
      using held_dispatch_callback [OF held _ ready [OF InputCallback], of cf] assms sel
      by (auto simp: dispatcher_turn_def running_inv split: if_splits)
  next
    case (InputEvent ev)
    then show ?thesis
      using held_dispatch_closed [OF held] held_dispatch_event [OF held, of cf "the ev"] burst_bounded [OF sel]
        assms sel
      by (cases ev) (auto simp: dispatcher_turn_def running_inv split: if_splits)
  next
    case InputPending
    then show ?thesis using assms sel by (auto simp: dispatcher_turn_def split: if_splits)
  qed
qed

lemma dispatcher_inv_turn:
  assumes "dispatcher_inv s" "dispatcher_turn cf incoming poll s = Some s'"
  shows "dispatcher_inv s'"
proof -
  have "held_inv {#} s" using assms inv_running by (auto simp: dispatcher_turn_def split: if_splits)
  then show ?thesis
    using inv_turn_idle inv_turn_busy assms(2) by (cases "ds_active s") blast+
qed

lemma dispatcher_inv_step: "dispatcher_step cf s s' \<Longrightarrow> dispatcher_inv s \<Longrightarrow> dispatcher_inv s'"
proof (induction rule: dispatcher_step.induct)
  case (turn incoming poll s s')
  then show ?case using dispatcher_inv_turn by blast
qed (auto simp: dispatcher_inv_def owed_defs registry_inv_def)

lemma dispatcher_inv_star: "(dispatcher_step cf)\<^sup>*\<^sup>* s s' \<Longrightarrow> dispatcher_inv s \<Longrightarrow> dispatcher_inv s'"
  by (induction rule: rtranclp_induct) (auto intro: dispatcher_inv_step)

lemma dispatcher_inv_start: "registry_inv reg \<Longrightarrow> dispatcher_inv (dispatcher_start reg)"
  by (simp add: dispatcher_inv_def dispatcher_start_def owed_defs)

end
