(* ===== verification/Xswd_Guarantees.thy ===== *)
theory Xswd_Guarantees
  imports Xswd_Dispatcher
begin

text \<open>
  What an application and the host can rely on from the dispatcher: every request is answered
  exactly once, the queue is bounded, a callback that is ready is not starved, a grant comes from
  the user's decision, and a disconnected application gets no further decision.
\<close>

section \<open>Several turns\<close>

fun run_turns where
  "run_turns cf [] s = Some s"
| "run_turns cf ((incoming, poll) # inputs) s =
     (case dispatcher_turn cf incoming poll s of
        None \<Rightarrow> None
      | Some s \<Rightarrow> run_turns cf inputs s)"

text \<open>The callback in progress has ended, or has made way for another one.\<close>

definition callback_over where
  "callback_over s s' \<longleftrightarrow> ds_active s' = None \<or> length (ds_calls s) < length (ds_calls s')"

section \<open>What each operation changes\<close>

fun active_failure :: "string \<Rightarrow> ('p, 'c) active_kind \<Rightarrow> ('c \<times> xswd_reply) list" where
  "active_failure code (ActiveDecision (PendingPermission c) _) = [(c, PermissionReply (Err code))]"
| "active_failure code (ActiveDecision (PendingPrefetch _ c) _) = [(c, PrefetchReply (Err code))]"
| "active_failure code (ActiveNotification _) = []"

lemma fail_active_eq:
  "fail_active k code s = s\<lparr> ds_sent := ds_sent s @ active_failure code k \<rparr>"
  by (cases "(code, k)" rule: active_failure.cases) (simp_all add: dispatch_simps)

fun active_completion ::
  "('a, 'r, 'p, 'n, 'f) xswd_config \<Rightarrow> ('p, 'c) active_kind \<Rightarrow> active_outcome \<Rightarrow> ('c \<times> xswd_reply) list" where
  "active_completion cf (ActiveDecision (PendingPermission c) _) (OutcomeDecision d) =
     [(c, PermissionReply (permission_result_from_outcome d))]"
| "active_completion cf (ActiveDecision (PendingPrefetch p c) _) (OutcomeDecision d) =
     [(c, PrefetchReply
       (if d = DecisionAccept \<or> d = DecisionAlwaysAccept
        then Ok (prefetch_permissions_from_decision UserAccept (cf_prefetch_names cf p))
        else if d = DecisionReject \<or> d = DecisionAlwaysReject then Ok []
        else Err (decision_failure_code d)))]"
| "active_completion cf _ _ = []"

lemma complete_kind_eq:
  "complete_kind cf k outcome s = s\<lparr> ds_sent := ds_sent s @ active_completion cf k outcome \<rparr>"
proof (cases k)
  case (ActiveDecision response b)
  then show ?thesis by (cases response; cases outcome) (simp_all add: dispatch_simps)
next
  case (ActiveNotification n)
  then show ?thesis by (cases outcome) simp_all
qed

lemma take_failed:
  "take_active_if b (\<lambda>k. fail_active k code) s =
     (if b then s\<lparr> ds_active := None, ds_sent := ds_sent s @
         (case ds_active s of None \<Rightarrow> [] | Some act \<Rightarrow> active_failure code (ac_kind act)) \<rparr> else s)"
  by (cases s) (auto simp: take_active_if_def fail_active_eq split: option.split)

lemma take_cancelled:
  "take_active_if b cancel_active s =
     (if b then s\<lparr> ds_active := None, ds_sent := ds_sent s @
         (case ds_active s of None \<Rightarrow> [] | Some act \<Rightarrow> active_failure XSWD_REQUEST_CANCELLED (ac_kind act)) \<rparr>
      else s)"
  using take_failed [of b XSWD_REQUEST_CANCELLED s] unfolding take_active_if_def cancel_active_def .

text \<open>How a disconnect joins the queue: it may make way for itself by failing a queued decision.\<close>

lemma defer_disconnect_eq:
  fixes s :: "('a, 'r, 'p, 'c, 'f) dispatcher"
  assumes "defer_xswd_disconnect n s = (r, s')"
  obtains q and es :: "('a, 'r, 'p, 'c, 'f) deferred_event list" where "s' = s\<lparr> ds_deferred := q, ds_sent := ds_sent s @ concat (map (failure_replies XSWD_REQUEST_QUEUE_FULL) es) \<rparr>"
    "set q \<subseteq> insert (DeferredNotification n) (set (ds_deferred s))"
proof (cases "List.extract is_xswd_decision_event (ds_deferred s)")
  case None
  then have "s' = s\<lparr> ds_deferred := ds_deferred s' \<rparr> \<and>
      set (ds_deferred s') \<subseteq> insert (DeferredNotification n) (set (ds_deferred s))"
    using assms by (cases "ds_deferred s") (auto simp: defer_xswd_disconnect_def split: if_splits)
  then obtain q where "s' = s\<lparr> ds_deferred := q \<rparr>" "set q \<subseteq> insert (DeferredNotification n) (set (ds_deferred s))"
    by blast
  then show thesis using that [where q = q and es = "[]"] by simp
next
  case (Some t)
  obtain before e after where t: "t = (before, e, after)" by (cases t)
  then have q: "ds_deferred s = before @ e # after" using extract_SomeE [of _ "ds_deferred s"] Some by blast
  show thesis
  proof (cases "s' = s \<or> s' = s\<lparr> ds_deferred := ds_deferred s @ [DeferredNotification n] \<rparr>")
    case True
    then show thesis
      using that [where q = "ds_deferred s" and es = "[]"] that [where q = "ds_deferred s @ [DeferredNotification n]" and es = "[]"] by auto
  next
    case False
    then have "s' = s\<lparr> ds_deferred := before @ after, ds_sent := ds_sent s @ failure_replies XSWD_REQUEST_QUEUE_FULL e \<rparr> \<or>
      s' = s\<lparr> ds_deferred := before @ after @ [DeferredNotification n],
        ds_sent := ds_sent s @ failure_replies XSWD_REQUEST_QUEUE_FULL e \<rparr>"
      using assms Some t by (auto simp: defer_xswd_disconnect_def Let_def fail_deferred_event split: if_splits)
    then show thesis
      using that [where q = "before @ after" and es = "[e]"] that [where q = "before @ after @ [DeferredNotification n]" and es = "[e]"] q by auto
  qed
qed

text \<open>The registry only changes by calls of its operations.\<close>

definition registry_path :: "('a, 'r, 'p, 'c, 'f) dispatcher \<Rightarrow> ('a, 'r, 'p, 'c, 'f) dispatcher \<Rightarrow> bool" where
  "registry_path s s' \<longleftrightarrow> (\<exists>cs. ds_registry s' = fold run_call cs (ds_registry s))"

lemma path_same: "ds_registry s' = ds_registry s \<Longrightarrow> registry_path s s'"
  unfolding registry_path_def by (intro exI [of _ "[]"]) simp

lemma path_call: "ds_registry s' = run_call c (ds_registry s) \<Longrightarrow> registry_path s s'"
  unfolding registry_path_def by (intro exI [of _ "[c]"]) simp

lemma path_trans: "registry_path s s' \<Longrightarrow> registry_path s' s'' \<Longrightarrow> registry_path s s''"
  unfolding registry_path_def by (metis fold_append comp_apply)

text \<open>A reply that lets an application do something.\<close>

fun grants :: "xswd_reply \<Rightarrow> bool" where
  "grants (PermissionReply (Inr r)) \<longleftrightarrow> r = ResultAccept \<or> r = ResultAlwaysAccept"
| "grants (PrefetchReply (Inr l)) \<longleftrightarrow> PermissionAllow \<in> snd ` set l"
| "grants _ \<longleftrightarrow> False"

text \<open>A change that starts no decision and grants nothing.\<close>

definition quiet :: "('a, 'r, 'p, 'c, 'f) dispatcher \<Rightarrow> ('a, 'r, 'p, 'c, 'f) dispatcher \<Rightarrow> bool" where
  "quiet s s' \<longleftrightarrow> registry_path s s' \<and> ds_received s' = ds_received s \<and>
     (\<forall>act. ds_active s' = Some act \<longrightarrow> is_decision (ac_kind act) \<longrightarrow> ds_active s = Some act) \<and>
     (\<exists>l. ds_sent s' = ds_sent s @ l \<and> list_all (\<lambda>(c, r). \<not> grants r) l)"

lemma quietI:
  assumes "registry_path s s'" "ds_received s' = ds_received s"
    and "\<And>act. ds_active s' = Some act \<Longrightarrow> is_decision (ac_kind act) \<Longrightarrow> ds_active s = Some act"
    and "ds_sent s' = ds_sent s @ l" "list_all (\<lambda>(c, r). \<not> grants r) l"
  shows "quiet s s'"
  using assms unfolding quiet_def by blast

lemma quiet_trans: "quiet s s' \<Longrightarrow> quiet s' s'' \<Longrightarrow> quiet s s''"
  unfolding quiet_def by (auto intro: path_trans)

lemma quiet_same:
  "ds_registry s' = ds_registry s \<Longrightarrow> ds_received s' = ds_received s \<Longrightarrow> ds_active s' = ds_active s \<Longrightarrow>
   ds_sent s' = ds_sent s \<Longrightarrow> quiet s s'"
  by (rule quietI [where l = "[]"]) (simp_all add: path_same)

lemma failures_grant_nothing:
  "list_all (\<lambda>(c, r). \<not> grants r) (failure_replies code e)"
  "list_all (\<lambda>(c, r). \<not> grants r) (active_failure code k)"
  "list_all (\<lambda>(c, r). \<not> grants r) (concat (map (failure_replies code) es))"
proof -
  show one: "list_all (\<lambda>(c, r). \<not> grants r) (failure_replies code e)" for e
    by (cases "(code, e)" rule: failure_replies.cases) auto
  show "list_all (\<lambda>(c, r). \<not> grants r) (active_failure code k)"
    by (cases "(code, k)" rule: active_failure.cases) auto
  show "list_all (\<lambda>(c, r). \<not> grants r) (concat (map (failure_replies code) es))"
    by (induction es) (simp_all add: one)
qed

lemma quiet_cancel_deferred: "cancel_deferred_xswd_decisions a s = (b, t) \<Longrightarrow> quiet s t"
  by (rule quietI [where l = "concat (map (failure_replies XSWD_REQUEST_CANCELLED) (filter (targets a) (ds_deferred s)))"])
    (auto simp: cancel_deferred failures_grant_nothing path_same)

lemma quiet_invalidate: "quiet s (invalidate_in a s)"
  by (rule quietI [where l = "[]"]) (auto simp: invalidate_in_def intro: path_call [where c = "CallInvalidate a"])

lemma quiet_take: "quiet s (take_active_if b (\<lambda>k. fail_active k code) s)"
  by (rule quietI [where l = "if b then (case ds_active s of None \<Rightarrow> [] | Some act \<Rightarrow> active_failure code (ac_kind act)) else []"])
    (auto simp: take_failed path_same failures_grant_nothing split: option.split if_splits)

lemma quiet_take_cancelled: "quiet s (take_active_if b cancel_active s)"
  using quiet_take [of s b XSWD_REQUEST_CANCELLED] unfolding take_active_if_def cancel_active_def .

lemma quiet_reply: "\<not> grants r \<Longrightarrow> quiet s (send_reply c r s)"
  by (rule quietI [where l = "[(c, r)]"]) (auto simp: send_reply_def path_same)

lemma quiet_acknowledge: "quiet s (acknowledge_cancelled_request c s)"
  unfolding acknowledge_cancelled_request_def by (simp add: quiet_reply)

lemma quiet_notification: "prepare_xswd_lifecycle_notification cf a k b s = (n, s') \<Longrightarrow> quiet s s'"
  using held_notification(1) [of cf a k b s n s']
  by (intro quietI [where l = "[]"]) (auto intro: path_call [where c = "CallProject a"])

lemma quiet_activate: "quiet s (activate n s)"
  by (rule quietI [where l = "[]"]) (auto simp: activate_def start_notification_def start_call_def path_same)

lemma quiet_defer_disconnect: "defer_xswd_disconnect n s = (r, s') \<Longrightarrow> quiet s s'"
  by (erule defer_disconnect_eq, rule quietI) (auto simp: path_same failures_grant_nothing)

lemma quiet_defer_decision: "quiet s (defer_xswd_decision ev s)"
  by (auto simp: defer_xswd_decision_def send_permission_failure_def send_prefetch_failure_def
      acknowledge_cancelled_request_def quiet_reply quiet_same split: xswd_event.split)

lemma quiet_refl: "quiet s s"
  by (rule quiet_same) simp_all

lemma quiet_notify_cancel: "quiet v (notify_cancel ca n v)"
  by (auto simp: notify_cancel_def quiet_activate quiet_refl quiet_same split: option.split)

lemma quiet_overload: "quiet w (overload n w)"
proof -
  have "quiet w (case ds_active w of
      Some act \<Rightarrow> if is_application_admission act then invalidate_in (ac_state act) w else w | None \<Rightarrow> w)"
    by (auto simp: quiet_invalidate quiet_refl split: option.split)
  from quiet_trans [OF quiet_trans [OF this quiet_take] quiet_activate]
  show ?thesis unfolding overload_def Let_def .
qed

lemma quiet_notify_disconnect: "quiet v (notify_disconnect da n v)"
  by (auto simp: notify_disconnect_def quiet_activate quiet_refl
      intro: quiet_defer_disconnect quiet_trans [OF quiet_defer_disconnect quiet_overload]
      split: option.split prod.split)

lemma quiet_dispatch_cancel: "quiet s (dispatch_cancel_request cf a c s)"
proof (rule dispatch_cancel_through [of a s cf c])
  fix b t ca adm n v
  assume t: "cancel_deferred_xswd_decisions a s = (b, t)"
    and v: "prepare_xswd_lifecycle_notification cf a NotifyCancelRequest adm
       (acknowledge_cancelled_request c
         (take_active_if ca cancel_active (if adm then invalidate_in a t else t))) = (n, v)"
    and result: "dispatch_cancel_request cf a c s = notify_cancel ca n v"
  have "quiet t (if adm then invalidate_in a t else t)" by (simp add: quiet_invalidate quiet_refl)
  from quiet_trans [OF quiet_trans [OF quiet_trans [OF quiet_trans [OF quiet_trans [OF
      quiet_cancel_deferred [OF t] this] quiet_take_cancelled] quiet_acknowledge] quiet_notification [OF v]]
      quiet_notify_cancel]
  show ?thesis unfolding result .
qed

text \<open>After the state is revoked, what a disconnect does is quiet.\<close>

lemma disconnect_revokes:
  obtains t where "ds_registry t = ds_registry s" "quiet s t" "quiet (invalidate_in a t) (dispatch_app_disconnect cf a s)"
proof (rule dispatch_disconnect_through [of a s cf])
  fix b t da n v
  assume t: "cancel_deferred_xswd_decisions a s = (b, t)"
    and v: "prepare_xswd_lifecycle_notification cf a NotifyAppDisconnect False
       (take_active_if da cancel_active (invalidate_in a t)) = (n, v)"
    and result: "dispatch_app_disconnect cf a s = notify_disconnect da n v"
  have "ds_registry t = ds_registry s" using t by (auto simp: cancel_deferred)
  moreover from quiet_trans [OF quiet_trans [OF quiet_take_cancelled quiet_notification [OF v]]
      quiet_notify_disconnect]
  have "quiet (invalidate_in a t) (dispatch_app_disconnect cf a s)" unfolding result .
  ultimately show thesis using that quiet_cancel_deferred [OF t] by blast
qed

lemma quiet_dispatch_disconnect: "quiet s (dispatch_app_disconnect cf a s)"
  by (rule disconnect_revokes [of s a cf]) (blast intro: quiet_trans quiet_invalidate)

lemma quiet_dispatch_event:
  "quiet (receive_event ev (s\<lparr> ds_burst := ds_burst s + 1 \<rparr>)) (dispatch_event cf ev s)"
  by (cases ev) (simp_all add: dispatch_event_def Let_def quiet_dispatch_cancel quiet_dispatch_disconnect
      quiet_defer_decision)

lemma quiet_invalidate_observed: "quiet s (invalidate_observed_xswd_states s)"
  by (rule quietI [where l = "[]"]) (auto simp: invalidate_observed_xswd_states_def registry_path_def fold_invalidate)

lemma quiet_dispatch_closed: "quiet s (dispatch_closed s)"
proof -
  have "quiet t (fail_deferred_xswd_events code t)" for t code
    by (rule quietI [where l = "concat (map (failure_replies code) (ds_deferred t))"])
      (auto simp: fail_deferred_events path_same failures_grant_nothing)
  from quiet_trans [OF quiet_trans [OF quiet_invalidate_observed quiet_take] this]
  show ?thesis unfolding dispatch_closed_def Let_def by (rule quiet_trans [OF _ quiet_same]) simp_all
qed

text \<open>A change that starts one decision, for a state the registry admits.\<close>

definition starts_decision :: "('a, 'r, 'p, 'c, 'f) dispatcher \<Rightarrow> ('a, 'r, 'p, 'c, 'f) dispatcher \<Rightarrow> bool" where
  "starts_decision s s' \<longleftrightarrow> registry_path s s' \<and> ds_received s' = ds_received s \<and> ds_sent s' = ds_sent s \<and>
     (\<exists>act. ds_active s' = Some act \<and> is_decision (ac_kind act) \<and> admits (ac_state act) (ds_registry s))"

lemma event_summary_admits:
  assumes "create_event_summary cf a ty s = (r, t)"
  shows "is_ok r \<longleftrightarrow> admits a (ds_registry s)" "registry_path s t"
    "ds_received t = ds_received s" "ds_sent t = ds_sent s" "ds_active t = ds_active s"
proof -
  show "is_ok r \<longleftrightarrow> admits a (ds_registry s)"
    using assms by (auto simp: create_event_summary_def admits_def result_simps split: prod.splits)
  have t: "t = s\<lparr> ds_registry := run_call (CallRegister a) (ds_registry s) \<rparr>" by (rule event_summary_state [OF assms])
  show "registry_path s t" by (rule path_call [where c = "CallRegister a"]) (simp add: t)
  show "ds_received t = ds_received s" "ds_sent t = ds_sent s" "ds_active t = ds_active s"
    by (simp_all add: t)
qed

lemma prepare_effect:
  assumes "prepare_xswd_event cf ev s = (p, t)"
  shows "quiet s t \<and> (\<forall>d. p \<noteq> PreparedDecision d) \<or>
    (\<exists>d. p = PreparedDecision d \<and> starts_decision s (t\<lparr> ds_active := Some (into_active d), ds_burst := 0 \<rparr>))"
proof (cases "\<exists>d. p = PreparedDecision d")
  case True
  then obtain a ty summary u d call where u: "create_event_summary cf a ty s = (Inr summary, u)"
    "t = start_call call u" "p = PreparedDecision d" "pd_state d = a"
    using assms by (cases ev) (auto split: prod.splits sum.splits)
  have "starts_decision s (t\<lparr> ds_active := Some (into_active d), ds_burst := 0 \<rparr>)"
    using event_summary_admits [OF u(1)] u
    by (simp add: starts_decision_def registry_path_def start_call_def into_active_def)
  then show ?thesis using u(3) by blast
next
  case False
  have fails: "quiet s (send_reply c r u)" if "create_event_summary cf a ty s = (q, u)" "\<not> grants r" for c r u a ty q
    using event_summary_admits [OF that(1)]
    by (intro quiet_trans [OF quietI [where l = "[]"] quiet_reply [OF that(2)]]) simp_all
  show ?thesis
    using assms False
    by (cases ev) (auto simp: send_permission_failure_def send_prefetch_failure_def fail_permission_projection_def
        fail_prefetch_projection_def quiet_reply quiet_same split: prod.splits sum.splits intro: fails)
qed

lemma dispatch_next_effect:
  "quiet s (dispatch_next cf e s) \<or> starts_decision s (dispatch_next cf e s)"
proof (cases e)
  case (DeferredNotification n)
  then show ?thesis by (simp add: dispatch_next_def quiet_activate)
next
  case (DeferredRaw ev)
  obtain p t where p: "prepare_xswd_event cf ev s = (p, t)" by force
  show ?thesis
  proof (cases p)
    case (PreparedDecision d)
    then show ?thesis using prepare_effect [OF p] p DeferredRaw by (simp add: dispatch_next_def)
  next
    case (PreparedLifecycle lc)
    obtain a k u where u: "acknowledge_lifecycle lc t = ((a, k), u)" by (metis surj_pair)
    let ?u = "if k = NotifyAppDisconnect then invalidate_in a u else u"
    obtain n v where v: "prepare_xswd_lifecycle_notification cf a k False ?u = (n, v)" by force
    have "quiet s t" using prepare_effect [OF p] PreparedLifecycle by auto
    moreover have "quiet t u" using u by (cases lc) (auto simp: quiet_acknowledge quiet_same)
    moreover have "quiet u ?u" by (simp add: quiet_invalidate quiet_same)
    ultimately have "quiet s v" using quiet_notification [OF v] quiet_trans by blast
    from this quiet_trans [OF this quiet_activate] show ?thesis
      using p u v DeferredRaw PreparedLifecycle by (cases n) (simp_all add: dispatch_next_def)
  next
    case PreparedHandled
    then show ?thesis using prepare_effect [OF p] p DeferredRaw by (simp add: dispatch_next_def)
  qed
qed

text \<open>What one turn does, by its kind.\<close>

lemma turn_cases:
  assumes "dispatcher_turn cf incoming poll s = Some s'"
  obtains (next_event) e es where "ds_active s = None" "ds_deferred s = e # es"
      "s' = dispatch_next cf e (s\<lparr> ds_deferred := es \<rparr>)"
  | (first_event) ev where "ds_active s = None" "ds_deferred s = []" "incoming = Some (Some ev)"
      "s' = dispatch_next cf (DeferredRaw ev) (receive_event ev s)"
  | (idle_close) "ds_active s = None" "ds_deferred s = []"
      "s' = (invalidate_observed_xswd_states s)\<lparr> ds_running := False \<rparr>"
  | (busy_event) act ev burst where "ds_active s = Some act" "incoming = Some (Some ev)"
      "burst = (if ds_burst s \<ge> MAX_XSWD_RECEIVE_BURST then 0 else ds_burst s)"
      "ds_burst s \<ge> MAX_XSWD_RECEIVE_BURST \<Longrightarrow> poll = None"
      "s' = dispatch_event cf ev (s\<lparr> ds_burst := burst \<rparr>)"
  | (busy_close) act burst where "ds_active s = Some act" "s' = dispatch_closed (s\<lparr> ds_burst := burst \<rparr>)"
  | (busy_callback) act outcome burst where "ds_active s = Some act" "poll_future act poll = Some outcome"
      "s' = dispatch_callback cf outcome (s\<lparr> ds_burst := burst \<rparr>)"
proof (cases "ds_active s")
  case None
  then show thesis
    using assms next_event first_event idle_close
    by (auto simp: dispatcher_turn_def split: if_splits list.splits option.splits)
next
  case (Some act)
  obtain input burst where sel: "select_input (ds_burst s) incoming (poll_future act poll) = (input, burst)"
    by force
  have burst: "burst = (if ds_burst s \<ge> MAX_XSWD_RECEIVE_BURST then 0 else ds_burst s)"
    using sel by (simp add: select_input_def split: if_splits)
  show thesis
  proof (cases input)
    case (InputCallback outcome)
    then show thesis
      using Some assms sel
      by (intro busy_callback [of act outcome burst])
        (auto simp: dispatcher_turn_def select_input_def split: if_splits option.splits)
  next
    case (InputEvent ev)
    show thesis
    proof (cases ev)
      case None
      then show thesis
        using Some assms sel InputEvent
        by (intro busy_close [of act burst]) (auto simp: dispatcher_turn_def split: if_splits)
    next
      case (Some e)
      then show thesis
        using \<open>ds_active s = Some act\<close> assms sel InputEvent
        by (intro busy_event [of act e burst] burst)
          (auto simp: dispatcher_turn_def select_input_def poll_future_def split: if_splits option.splits)
    qed
  next
    case InputPending
    then show thesis using Some assms sel by (auto simp: dispatcher_turn_def split: if_splits)
  qed
qed

lemma quiet_receive:
  "registry_path s (receive_event ev s)" "ds_active (receive_event ev s) = ds_active s"
  "ds_registry (receive_event ev s) = ds_registry s"
  "ds_sent (receive_event ev s) = ds_sent s" "ds_received (receive_event ev s) = ds_received s @ [ev]"
  by (simp_all add: receive_event_def track_xswd_state_def Let_def path_same)

text \<open>The turn as a whole: it starts no decision and grants nothing, or it dispatches one event for a
  state the registry admits, or it completes the callback in progress.\<close>

lemma turn_effect:
  assumes "dispatcher_turn cf incoming poll s = Some s'"
  obtains (quiet) t where "registry_path s t" "ds_active t = ds_active s" "ds_sent t = ds_sent s" "quiet t s'"
  | (starts) t where "ds_registry t = ds_registry s" "ds_sent t = ds_sent s" "starts_decision t s'"
  | (completes) act outcome where "ds_active s = Some act" "poll_future act poll = Some outcome"
      "ds_registry s' = ds_registry s" "ds_active s' = None"
      "ds_sent s' = ds_sent s @ active_completion cf (ac_kind act) outcome"
  using assms
proof (cases rule: turn_cases)
  case (next_event e es)
  then show thesis
    using dispatch_next_effect [of "s\<lparr> ds_deferred := es \<rparr>" cf e]
      quiet [of "s\<lparr> ds_deferred := es \<rparr>"] starts [of "s\<lparr> ds_deferred := es \<rparr>"] by (auto simp: path_same)
next
  case (first_event ev)
  then show thesis
    using dispatch_next_effect [of "receive_event ev s" cf "DeferredRaw ev"]
      quiet [of "receive_event ev s"] starts [of "receive_event ev s"] by (auto simp: quiet_receive)
next
  case idle_close
  then show thesis
    by (intro quiet [of s]) (auto simp: path_same intro: quiet_trans [OF quiet_invalidate_observed quiet_same])
next
  case (busy_event act ev burst)
  let ?t = "receive_event ev (s\<lparr> ds_burst := burst + 1 \<rparr>)"
  have "quiet ?t s'" using quiet_dispatch_event [of ev "s\<lparr> ds_burst := burst \<rparr>" cf] busy_event by simp
  then show thesis by (intro quiet [of ?t]) (auto simp: quiet_receive path_same)
next
  case (busy_close act burst)
  then show thesis
    using quiet_dispatch_closed [of "s\<lparr> ds_burst := burst \<rparr>"]
    by (intro quiet [of "s\<lparr> ds_burst := burst \<rparr>"]) (auto simp: path_same)
next
  case (busy_callback act outcome burst)
  then show thesis
    by (intro completes [of act outcome]) (auto simp: dispatch_callback_def take_active_if_def complete_kind_eq)
qed

lemma turn_registry:
  assumes "dispatcher_turn cf incoming poll s = Some s'"
  shows "registry_path s s'"
  using assms
proof (cases rule: turn_effect)
  case (quiet t)
  then show ?thesis unfolding quiet_def by (blast intro: path_trans)
next
  case (starts t)
  then show ?thesis by (auto simp: starts_decision_def registry_path_def)
qed (simp add: path_same)

lemma turn_decision:
  assumes "dispatcher_turn cf incoming poll s = Some s'" "ds_active s' = Some act" "is_decision (ac_kind act)"
  shows "ds_active s = Some act \<or> admits (ac_state act) (ds_registry s)"
  using assms(1)
proof (cases rule: turn_effect)
  case (quiet t)
  then show ?thesis using assms(2,3) by (auto simp: quiet_def)
next
  case (starts t)
  then show ?thesis using assms(2) by (auto simp: starts_decision_def)
qed (use assms(2) in simp)

lemma completion_grants:
  assumes "(c, r) \<in> set (active_completion cf k outcome)" "grants r"
  obtains d where "outcome = OutcomeDecision d" "kind_callbacks k = {#c#}" "is_decision k"
    "d = DecisionAccept \<or> d = DecisionAlwaysAccept"
proof (cases "(cf, k, outcome)" rule: active_completion.cases)
  case (1 cf' c' b d)
  then show thesis using assms that [of d] by (cases d) auto
next
  case (2 cf' p c' b d)
  then show thesis using assms that [of d] by (auto split: if_splits)
qed (use assms in auto)

lemma turn_grant:
  assumes "dispatcher_turn cf incoming poll s = Some s'" "ds_sent s' = ds_sent s @ l"
    and "(c, r) \<in> set l" "grants r"
  shows "\<exists>act d n. ds_active s = Some act \<and> is_decision (ac_kind act) \<and> kind_callbacks (ac_kind act) = {#c#} \<and>
    poll = Some (d, n) \<and> (d = DecisionAccept \<or> d = DecisionAlwaysAccept)"
  using assms(1)
proof (cases rule: turn_effect)
  case (quiet t)
  then show ?thesis using assms(2-4) by (auto simp: quiet_def list_all_iff)
next
  case (starts t)
  then show ?thesis using assms(2,3) by (auto simp: starts_decision_def)
next
  case (completes act outcome)
  then have "(c, r) \<in> set (active_completion cf (ac_kind act) outcome)" using assms(2,3) by simp
  then obtain d where "outcome = OutcomeDecision d" "kind_callbacks (ac_kind act) = {#c#}" "is_decision (ac_kind act)"
    "d = DecisionAccept \<or> d = DecisionAlwaysAccept"
    using assms(4) by (rule completion_grants)
  then show ?thesis
    using completes(1,2) by (cases "ac_future act") (auto simp: poll_future_def)
qed

section \<open>Progress\<close>

definition steady where
  "steady s s' \<longleftrightarrow> ds_active s' = ds_active s \<and> ds_burst s' = ds_burst s \<and> ds_calls s' = ds_calls s \<and>
     ds_running s' = ds_running s"

lemma activate_over: "ds_calls v = ds_calls s \<Longrightarrow> callback_over s (activate n v)"
  by (simp add: callback_over_def activate_def start_notification_def start_call_def)

lemma steady_cancel:
  "callback_over s (dispatch_cancel_request cf a c s) \<or> steady s (dispatch_cancel_request cf a c s)"
proof (rule dispatch_cancel_through [of a s cf c])
  fix b t ca adm n v
  assume t: "cancel_deferred_xswd_decisions a s = (b, t)"
    and v: "prepare_xswd_lifecycle_notification cf a NotifyCancelRequest adm
       (acknowledge_cancelled_request c
         (take_active_if ca cancel_active (if adm then invalidate_in a t else t))) = (n, v)"
    and result: "dispatch_cancel_request cf a c s = notify_cancel ca n v"
  have "ds_calls v = ds_calls s" "ca \<Longrightarrow> ds_active v = None" "\<not> ca \<Longrightarrow> steady s v"
    using t held_notification(1) [OF v]
    by (auto simp: cancel_deferred take_cancelled acknowledge_cancelled_request_def send_reply_def invalidate_in_def
        steady_def)
  then show ?thesis
    unfolding result notify_cancel_def
    by (cases n; cases ca) (simp_all add: activate_over steady_def callback_over_def [of s v])
qed

lemma steady_overload: "steady s w \<Longrightarrow> callback_over s (overload n w)"
  unfolding overload_def Let_def
  by (intro activate_over) (auto simp: take_failed invalidate_in_def steady_def split: option.split)

lemma steady_disconnect:
  "callback_over s (dispatch_app_disconnect cf a s) \<or> steady s (dispatch_app_disconnect cf a s)"
proof (rule dispatch_disconnect_through [of a s cf])
  fix b t da n v
  assume t: "cancel_deferred_xswd_decisions a s = (b, t)"
    and v: "prepare_xswd_lifecycle_notification cf a NotifyAppDisconnect False
       (take_active_if da cancel_active (invalidate_in a t)) = (n, v)"
    and result: "dispatch_app_disconnect cf a s = notify_disconnect da n v"
  have fields: "ds_calls v = ds_calls s" "da \<Longrightarrow> ds_active v = None" "\<not> da \<Longrightarrow> steady s v"
    using t held_notification(1) [OF v]
    by (auto simp: cancel_deferred take_cancelled invalidate_in_def steady_def)
  show ?thesis
  proof (cases "da \<or> n = None")
    case True
    then show ?thesis
      unfolding result notify_disconnect_def using fields
      by (cases n; cases da) (simp_all add: activate_over callback_over_def [of s v])
  next
    case False
    then obtain m where m: "n = Some m" "\<not> da" by auto
    obtain r w where w: "defer_xswd_disconnect m v = (r, w)" by force
    then have "steady v w" by (auto elim!: defer_disconnect_eq simp: steady_def)
    then have "steady s w" using fields(3) m(2) by (simp add: steady_def)
    then show ?thesis
      unfolding result notify_disconnect_def using m w steady_overload [of s w] by (cases r) simp_all
  qed
qed

lemma steady_defer: "steady s (defer_xswd_decision ev s)"
  by (auto simp: defer_xswd_decision_def dispatch_simps steady_def split: xswd_event.split)

lemma dispatch_event_progress:
  "callback_over s (dispatch_event cf ev s) \<or>
   steady (s\<lparr> ds_burst := ds_burst s + 1 \<rparr>) (dispatch_event cf ev s)"
proof -
  let ?r = "receive_event ev (s\<lparr> ds_burst := ds_burst s + 1 \<rparr>)"
  have "steady (s\<lparr> ds_burst := ds_burst s + 1 \<rparr>) ?r"
    by (simp add: steady_def receive_event_def track_xswd_state_def Let_def)
  then show ?thesis
    using steady_cancel [of ?r cf] steady_disconnect [of ?r cf] steady_defer [of ?r ev]
    by (cases ev) (auto simp: dispatch_event_def Let_def steady_def callback_over_def)
qed

lemma turn_progress:
  assumes "ds_running s" "ds_active s = Some act" "ds_burst s \<le> MAX_XSWD_RECEIVE_BURST" "poll \<noteq> None"
  obtains s' where "dispatcher_turn cf incoming poll s = Some s'"
    "callback_over s s' \<or> steady (s\<lparr> ds_burst := ds_burst s + 1 \<rparr>) s' \<and> ds_burst s < MAX_XSWD_RECEIVE_BURST"
proof -
  obtain outcome where ready: "poll_future act poll = Some outcome"
    using assms(4) by (auto simp: poll_future_def)
  have "dispatcher_turn cf incoming poll s \<noteq> None"
    using assms(1,2) ready
    by (cases incoming; cases "the incoming") (auto simp: dispatcher_turn_def select_input_def)
  then obtain s' where turn: "dispatcher_turn cf incoming poll s = Some s'" by auto
  moreover have "callback_over s s' \<or> steady (s\<lparr> ds_burst := ds_burst s + 1 \<rparr>) s' \<and> ds_burst s < MAX_XSWD_RECEIVE_BURST"
    using turn
  proof (cases rule: turn_cases)
    case (busy_event act' ev burst)
    then have "burst = ds_burst s" "ds_burst s < MAX_XSWD_RECEIVE_BURST"
      using assms(4) by (auto simp: not_le split: if_splits)
    then show ?thesis
      using dispatch_event_progress [of s cf ev] busy_event by simp
  next
    case (busy_close act' burst)
    then show ?thesis
      by (auto simp: callback_over_def dispatch_closed_def Let_def take_failed fail_deferred_events)
  next
    case (busy_callback act' outcome' burst)
    then show ?thesis by (auto simp: callback_over_def dispatch_callback_def take_active_if_def complete_kind_eq)
  qed (use assms(2) in auto)
  ultimately show thesis by (rule that)
qed

lemma callback_over_within:
  assumes "ds_running s" "ds_active s = Some act" "ds_burst s \<le> MAX_XSWD_RECEIVE_BURST"
    and "MAX_XSWD_RECEIVE_BURST - ds_burst s < length inputs" "list_all (\<lambda>(_, poll). poll \<noteq> None) inputs"
  shows "\<exists>k s'. k \<le> MAX_XSWD_RECEIVE_BURST - ds_burst s + 1 \<and> run_turns cf (take k inputs) s = Some s' \<and>
    callback_over s s'"
  using assms
proof (induction inputs arbitrary: s)
  case (Cons input inputs)
  obtain incoming poll where input: "input = (incoming, poll)" by (cases input)
  obtain t where t: "dispatcher_turn cf incoming poll s = Some t"
    "callback_over s t \<or> steady (s\<lparr> ds_burst := ds_burst s + 1 \<rparr>) t \<and> ds_burst s < MAX_XSWD_RECEIVE_BURST"
    using turn_progress [of s act poll cf incoming] Cons.prems input by auto
  show ?case
  proof (cases "callback_over s t")
    case True
    then show ?thesis using t(1) input by (intro exI [of _ 1] exI [of _ t]) simp
  next
    case False
    with t have st: "steady (s\<lparr> ds_burst := ds_burst s + 1 \<rparr>) t" "ds_burst s < MAX_XSWD_RECEIVE_BURST" by auto
    moreover from this have "MAX_XSWD_RECEIVE_BURST - ds_burst t < length inputs"
      using Cons.prems(4) by (simp add: steady_def)
    ultimately obtain k s' where k: "k \<le> MAX_XSWD_RECEIVE_BURST - ds_burst t + 1" "run_turns cf (take k inputs) t = Some s'"
      "callback_over t s'"
      using Cons.IH [of t] Cons.prems by (auto simp: steady_def)
    then show ?thesis
      using st t(1) input by (intro exI [of _ "Suc k"] exI [of _ s']) (auto simp: steady_def callback_over_def)
  qed
qed simp

section \<open>Disconnection\<close>

text \<open>No decision for the state is in progress, and none can start while the state lives.\<close>

definition shut_out :: "'a \<Rightarrow> ('a, 'r, 'p, 'c, 'f) dispatcher \<Rightarrow> bool" where
  "shut_out a s \<longleftrightarrow> registry_inv (ds_registry s) \<and> revoked (ds_registry s) a \<and>
     (\<forall>act. ds_active s = Some act \<longrightarrow> \<not> is_decision_for act a)"

lemma shut_out_turn:
  assumes "dispatcher_turn cf incoming poll s = Some s'" "shut_out a s" "live (ds_registry s) a"
  shows "shut_out a s'"
proof -
  obtain cs where "ds_registry s' = fold run_call cs (ds_registry s)"
    using turn_registry [OF assms(1)] by (auto simp: registry_path_def)
  then have "registry_inv (ds_registry s')" "revoked (ds_registry s') a"
    using assms(2,3) xswd_authority.wf_calls xswd_authority.barred_calls by (auto simp: shut_out_def)
  moreover have "\<not> is_decision_for act a" if "ds_active s' = Some act" for act
    using turn_decision [OF assms(1) that] xswd_authority.barred_admit [of "ds_registry s" a] assms(2,3)
    by (auto simp: shut_out_def is_decision_for_def)
  ultimately show ?thesis by (simp add: shut_out_def)
qed

lemma shut_out_step:
  assumes "dispatcher_step cf s s'" "shut_out a s" "live (ds_registry s) a"
  shows "shut_out a s'"
  using assms(1)
proof cases
  case (turn incoming poll)
  then show ?thesis by (rule shut_out_turn [OF _ assms(2,3)])
next
  case (elsewhere reg)
  then show ?thesis using assms(2,3) revoked_evolves by (auto simp: shut_out_def)
next
  case (ownership alive)
  then show ?thesis using assms(2) by (auto simp: shut_out_def registry_inv_def revoked_def)
qed

lemma activate_deferred: "ds_deferred (activate n s) = ds_deferred s"
  by (simp add: activate_def start_notification_def start_call_def)

lemma overload_deferred: "ds_deferred (overload n s) = ds_deferred s"
  unfolding overload_def Let_def
  by (auto simp: activate_deferred take_failed invalidate_in_def split: option.split)

lemma notify_disconnect_deferred:
  "set (ds_deferred (notify_disconnect da n v)) \<subseteq> set (ds_deferred v) \<union> range DeferredNotification"
proof -
  have "set (ds_deferred w) \<subseteq> set (ds_deferred v) \<union> range DeferredNotification"
    if "defer_xswd_disconnect m v = (r, w)" for m r w
    using that by (rule defer_disconnect_eq) auto
  then show ?thesis
    by (auto simp: notify_disconnect_def activate_deferred overload_deferred split: option.split prod.split)
qed

lemma disconnect_busy:
  assumes "registry_inv (ds_registry s)" "live (ds_registry s) a"
  shows "shut_out a (dispatch_app_disconnect cf a s) \<and>
    (\<forall>e\<in>set (ds_deferred (dispatch_app_disconnect cf a s)). \<not> targets a e)"
proof (rule dispatch_disconnect_through [of a s cf])
  let ?r = "dispatch_app_disconnect cf a s"
  fix b t da n v
  assume t: "cancel_deferred_xswd_decisions a s = (b, t)"
    and da: "da \<longleftrightarrow> (case ds_active t of Some act \<Rightarrow> is_decision_for act a | None \<Rightarrow> False)"
    and v: "prepare_xswd_lifecycle_notification cf a NotifyAppDisconnect False
       (take_active_if da cancel_active (invalidate_in a t)) = (n, v)"
    and result: "?r = notify_disconnect da n v"
  note v_eq = held_notification(1) [OF v]
  have reg: "ds_registry v = fold run_call [CallInvalidate a, CallProject a] (ds_registry s)"
    using t v_eq by (auto simp: cancel_deferred take_cancelled invalidate_in_def)
  obtain cs where "ds_registry ?r = fold run_call cs (ds_registry v)"
    using quiet_notify_disconnect [of v da n] unfolding result quiet_def registry_path_def by blast
  then have path: "ds_registry ?r = fold run_call ([CallInvalidate a, CallProject a] @ cs) (ds_registry s)"
    unfolding reg fold_append comp_apply .
  have "registry_inv (ds_registry ?r)" "revoked (ds_registry ?r) a"
    unfolding path
    by (rule xswd_authority.wf_calls [OF assms(1)], rule xswd_authority.bar_lasts [OF assms]) simp
  moreover have "\<not> is_decision_for act a" if "ds_active v = Some act" for act
    using that da v_eq by (auto simp: take_cancelled invalidate_in_def split: if_splits)
  then have "\<not> is_decision_for act a" if "ds_active ?r = Some act" for act
    using that quiet_notify_disconnect [of v da n] unfolding result quiet_def is_decision_for_def by blast
  moreover have "\<not> targets a e" if "e \<in> set (ds_deferred v)" for e
    using that t v_eq by (auto simp: cancel_deferred take_cancelled invalidate_in_def split: if_splits)
  then have "\<not> targets a e" if "e \<in> set (ds_deferred ?r)" for e
    using that notify_disconnect_deferred [of da n v] unfolding result by auto
  ultimately show ?thesis by (simp add: shut_out_def)
qed

lemma disconnect_idle:
  assumes "registry_inv (ds_registry s)" "live (ds_registry s) a" "ds_active s = None" "ds_deferred s = []"
  shows "shut_out a (dispatch_next cf (DeferredRaw (AppDisconnect a)) s) \<and>
    ds_deferred (dispatch_next cf (DeferredRaw (AppDisconnect a)) s) = []"
proof -
  obtain n v where v: "prepare_xswd_lifecycle_notification cf a NotifyAppDisconnect False (invalidate_in a s) = (n, v)"
    by force
  note v_eq = held_notification(1) [OF v]
  have reg: "ds_registry v = fold run_call [CallInvalidate a, CallProject a] (ds_registry s)"
    using v_eq by (simp add: invalidate_in_def)
  have "registry_inv (ds_registry v)" "revoked (ds_registry v) a"
    unfolding reg by (rule xswd_authority.wf_calls [OF assms(1)], rule xswd_authority.bar_lasts [OF assms(1,2)]) simp
  then show ?thesis
    using assms(3,4) v v_eq
    by (cases n) (auto simp: dispatch_next_def shut_out_def invalidate_in_def activate_def
        start_notification_def start_call_def is_decision_for_def)
qed

lemma turn_disconnect:
  assumes "dispatcher_turn cf incoming poll s = Some s'" "ds_received s' = ds_received s @ [AppDisconnect a]"
    and "registry_inv (ds_registry s)" "live (ds_registry s) a"
  shows "shut_out a s' \<and> (\<forall>e\<in>set (ds_deferred s'). \<not> targets a e)"
  using assms(1)
proof (cases rule: turn_cases)
  case (next_event e es)
  then show ?thesis
    using dispatch_next_effect [of "s\<lparr> ds_deferred := es \<rparr>" cf e] assms(2)
    by (auto simp: quiet_def starts_decision_def)
next
  case (first_event ev)
  then have "ds_received s' = ds_received s @ [ev]"
    using dispatch_next_effect [of "receive_event ev s" cf "DeferredRaw ev"]
    by (auto simp: quiet_def starts_decision_def quiet_receive)
  then have "ev = AppDisconnect a" using assms(2) by simp
  then show ?thesis
    using disconnect_idle [of "receive_event ev s" a cf] assms(3,4) first_event
    by (simp add: quiet_receive) (simp add: receive_event_def track_xswd_state_def Let_def)
next
  case (busy_event act ev burst)
  let ?t = "receive_event ev (s\<lparr> ds_burst := burst + 1 \<rparr>)"
  have "ds_received s' = ds_received s @ [ev]"
    using quiet_dispatch_event [of ev "s\<lparr> ds_burst := burst \<rparr>" cf] busy_event(5)
    by (simp add: quiet_def quiet_receive)
  then have ev: "ev = AppDisconnect a" using assms(2) by simp
  then have "s' = dispatch_app_disconnect cf a ?t" using busy_event(5) by (simp add: dispatch_event_def)
  then show ?thesis using disconnect_busy [of ?t a cf] assms(3,4) by (simp add: quiet_receive)
next
  case (busy_close act burst)
  then show ?thesis using quiet_dispatch_closed [of "s\<lparr> ds_burst := burst \<rparr>"] assms(2) by (simp add: quiet_def)
next
  case (busy_callback act outcome burst)
  then show ?thesis using assms(2) by (simp add: dispatch_callback_def take_active_if_def complete_kind_eq)
qed (use assms(2) in \<open>simp add: invalidate_observed_xswd_states_def\<close>)

section \<open>Properties\<close>

text \<open>
  C16: every request is answered exactly once.  At any moment of any run, the
  reply channels that have been used, together with those the dispatcher still
  holds, are the reply channels of the events it has received, each as often
  as it came in; and when the dispatcher has stopped it holds none.
\<close>

theorem requests_answered_once:
  assumes "registry_inv reg" "(dispatcher_step cf)\<^sup>*\<^sup>* (dispatcher_start reg) s"
  shows "answered s + owed s = requested s \<and> (\<not> ds_running s \<longrightarrow> answered s = requested s)"
  using dispatcher_inv_star [OF assms(2) dispatcher_inv_start [OF assms(1)]]
  by (auto simp: dispatcher_inv_def owed_def active_callbacks_def)

text \<open>
  C20: the queue of deferred events never exceeds its limit, holds nothing but
  decisions and prepared notifications, and no more than a burst of events is
  received before the callback in progress is looked at again.
\<close>

theorem dispatcher_queue_bounded:
  assumes "registry_inv reg" "(dispatcher_step cf)\<^sup>*\<^sup>* (dispatcher_start reg) s"
  shows "length (ds_deferred s) \<le> 64 \<and> list_all queueable (ds_deferred s) \<and> ds_burst s \<le> 16"
  using dispatcher_inv_star [OF assms(2) dispatcher_inv_start [OF assms(1)]]
  by (simp add: dispatcher_inv_def MAX_DEFERRED_XSWD_EVENTS_def MAX_XSWD_RECEIVE_BURST_def)

text \<open>
  C19: a callback that is ready is not starved.  However many events keep
  arriving, if the outcome of the callback in progress stays ready, then after
  at most seventeen turns the callback is over.
\<close>

theorem ready_callback_not_starved:
  assumes "registry_inv reg" "(dispatcher_step cf)\<^sup>*\<^sup>* (dispatcher_start reg) s"
    and "ds_running s" "ds_active s = Some act"
    and "16 < length inputs" "list_all (\<lambda>(_, poll). poll \<noteq> None) inputs"
  shows "\<exists>k s'. k \<le> 17 \<and> run_turns cf (take k inputs) s = Some s' \<and> callback_over s s'"
proof -
  have "ds_burst s \<le> MAX_XSWD_RECEIVE_BURST"
    using dispatcher_inv_star [OF assms(2) dispatcher_inv_start [OF assms(1)]] by (simp add: dispatcher_inv_def)
  moreover have "MAX_XSWD_RECEIVE_BURST - ds_burst s < length inputs"
    using assms(5) by (simp add: MAX_XSWD_RECEIVE_BURST_def)
  ultimately obtain k s' where "k \<le> MAX_XSWD_RECEIVE_BURST - ds_burst s + 1"
    "run_turns cf (take k inputs) s = Some s'" "callback_over s s'"
    using callback_over_within [OF assms(3,4) _ _ assms(6)] by blast
  then show ?thesis by (intro exI [of _ k] exI [of _ s']) (simp add: MAX_XSWD_RECEIVE_BURST_def)
qed

text \<open>
  C18: only the user grants.  When a turn sends a reply that permits something,
  that reply goes to the request whose decision was in progress, and the
  callback for it had returned an acceptance.
\<close>

theorem grant_needs_acceptance:
  assumes "dispatcher_turn cf incoming poll s = Some s'" "ds_sent s' = ds_sent s @ l"
    and "(c, r) \<in> set l" "grants r"
  shows "\<exists>act d n. ds_active s = Some act \<and> is_decision (ac_kind act) \<and> kind_callbacks (ac_kind act) = {#c#} \<and>
    poll = Some (d, n) \<and> (d = DecisionAccept \<or> d = DecisionAlwaysAccept)"
  using assms by (rule turn_grant)

text \<open>
  C17: a disconnected application gets no further decision.  After the turn
  that receives its disconnection, no request of it is queued; and however the
  dispatcher and the rest of the program go on while the application state
  lives, no decision for it is ever in progress again.
\<close>

theorem disconnect_ends_decisions:
  assumes "registry_inv reg" "(dispatcher_step cf)\<^sup>*\<^sup>* (dispatcher_start reg) s" "live (ds_registry s) a"
    and "dispatcher_turn cf incoming poll s = Some s1" "ds_received s1 = ds_received s @ [AppDisconnect a]"
    and "(\<lambda>s s'. dispatcher_step cf s s' \<and> live (ds_registry s') a)\<^sup>*\<^sup>* s1 s2"
  shows "(\<forall>e\<in>set (ds_deferred s1). \<not> targets a e) \<and>
    (\<forall>act. ds_active s2 = Some act \<longrightarrow> \<not> is_decision_for act a)"
proof -
  have reg: "registry_inv (ds_registry s)"
    using dispatcher_inv_star [OF assms(2) dispatcher_inv_start [OF assms(1)]] by (simp add: dispatcher_inv_def)
  have s1: "shut_out a s1" "\<forall>e\<in>set (ds_deferred s1). \<not> targets a e"
    using turn_disconnect [OF assms(4,5) reg assms(3)] by auto
  have "live (ds_registry s1) a"
    using turn_registry [OF assms(4)] assms(3) xswd_authority.alive_calls [OF reg] by (auto simp: registry_path_def)
  with assms(6) s1(1) have "shut_out a s2 \<and> live (ds_registry s2) a"
    by (induction rule: rtranclp_induct) (auto intro: shut_out_step)
  then show ?thesis using s1(2) by (simp add: shut_out_def)
qed

section \<open>A run\<close>

definition demo_config :: "(nat, unit, unit, int, unit) xswd_config" where
  "demo_config =
     \<lparr> cf_app = \<lparr> get_id = (\<lambda>_. ''id''), get_name = (\<lambda>_. ''app''), get_description = (\<lambda>_. ''''),
         get_url = (\<lambda>_. None), get_permissions = (\<lambda>_. []) \<rparr>,
       cf_limits = default_projection_limits, cf_numbers = demo_numbers, cf_usize_max = 4294967295,
       cf_request_json = (\<lambda>_. Some demo_payload), cf_prefetch_json = (\<lambda>_. None), cf_prefetch_names = (\<lambda>_. []) \<rparr>"

definition demo_registry :: "nat session_registry" where
  "demo_registry = \<lparr> next_reference = 1, sessions = [], live = (\<lambda>_. True) \<rparr>"

definition demo_asking :: "(nat, unit, unit, nat, unit) dispatcher" where
  "demo_asking = the (dispatcher_turn demo_config (Some (Some (RequestApplication 5 7))) None (dispatcher_start demo_registry))"

lemmas demo_dispatch = demo_asking_def dispatcher_turn_def dispatcher_start_def dispatch_next_def receive_event_def
  track_xswd_state_def create_event_summary_def register_session_def project_session_def remove_dead_def
  fetch_reference_def checked_add_def insert_session_def demo_registry_def start_call_def into_active_def

lemma demo_turn:
  "dispatcher_turn demo_config (Some (Some (RequestApplication 5 7))) None (dispatcher_start demo_registry) = Some demo_asking"
  by (simp add: demo_dispatch Let_def)

lemma demo_fields:
  "ds_running demo_asking" "ds_active demo_asking = Some \<lparr> ac_state = 5,
     ac_kind = ActiveDecision (PendingPermission 7) True, ac_future = DecisionFuture \<rparr>"
  "ds_sent demo_asking = []" "ds_received demo_asking = [RequestApplication 5 7]" "ds_deferred demo_asking = []"
  "ds_burst demo_asking = 0" "live (ds_registry demo_asking) = (\<lambda>_. True)"
  by (simp_all add: demo_dispatch Let_def)

lemma demo_registry_inv: "registry_inv demo_registry"
  by (simp add: registry_inv_def demo_registry_def)

lemma demo_reachable: "(dispatcher_step demo_config)\<^sup>*\<^sup>* (dispatcher_start demo_registry) demo_asking"
  using turn [OF demo_turn] by (rule r_into_rtranclp)

theorem requests_answered_once_witness:
  "answered demo_asking + owed demo_asking = {#7#}"
  using requests_answered_once [OF demo_registry_inv demo_reachable]
  by (simp add: requested_def demo_fields)

theorem dispatcher_queue_bounded_witness: "ds_burst demo_asking \<le> 16"
  using dispatcher_queue_bounded [OF demo_registry_inv demo_reachable] by simp

theorem ready_callback_not_starved_witness:
  "\<exists>k s'. k \<le> 17 \<and> run_turns demo_config
     (take k (replicate 17 (Some (Some (RequestApplication 6 8)), Some (DecisionAccept, NotificationCompleted)))) demo_asking =
       Some s' \<and> callback_over demo_asking s'"
  by (rule ready_callback_not_starved [OF demo_registry_inv demo_reachable demo_fields(1,2)])
    (simp_all add: list_all_iff)

theorem grant_needs_acceptance_witness:
  "\<exists>act d n. ds_active demo_asking = Some act \<and> is_decision (ac_kind act) \<and> kind_callbacks (ac_kind act) = {#7#} \<and>
     Some (DecisionAccept, NotificationCompleted) = Some (d, n) \<and> (d = DecisionAccept \<or> d = DecisionAlwaysAccept)"
proof (rule grant_needs_acceptance)
  show "dispatcher_turn demo_config None (Some (DecisionAccept, NotificationCompleted)) demo_asking =
      Some (demo_asking\<lparr> ds_burst := 0, ds_active := None, ds_sent := [(7, PermissionReply (Ok ResultAccept))] \<rparr>)"
    by (simp add: dispatcher_turn_def demo_fields select_input_def poll_future_def dispatch_callback_def
        take_active_if_def complete_kind_eq MAX_XSWD_RECEIVE_BURST_def)
  show "ds_sent (demo_asking\<lparr> ds_burst := 0, ds_active := None, ds_sent := [(7, PermissionReply (Ok ResultAccept))] \<rparr>) =
      ds_sent demo_asking @ [(7, PermissionReply (Ok ResultAccept))]"
    by (simp add: demo_fields)
qed auto

theorem disconnect_ends_decisions_witness:
  "\<exists>s1. dispatcher_turn demo_config (Some (Some (AppDisconnect 5))) None demo_asking = Some s1 \<and>
     (\<forall>act. ds_active s1 = Some act \<longrightarrow> \<not> is_decision_for act 5)"
proof -
  let ?t = "receive_event (AppDisconnect 5) (demo_asking\<lparr> ds_burst := 1 \<rparr>)"
  let ?s1 = "dispatch_app_disconnect demo_config 5 ?t"
  have turn: "dispatcher_turn demo_config (Some (Some (AppDisconnect 5))) None demo_asking = Some ?s1"
    by (simp add: dispatcher_turn_def demo_fields select_input_def MAX_XSWD_RECEIVE_BURST_def dispatch_event_def)
  have "ds_received ?s1 = ds_received demo_asking @ [AppDisconnect 5]"
    using quiet_dispatch_disconnect [of ?t demo_config 5] by (simp add: quiet_def quiet_receive)
  from disconnect_ends_decisions [OF demo_registry_inv demo_reachable _ turn this rtranclp.rtrancl_refl] turn
  show ?thesis by (simp add: demo_fields)
qed

end
