(* ===== verification/Xswd_Wallet.thy ===== *)
theory Xswd_Wallet
  imports Xswd_Dispatcher Native_Error Rust_Text
begin

text \<open>
  The wallet's XSWD operations of \<open>xswd/impl.rs\<close>: starting and stopping the service, listing
  applications, changing their permissions, closing a session, and adding a relayed application.
  The applications the upstream wallet serves, its server and its relayer are state; what upstream
  does to them is a parameter.  The three builds the source distinguishes by conditional compilation
  are the values of a type.
\<close>

section \<open>Data\<close>

datatype build_target = WebBuild | NativeBuild | ServerBuild

datatype ('ss, 'a) api_server = ServerXswd "('ss \<times> 'a) list" | ServerOther

record ('ss, 'a, 'cl) xswd_node =
  nd_api_server :: "('ss, 'a) api_server option"
  nd_relayer :: "('a \<times> 'cl) list option"
  nd_permissions :: "'a \<Rightarrow> (string \<times> permission) list"

record ('ss, 'a, 'cl, 'rx) xswd_wallet =
  xw_node :: "('ss, 'a, 'cl) xswd_node"
  xw_registry :: "'a session_registry"
  xw_handlers :: "('rx \<times> projection_limits) list"

datatype encryption_mode = Aes "u8 list" | Chacha20Poly1305 "u8 list"

record application_data_relayer =
  ar_id :: string
  ar_name :: string
  ar_description :: string
  ar_url :: "string option"
  ar_permissions :: "string list"
  ar_relayer :: string
  ar_encryption_mode :: "encryption_mode option"

text \<open>What upstream does to its own state.\<close>

record ('ss, 'a, 'cl, 'rx, 'd) xswd_host =
  ho_enable_xswd :: "('ss, 'a, 'cl) xswd_node \<Rightarrow> ('rx option, string) result \<times> ('ss, 'a, 'cl) xswd_node"
  ho_server_stop :: "('ss, 'a) api_server \<Rightarrow> ('ss, 'a, 'cl) xswd_node \<Rightarrow> ('ss, 'a, 'cl) xswd_node"
  ho_relayer_close :: "('a \<times> 'cl) list \<Rightarrow> ('ss, 'a, 'cl) xswd_node \<Rightarrow> ('ss, 'a, 'cl) xswd_node"
  ho_session_close :: "'ss \<Rightarrow> ('ss, 'a, 'cl) xswd_node \<Rightarrow> (unit, string) result \<times> ('ss, 'a, 'cl) xswd_node"
  ho_client_close :: "'a \<Rightarrow> 'cl \<Rightarrow> ('ss, 'a, 'cl) xswd_node \<Rightarrow> ('ss, 'a, 'cl) xswd_node"
  ho_init_relayer :: "('ss, 'a, 'cl) xswd_node \<Rightarrow> ('rx option, string) result \<times> ('ss, 'a, 'cl) xswd_node"
  ho_application_data :: "string \<Rightarrow> string \<Rightarrow> string \<Rightarrow> string option \<Rightarrow> string list \<Rightarrow> ('d, string) result"
  ho_add_application :: "'d \<Rightarrow> string \<Rightarrow> encryption_mode option \<Rightarrow> ('ss, 'a, 'cl) xswd_node
    \<Rightarrow> (unit, string) result \<times> ('ss, 'a, 'cl) xswd_node"

section \<open>Permissions\<close>

fun permission_from_policy :: "permission_policy \<Rightarrow> permission" where
  "permission_from_policy PolicyAccept = PermissionAllow"
| "permission_from_policy PolicyReject = PermissionReject"
| "permission_from_policy PolicyAsk = PermissionAsk"

text \<open>The updates are a hash map, so their keys differ and their order is not specified.\<close>

datatype update_error = UpdateMessage string | UpdatePanic

fun write_permissions ::
  "(string \<times> permission_policy) list \<Rightarrow> (string \<times> permission) list
   \<Rightarrow> ((string \<times> permission) list, update_error) result" where
  "write_permissions [] current = Ok current"
| "write_permissions ((key, policy) # updates) current =
     (if key \<in> fst ` set current
      then write_permissions updates (index_insert key (permission_from_policy policy) current)
      else Err UpdatePanic)"

definition apply_permission_updates ::
  "(string \<times> permission_policy) list \<Rightarrow> (string \<times> permission) list
   \<Rightarrow> ((string \<times> permission) list, update_error) result" where
  "apply_permission_updates updates current =
     (if list_ex (\<lambda>(key, _). starts_with key ''wallet.'') updates
      then Err (UpdateMessage ''Prefixed XSWD permission names are unsupported'')
      else if list_ex (\<lambda>(key, _). key \<notin> fst ` set current) updates
      then Err (UpdateMessage ''XSWD permission not found'')
      else write_permissions updates current)"

definition modify_app_permissions ::
  "'a \<Rightarrow> (string \<times> permission_policy) list \<Rightarrow> ('ss, 'a, 'cl, 'rx) xswd_wallet
   \<Rightarrow> (unit, update_error) result \<times> ('ss, 'a, 'cl, 'rx) xswd_wallet" where
  "modify_app_permissions a updates w =
     (case apply_permission_updates updates (nd_permissions (xw_node w) a) of
        Inl e \<Rightarrow> (Err e, w)
      | Inr permissions \<Rightarrow>
          (Ok (), w\<lparr> xw_node := (xw_node w)\<lparr> nd_permissions := (nd_permissions (xw_node w))(a := permissions) \<rparr> \<rparr>))"

definition invalid_xswd_session_reference :: native_xelis_error where
  "invalid_xswd_session_reference =
     xelis_wallet_flutter_error Conflict (reference_error_code ReferenceInvalid)
       ''The XSWD session reference is stale, detached, or belongs to another wallet''"

fun update_message :: "update_error \<Rightarrow> string" where
  "update_message (UpdateMessage m) = m"
| "update_message UpdatePanic = ''''"

definition xswd_permission_update_failed :: "string \<Rightarrow> native_xelis_error" where
  "xswd_permission_update_failed e = xelis_wallet_error OperationFailed ''XSWD_PERMISSION_UPDATE_FAILED'' e"

definition xswd_session_close_failed :: "string \<Rightarrow> native_xelis_error" where
  "xswd_session_close_failed e = xelis_wallet_error OperationFailed ''XSWD_SESSION_CLOSE_FAILED'' e"

definition encryption_key :: "u8 list \<Rightarrow> (u8 list, string) result" where
  "encryption_key key =
     (if length key = 32 then Ok key
      else Err (''Invalid XSWD relayer encryption key length: expected 32 bytes, got '' @ decimal_of_nat (length key)))"

fun convert_encryption_mode :: "encryption_mode option \<Rightarrow> (encryption_mode option, string) result" where
  "convert_encryption_mode None = Ok None"
| "convert_encryption_mode (Some (Aes key)) = map_ok (\<lambda>key. Some (Aes key)) (encryption_key key)"
| "convert_encryption_mode (Some (Chacha20Poly1305 key)) =
     map_ok (\<lambda>key. Some (Chacha20Poly1305 key)) (encryption_key key)"

section \<open>Operations\<close>

definition start_xswd where
  "start_xswd target host limits w =
     (case validate_limits limits of
        Inl e \<Rightarrow> (Err (limits_error_code e), w)
      | Inr limits \<Rightarrow>
          (case target of
             WebBuild \<Rightarrow> (Err ''Local XSWD server not supported on web. Use relay mode instead.'', w)
           | NativeBuild \<Rightarrow> (Err ''Local XSWD server not enabled in this build. Use relay mode instead.'', w)
           | ServerBuild \<Rightarrow>
               (case ho_enable_xswd host (xw_node w) of
                  (Inr (Some receiver), node) \<Rightarrow>
                    (Ok (), w\<lparr> xw_node := node, xw_handlers := xw_handlers w @ [(receiver, limits)] \<rparr>)
                | (Inr None, node) \<Rightarrow> (Ok (), w\<lparr> xw_node := node \<rparr>)
                | (Inl e, node) \<Rightarrow> (Err (''Error while enabling XSWD Server: '' @ e), w\<lparr> xw_node := node \<rparr>))))"

definition stop_server where
  "stop_server target host w =
     (if target = ServerBuild
      then (case nd_api_server (xw_node w) of
              Some server \<Rightarrow> w\<lparr> xw_node := ho_server_stop host server ((xw_node w)\<lparr> nd_api_server := None \<rparr>) \<rparr>
            | None \<Rightarrow> w)
      else w)"

definition stop_relayer where
  "stop_relayer host w =
     (case nd_relayer (xw_node w) of
        Some apps \<Rightarrow> w\<lparr> xw_node := ho_relayer_close host apps ((xw_node w)\<lparr> nd_relayer := None \<rparr>) \<rparr>
      | None \<Rightarrow> w)"

definition stop_xswd ::
  "build_target \<Rightarrow> ('ss, 'a, 'cl, 'rx, 'd) xswd_host \<Rightarrow> ('ss, 'a, 'cl, 'rx) xswd_wallet
   \<Rightarrow> (unit, string) result \<times> ('ss, 'a, 'cl, 'rx) xswd_wallet" where
  "stop_xswd target host w =
     (let w = stop_relayer host (stop_server target host w) in
      (Ok (), w\<lparr> xw_registry := clear_sessions (xw_registry w) \<rparr>))"

definition is_xswd_running :: "build_target \<Rightarrow> ('ss, 'a, 'cl, 'rx) xswd_wallet \<Rightarrow> bool" where
  "is_xswd_running target w \<longleftrightarrow>
     target = ServerBuild \<and> nd_api_server (xw_node w) \<noteq> None \<or>
     (case nd_relayer (xw_node w) of Some apps \<Rightarrow> apps \<noteq> [] | None \<Rightarrow> False)"



definition server_apps :: "build_target \<Rightarrow> ('ss, 'a, 'cl, 'rx) xswd_wallet \<Rightarrow> ('ss \<times> 'a) list" where
  "server_apps target w =
     (if target = ServerBuild
      then (case nd_api_server (xw_node w) of Some (ServerXswd apps) \<Rightarrow> apps | _ \<Rightarrow> [])
      else [])"

definition relayer_apps :: "('ss, 'a, 'cl, 'rx) xswd_wallet \<Rightarrow> ('a \<times> 'cl) list" where
  "relayer_apps w = (case nd_relayer (xw_node w) of Some apps \<Rightarrow> apps | None \<Rightarrow> [])"


definition modify_application_permissions ::
  "build_target \<Rightarrow> u64 \<Rightarrow> (string \<times> permission_policy) list \<Rightarrow> ('ss, 'a, 'cl, 'rx) xswd_wallet
   \<Rightarrow> (unit, native_xelis_error) result \<times> ('ss, 'a, 'cl, 'rx) xswd_wallet" where
  "modify_application_permissions target session_ref updates w =
     (case resolve_session session_ref (xw_registry w) of
        (None, reg) \<Rightarrow> (Err invalid_xswd_session_reference, w\<lparr> xw_registry := reg \<rparr>)
      | (Some a, reg) \<Rightarrow>
          (let w = w\<lparr> xw_registry := reg \<rparr> in
           case find (\<lambda>(_, app). app = a) (server_apps target w) of
             Some (_, app) \<Rightarrow>
               (case modify_app_permissions app updates w of
                  (r, w) \<Rightarrow> (map_err (\<lambda>e. xswd_permission_update_failed (update_message e)) r, w))
           | None \<Rightarrow>
               (case find (\<lambda>(app, _). app = a) (relayer_apps w) of
                  Some (app, _) \<Rightarrow>
                    (case modify_app_permissions app updates w of
                       (r, w) \<Rightarrow> (map_err (\<lambda>e. xswd_permission_update_failed (update_message e)) r, w))
                | None \<Rightarrow> (Err invalid_xswd_session_reference, w))))"

definition close_application_session ::
  "build_target \<Rightarrow> ('ss, 'a, 'cl, 'rx, 'd) xswd_host \<Rightarrow> u64 \<Rightarrow> ('ss, 'a, 'cl, 'rx) xswd_wallet
   \<Rightarrow> (unit, native_xelis_error) result \<times> ('ss, 'a, 'cl, 'rx) xswd_wallet" where
  "close_application_session target host session_ref w =
     (case resolve_session session_ref (xw_registry w) of
        (None, reg) \<Rightarrow> (Err invalid_xswd_session_reference, w\<lparr> xw_registry := reg \<rparr>)
      | (Some a, reg) \<Rightarrow>
          (let w = w\<lparr> xw_registry := reg \<rparr> in
           case find (\<lambda>(_, app). app = a) (server_apps target w) of
             Some (session, _) \<Rightarrow>
               (case ho_session_close host session (xw_node w) of
                  (r, node) \<Rightarrow> (map_err xswd_session_close_failed r, w\<lparr> xw_node := node \<rparr>))
           | None \<Rightarrow>
               (case find (\<lambda>(app, _). app = a) (relayer_apps w) of
                  Some (app, client) \<Rightarrow> (Ok (), w\<lparr> xw_node := ho_client_close host app client (xw_node w) \<rparr>)
                | None \<Rightarrow> (Err invalid_xswd_session_reference, w))))"

definition add_xswd_relayer ::
  "('ss, 'a, 'cl, 'rx, 'd) xswd_host \<Rightarrow> application_data_relayer \<Rightarrow> projection_limits
   \<Rightarrow> ('ss, 'a, 'cl, 'rx) xswd_wallet \<Rightarrow> (unit, string) result \<times> ('ss, 'a, 'cl, 'rx) xswd_wallet" where
  "add_xswd_relayer host app_data limits w =
     (case map_err limits_error_code (validate_limits limits) of
        Inl e \<Rightarrow> (Err e, w)
      | Inr limits \<Rightarrow>
     (case convert_encryption_mode (ar_encryption_mode app_data) of
        Inl e \<Rightarrow> (Err e, w)
      | Inr mode \<Rightarrow>
     (case ho_application_data host (ar_id app_data) (ar_name app_data) (ar_description app_data)
             (ar_url app_data) (ar_permissions app_data) of
        Inl e \<Rightarrow> (Err e, w)
      | Inr core \<Rightarrow>
     (case ho_init_relayer host (xw_node w) of
        (Inl e, node) \<Rightarrow> (Err e, w\<lparr> xw_node := node \<rparr>)
      | (Inr receiver, node) \<Rightarrow>
          (let w = w\<lparr> xw_node := node,
                 xw_handlers := xw_handlers w @ (case receiver of Some rx \<Rightarrow> [(rx, limits)] | None \<Rightarrow> []) \<rparr> in
           case ho_add_application host core (ar_relayer app_data) mode (xw_node w) of
             (r, node) \<Rightarrow> (r, w\<lparr> xw_node := node \<rparr>))))))"

section \<open>Lemmas\<close>

lemma replace_keys: "map fst (map (\<lambda>(k', v'). if k' = k then (k, v) else (k', v')) m) = map fst m"
proof (induction m)
  case (Cons a m)
  then show ?case by (cases a) (simp del: map_map)
qed simp

lemma replace_value:
  "map_of (map (\<lambda>(k', v'). if k' = k then (k, v) else (k', v')) m) x =
     (if x = k \<and> k \<in> fst ` set m then Some v else map_of m x)"
proof (induction m)
  case (Cons p m)
  show ?case by (cases p; cases "x = k"; cases "fst p = k"; cases "fst p = x") (use Cons.IH in simp_all)
qed simp

lemma index_insert_present:
  assumes "k \<in> fst ` set m"
  shows "map fst (index_insert k v m) = map fst m" "map_of (index_insert k v m) = (map_of m)(k \<mapsto> v)"
proof -
  have eq: "index_insert k v m = map (\<lambda>(k', v'). if k' = k then (k, v) else (k', v')) m"
    using assms by (simp add: index_insert_def)
  show "map fst (index_insert k v m) = map fst m" unfolding eq by (rule replace_keys)
  show "map_of (index_insert k v m) = (map_of m)(k \<mapsto> v)"
    using assms by (simp add: eq replace_value fun_eq_iff)
qed

text \<open>What an update makes of a permission table: the keys and their order stay, an updated key has the
  permission of its policy.\<close>

definition updated_permissions ::
  "(string \<times> permission_policy) list \<Rightarrow> (string \<times> permission) list \<Rightarrow> (string \<times> permission) list \<Rightarrow> bool" where
  "updated_permissions updates old new \<longleftrightarrow> map fst new = map fst old \<and>
     (\<forall>k. map_of new k = (case map_of updates k of Some p \<Rightarrow> Some (permission_from_policy p) | None \<Rightarrow> map_of old k))"

lemma write_permissions_Ok:
  assumes "distinct (map fst updates)" "fst ` set updates \<subseteq> fst ` set current"
  obtains new where "write_permissions updates current = Ok new" "updated_permissions updates current new"
  using assms
proof (induction updates current arbitrary: thesis rule: write_permissions.induct)
  case (1 current)
  then show ?case by (simp add: updated_permissions_def)
next
  case (2 key policy updates current)
  let ?c = "index_insert key (permission_from_policy policy) current"
  have key: "key \<in> fst ` set current" using 2(4) by simp
  note c = index_insert_present [OF key, of "permission_from_policy policy"]
  have keys: "fst ` set ?c = fst ` set current"
    using arg_cong [OF c(1), of set] by simp
  then obtain new where new: "write_permissions updates ?c = Ok new" "updated_permissions updates ?c new"
    using 2(1) [OF key] 2(3,4) by auto
  have "map_of updates key = None" using 2(3) by (auto simp: map_of_eq_None_iff)
  then have "updated_permissions ((key, policy) # updates) current new"
    using new(2) by (auto simp: updated_permissions_def c split: option.splits)
  then show ?case using 2(2) new(1) key by simp
qed


lemma policy_roundtrip: "policy_of_permission (permission_from_policy p) = p"
  by (cases p) simp_all




lemma modify_app_Err: "modify_app_permissions a updates w = (Err e, w') \<Longrightarrow> w' = w"
  by (auto simp: modify_app_permissions_def split: sum.splits)

lemma modify_Err:
  assumes "modify_application_permissions target r updates w = (Err e, w')"
  shows "w' = w\<lparr> xw_registry := remove_dead (xw_registry w) \<rparr>"
proof -
  obtain x where x: "resolve_session r (xw_registry w) = (x, remove_dead (xw_registry w))"
    using resolve_snd [of r "xw_registry w"] by (cases "resolve_session r (xw_registry w)") auto
  show ?thesis
    using assms x
    by (cases x) (auto simp: modify_application_permissions_def Let_def result_simps
        dest: modify_app_Err split: prod.splits option.splits)
qed

text \<open>A reference that names a live state in the registry.\<close>

definition names :: "u64 \<Rightarrow> 'a \<Rightarrow> 'a session_registry \<Rightarrow> bool" where
  "names r a s \<longleftrightarrow> registry_inv s \<and> live s a \<and> (\<exists>e. (r, e) \<in> set (sessions s) \<and> se_state e = a)"













lemma cleared_resolves_nothing: "fst (resolve_session r (clear_sessions s)) = None"
proof -
  have "\<not> se_active e" if "(k, e) \<in> set (sessions (clear_sessions s))" for k e
    using that by (auto simp: clear_sessions_def Let_def)
  then show ?thesis by (metis option.exhaust resolve_Some)
qed

section \<open>Properties\<close>

text \<open>
  C23: a permission update is all or nothing.  It succeeds exactly when every
  name is one the application has and none carries the wallet prefix; then the
  names and their order stay, the updated names have the permission of their
  policy and the others keep theirs.  The write never meets a missing name.
\<close>

theorem permission_updates_exact:
  assumes "distinct (map fst updates)"
  shows "(is_ok (apply_permission_updates updates current) \<longleftrightarrow>
      list_all (\<lambda>(k, _). \<not> starts_with k ''wallet.'' \<and> k \<in> fst ` set current) updates) \<and>
    apply_permission_updates updates current \<noteq> Err UpdatePanic \<and>
    (\<forall>new. apply_permission_updates updates current = Ok new \<longrightarrow> updated_permissions updates current new)"
proof (cases "list_all (\<lambda>(k, _). \<not> starts_with k ''wallet.'' \<and> k \<in> fst ` set current) updates")
  case True
  then have "fst ` set updates \<subseteq> fst ` set current" by (auto simp: list_all_iff)
  with assms obtain new where "write_permissions updates current = Ok new" "updated_permissions updates current new"
    by (rule write_permissions_Ok)
  moreover have "apply_permission_updates updates current = write_permissions updates current"
    using True by (auto simp: apply_permission_updates_def list_all_iff list_ex_iff)
  ultimately show ?thesis using True by simp
next
  case False
  then have "\<exists>m. apply_permission_updates updates current = Err (UpdateMessage m)"
    by (auto simp: apply_permission_updates_def list_all_iff list_ex_iff)
  then show ?thesis using False by auto
qed

theorem permission_updates_exact_witness:
  "apply_permission_updates [(''get_balance'', PolicyAccept)] [(''get_balance'', PermissionAsk)] \<noteq> Err UpdatePanic"
  using permission_updates_exact [of "[(''get_balance'', PolicyAccept)]" "[(''get_balance'', PermissionAsk)]"]
  by simp


definition demo_xswd_wallet :: "(unit, nat, unit, unit) xswd_wallet" where
  "demo_xswd_wallet =
     \<lparr> xw_node = \<lparr> nd_api_server = Some (ServerXswd [((), 5)]), nd_relayer = None,
         nd_permissions = (\<lambda>_. [(''get_balance'', PermissionAsk)]) \<rparr>,
       xw_registry = \<lparr> next_reference = 2, sessions = [(1, \<lparr> se_state = 5, se_active = True \<rparr>)], live = (\<lambda>_. True) \<rparr>,
       xw_handlers = [] \<rparr>"




text \<open>
  Stopping ends the service.  If stopping the server and closing the
  relayer do not install a new one, then after a stop the service does not
  run and no session reference given out before resolves.
\<close>

theorem stopped_xswd_resolves_nothing:
  assumes "\<And>server node. nd_api_server (ho_server_stop host server node) = nd_api_server node \<and>
      nd_relayer (ho_server_stop host server node) = nd_relayer node"
    and "\<And>apps node. nd_api_server (ho_relayer_close host apps node) = nd_api_server node \<and>
      nd_relayer (ho_relayer_close host apps node) = nd_relayer node"
  shows "\<not> is_xswd_running target (snd (stop_xswd target host w)) \<and>
    fst (resolve_session r (xw_registry (snd (stop_xswd target host w)))) = None"
  using assms
  by (auto simp: stop_xswd_def Let_def is_xswd_running_def stop_relayer_def stop_server_def cleared_resolves_nothing
      split: option.splits)

definition demo_host :: "(unit, nat, unit, unit, unit) xswd_host" where
  "demo_host =
     \<lparr> ho_enable_xswd = (\<lambda>node. (Ok (Some ()), node)), ho_server_stop = (\<lambda>_ node. node),
       ho_relayer_close = (\<lambda>_ node. node), ho_session_close = (\<lambda>_ node. (Ok (), node)),
       ho_client_close = (\<lambda>_ _ node. node), ho_init_relayer = (\<lambda>node. (Ok (Some ()), node)),
       ho_application_data = (\<lambda>_ _ _ _ _. Ok ()), ho_add_application = (\<lambda>_ _ _ node. (Ok (), node)) \<rparr>"

theorem stopped_xswd_resolves_nothing_witness:
  "\<not> is_xswd_running ServerBuild (snd (stop_xswd ServerBuild demo_host demo_xswd_wallet)) \<and>
    fst (resolve_session 1 (xw_registry (snd (stop_xswd ServerBuild demo_host demo_xswd_wallet)))) = None"
  by (rule stopped_xswd_resolves_nothing) (simp_all add: demo_host_def)

end
