(* ===== verification/Address_Book.thy ===== *)
theory Address_Book
  imports Error_Classification Address Rust_Text
    "HOL-Library.AList" "HOL-Library.Char_ord" "HOL-Library.List_Lexorder" "HOL-Library.Product_Lexorder"
begin

text \<open>
  The destination-first address book of \<open>address_book_v2.rs\<close> with its data of
  \<open>models/address_book_v2.rs\<close>.  The encrypted storage, the address type, the hash and the Unicode
  lower-case table are parameters; the storage is threaded through the operations.  The migration
  collects its entries in a hash map, whose iteration order is a parameter too.
\<close>

section \<open>Data\<close>

definition LEGACY_TREE :: string where "LEGACY_TREE = ''address_book''"
definition ADDRESS_BOOK_V2_TREE :: string where "ADDRESS_BOOK_V2_TREE = ''address_book_v2''"
definition MIGRATION_MARKER_KEY :: string where "MIGRATION_MARKER_KEY = ''_meta:migration_v1_complete''"
definition ENTRY_KEY_PREFIX :: string where "ENTRY_KEY_PREFIX = ''entry:''"
definition SCHEMA_VERSION :: u8 where "SCHEMA_VERSION = 2"
definition ENTRY_ID_DOMAIN :: string where "ENTRY_ID_DOMAIN = ''xelis-wallet-flutter:address-book-entry:v2''"
definition MAX_ADDRESS_BYTES :: nat where "MAX_ADDRESS_BYTES = 8192"
definition MAX_DISPLAY_NAME_CHARS :: nat where "MAX_DISPLAY_NAME_CHARS = 128"
definition MAX_DESTINATION_LABEL_CHARS :: nat where "MAX_DESTINATION_LABEL_CHARS = 128"
definition MAX_NOTE_CHARS :: nat where "MAX_NOTE_CHARS = 2048"
definition MAX_QUERY_CHARS :: nat where "MAX_QUERY_CHARS = 256"
definition MAX_PAGE_SIZE :: u32 where "MAX_PAGE_SIZE = 500"

datatype saved_destination_kind = DestinationStandard | DestinationIntegrated

datatype integrated_data_kind =
  KindBool | KindString | KindU8 | KindU16 | KindU32 | KindU64 | KindU128 | KindHash | KindBlob
| KindArray | KindFields

record saved_destination =
  sd_address :: string
  sd_base_address :: string
  sd_kind :: saved_destination_kind
  sd_integrated_data_kind :: "integrated_data_kind option"

record book_entry =
  be_id :: string
  be_display_name :: string
  be_destination_label :: "string option"
  be_note :: "string option"
  be_destination :: saved_destination

record book_page =
  bp_entries :: "book_entry list"
  bp_total :: u32
  bp_has_more :: bool

datatype book_match_kind = MatchExact | MatchBaseOnly | MatchAmbiguous | MatchNone

record book_match =
  bm_kind :: book_match_kind
  bm_entries :: "book_entry list"

record migration_result =
  mr_migrated_entries :: u32
  mr_already_complete :: bool

record 'h canonical_destination_rec =
  cd_address :: string
  cd_base_address :: string
  cd_integrated_data :: "'h data_element option"
  cd_integrated_data_kind :: "integrated_data_kind option"

record ('s, 'h) storage_api =
  st_has :: "'s \<Rightarrow> string \<Rightarrow> 'h data_value \<Rightarrow> (bool, anyhow_error) result"
  st_get :: "'s \<Rightarrow> string \<Rightarrow> 'h data_value \<Rightarrow> ('h data_element, anyhow_error) result"
  st_set :: "string \<Rightarrow> 'h data_value \<Rightarrow> 'h data_element \<Rightarrow> 's \<Rightarrow> (unit, anyhow_error) result \<times> 's"
  st_delete :: "string \<Rightarrow> 'h data_value \<Rightarrow> 's \<Rightarrow> (unit, anyhow_error) result \<times> 's"
  st_query :: "'s \<Rightarrow> string \<Rightarrow> (('h data_value \<times> 'h data_element) list, anyhow_error) result"

record ('a, 'k, 'h, 's) book_api =
  bk_address :: "('a, 'k, 'h) address_api"
  bk_hashes :: "'h hash_api"
  bk_hash_multiple :: "string list \<Rightarrow> 'h"
  bk_lowercase :: "string \<Rightarrow> string"
  bk_storage :: "('s, 'h) storage_api"
  bk_order :: "book_entry list \<Rightarrow> book_entry list"
  bk_text :: upstream_text
  bk_mainnet :: bool
  bk_usize_max :: nat

section \<open>Destinations and entries\<close>

definition address_book_error :: "native_xelis_error_code \<Rightarrow> string \<Rightarrow> string \<Rightarrow> native_xelis_error" where
  "address_book_error code native_kind msg = xelis_wallet_flutter_error code native_kind msg"

definition book_storage_error where
  "book_storage_error B native_kind e = from_wallet_storage_operation (bk_text B) e native_kind"

fun data_kind :: "'h data_element \<Rightarrow> integrated_data_kind" where
  "data_kind (DValue (DBool _)) = KindBool"
| "data_kind (DValue (DString _)) = KindString"
| "data_kind (DValue (DU8 _)) = KindU8"
| "data_kind (DValue (DU16 _)) = KindU16"
| "data_kind (DValue (DU32 _)) = KindU32"
| "data_kind (DValue (DU64 _)) = KindU64"
| "data_kind (DValue (DU128 _)) = KindU128"
| "data_kind (DValue (DHash _)) = KindHash"
| "data_kind (DValue (DBlob _)) = KindBlob"
| "data_kind (DArray _) = KindArray"
| "data_kind (DFields _) = KindFields"

definition destination_to_native :: "'h canonical_destination_rec \<Rightarrow> saved_destination" where
  "destination_to_native d =
     \<lparr> sd_address = cd_address d, sd_base_address = cd_base_address d,
       sd_kind = (if cd_integrated_data d \<noteq> None then DestinationIntegrated else DestinationStandard),
       sd_integrated_data_kind = cd_integrated_data_kind d \<rparr>"

definition canonical_destination ::
  "('a, 'k, 'h) address_api \<Rightarrow> string \<Rightarrow> bool \<Rightarrow> ('h canonical_destination_rec, native_xelis_error) result" where
  "canonical_destination A address expected_mainnet =
     (let address = trim address in
      if address = [] \<or> length address > MAX_ADDRESS_BYTES
      then Err (address_book_error InvalidInput ''ADDRESS_BOOK_ADDRESS_INVALID''
        ''Address-book destination is empty or exceeds the supported size'')
      else and_then
        (map_err (\<lambda>_. address_book_error InvalidInput ''ADDRESS_BOOK_ADDRESS_INVALID''
            ''Address-book destination is not a valid XELIS address'') (address_from_string A address))
        (\<lambda>parsed.
          if address_is_mainnet A parsed \<noteq> expected_mainnet
          then Err (address_book_error NetworkMismatch ''ADDRESS_BOOK_ADDRESS_NETWORK_MISMATCH''
            ''Address-book destination belongs to a different network'')
          else case extract_data A parsed of
            (payload, base) \<Rightarrow>
              Ok \<lparr> cd_address = address_to_string A parsed, cd_base_address = address_to_string A base,
                   cd_integrated_data = payload,
                   cd_integrated_data_kind = map_option data_kind payload \<rparr>))"

definition canonical_destination_from_parts ::
  "'h hash_api \<Rightarrow> ('a, 'k, 'h) address_api \<Rightarrow> string \<Rightarrow> native_data_element option \<Rightarrow> bool
   \<Rightarrow> ('h canonical_destination_rec, native_xelis_error) result" where
  "canonical_destination_from_parts H A base_text payload expected_mainnet =
     and_then (canonical_destination A base_text expected_mainnet) (\<lambda>base.
       if cd_integrated_data base \<noteq> None
       then Err (address_book_error InvalidInput ''ADDRESS_BOOK_BASE_ADDRESS_INTEGRATED''
         ''Address-book base address must not contain integrated data'')
       else case payload of
         None \<Rightarrow> Ok base
       | Some wire \<Rightarrow>
           and_then (element_into_xelis H wire) (\<lambda>element.
           and_then
             (map_err (\<lambda>_. address_book_error Internal ''ADDRESS_BOOK_BASE_ADDRESS_INCONSISTENT''
                 ''Canonical address-book base address could not be reconstructed'')
               (address_from_string A (cd_address base)))
             (\<lambda>parsed. canonical_destination A
                (address_to_string A (new_address A expected_mainnet (Some element) (to_public_key A parsed)))
                expected_mainnet)))"

definition normalize_required :: "string \<Rightarrow> nat \<Rightarrow> string \<Rightarrow> string \<Rightarrow> (string, native_xelis_error) result" where
  "normalize_required s max_chars native_kind msg =
     (let s = trim s in
      if s = [] \<or> char_count s > max_chars then Err (address_book_error InvalidInput native_kind msg) else Ok s)"

definition normalize_optional ::
  "string option \<Rightarrow> nat \<Rightarrow> string \<Rightarrow> string \<Rightarrow> (string option, native_xelis_error) result" where
  "normalize_optional s max_chars native_kind msg =
     (case s of
        None \<Rightarrow> Ok None
      | Some s \<Rightarrow>
          (let s = trim s in
           if s = [] then Ok None
           else if char_count s > max_chars then Err (address_book_error InvalidInput native_kind msg)
           else Ok (Some s)))"

definition entry_id :: "('a, 'k, 'h, 's) book_api \<Rightarrow> string \<Rightarrow> string" where
  "entry_id B address = to_hex (bk_hashes B) (bk_hash_multiple B [ENTRY_ID_DOMAIN, address])"

definition entry_key :: "string \<Rightarrow> 'h data_value" where
  "entry_key i = DString (ENTRY_KEY_PREFIX @ i)"

definition is_lower_hex :: "char \<Rightarrow> bool" where
  "is_lower_hex c \<longleftrightarrow> 48 \<le> byte c \<and> byte c \<le> 57 \<or> 97 \<le> byte c \<and> byte c \<le> 102"

definition validate_entry_id :: "string \<Rightarrow> (unit, native_xelis_error) result" where
  "validate_entry_id i =
     (if length i \<noteq> 64 \<or> \<not> list_all is_lower_hex i
      then Err (address_book_error InvalidInput ''ADDRESS_BOOK_ENTRY_ID_INVALID''
        ''Address-book entry identifier is invalid'')
      else Ok ())"

definition normalize_entry ::
  "('a, 'k, 'h, 's) book_api \<Rightarrow> string \<Rightarrow> string \<Rightarrow> string option \<Rightarrow> string option
   \<Rightarrow> (book_entry, native_xelis_error) result" where
  "normalize_entry B address display_name destination_label note =
     and_then (canonical_destination (bk_address B) address (bk_mainnet B)) (\<lambda>destination.
     and_then (normalize_required display_name MAX_DISPLAY_NAME_CHARS ''ADDRESS_BOOK_DISPLAY_NAME_INVALID''
       ''Address-book display name is empty or exceeds the supported size'') (\<lambda>display_name.
     and_then (normalize_optional destination_label MAX_DESTINATION_LABEL_CHARS
       ''ADDRESS_BOOK_DESTINATION_LABEL_INVALID''
       ''Address-book destination label exceeds the supported size'') (\<lambda>destination_label.
     and_then (normalize_optional note MAX_NOTE_CHARS ''ADDRESS_BOOK_NOTE_INVALID''
       ''Address-book note exceeds the supported size'') (\<lambda>note.
       Ok \<lparr> be_id = entry_id B (cd_address destination), be_display_name = display_name,
            be_destination_label = destination_label, be_note = note,
            be_destination = destination_to_native destination \<rparr>))))"

section \<open>Stored form\<close>

definition schema_error :: "string \<Rightarrow> native_xelis_error" where
  "schema_error msg = address_book_error Serialization ''ADDRESS_BOOK_ENTRY_SCHEMA_INVALID'' msg"

definition string_field ::
  "('h data_value \<times> 'h data_element) list \<Rightarrow> string \<Rightarrow> bool \<Rightarrow> (string option, native_xelis_error) result" where
  "string_field fs name required =
     (case map_of fs (DString name) of
        None \<Rightarrow>
          if required then Err (schema_error ''Address-book entry is missing a required field'') else Ok None
      | Some (DValue (DString v)) \<Rightarrow> Ok (Some v)
      | Some _ \<Rightarrow> Err (schema_error ''Address-book entry contains an invalid field type''))"

definition string_entry :: "string \<Rightarrow> string \<Rightarrow> 'h data_value \<times> 'h data_element" where
  "string_entry name v = (DString name, DValue (DString v))"

definition encode_entry :: "book_entry \<Rightarrow> 'h data_element" where
  "encode_entry e =
     DFields ([(DString ''schema_version'', DValue (DU8 SCHEMA_VERSION)), string_entry ''id'' (be_id e),
         string_entry ''display_name'' (be_display_name e)]
       @ (case be_destination_label e of Some v \<Rightarrow> [string_entry ''destination_label'' v] | None \<Rightarrow> [])
       @ (case be_note e of Some v \<Rightarrow> [string_entry ''note'' v] | None \<Rightarrow> [])
       @ [string_entry ''address'' (sd_address (be_destination e))])"

text \<open>The \<open>expect\<close> after a required lookup always finds a value: see \<open>string_field_required\<close>.\<close>

definition required_field ::
  "('h data_value \<times> 'h data_element) list \<Rightarrow> string \<Rightarrow> (string, native_xelis_error) result" where
  "required_field fs name = map_ok the (string_field fs name True)"

definition decode_entry ::
  "('a, 'k, 'h, 's) book_api \<Rightarrow> string \<Rightarrow> 'h data_element \<Rightarrow> (book_entry, native_xelis_error) result" where
  "decode_entry B key_id v =
     (case v of
        DFields fs \<Rightarrow>
          if map_of fs (DString ''schema_version'') \<noteq> Some (DValue (DU8 SCHEMA_VERSION))
          then Err (address_book_error Unsupported ''ADDRESS_BOOK_SCHEMA_VERSION_UNSUPPORTED''
            ''Address-book entry schema version is unsupported'')
          else
            and_then (required_field fs ''id'') (\<lambda>stored_id.
            and_then (required_field fs ''display_name'') (\<lambda>display_name.
            and_then (required_field fs ''address'') (\<lambda>address.
            and_then (string_field fs ''destination_label'' False) (\<lambda>destination_label.
            and_then (string_field fs ''note'' False) (\<lambda>note.
            and_then (normalize_entry B address display_name destination_label note) (\<lambda>normalized.
              if stored_id \<noteq> key_id \<or> be_id normalized \<noteq> key_id
              then Err (address_book_error Serialization ''ADDRESS_BOOK_ENTRY_ID_MISMATCH''
                ''Address-book entry identifier does not match its canonical destination'')
              else Ok normalized))))))
      | _ \<Rightarrow> Err (schema_error ''Address-book entry is not a fields element''))"

definition encode_marker :: "u32 \<Rightarrow> 'h data_element" where
  "encode_marker n =
     DFields [(DString ''schema_version'', DValue (DU8 SCHEMA_VERSION)),
       (DString ''migrated_entries'', DValue (DU32 n))]"

definition marker_error :: native_xelis_error where
  "marker_error = address_book_error Serialization ''ADDRESS_BOOK_MIGRATION_MARKER_INVALID''
     ''Address-book migration marker is invalid''"

definition decode_marker :: "'h data_element \<Rightarrow> (u32, native_xelis_error) result" where
  "decode_marker v =
     (case v of
        DFields fs \<Rightarrow>
          (case map_of fs (DString ''migrated_entries'') of
             Some (DValue (DU32 stored_total)) \<Rightarrow>
               if map_of fs (DString ''schema_version'') = Some (DValue (DU8 SCHEMA_VERSION))
               then Ok stored_total else Err marker_error
           | _ \<Rightarrow> Err marker_error)
      | _ \<Rightarrow> Err marker_error)"

section \<open>Reading and matching\<close>

definition key_error :: "string \<Rightarrow> native_xelis_error" where
  "key_error msg = address_book_error Serialization ''ADDRESS_BOOK_ENTRY_KEY_INVALID'' msg"

fun decode_entries ::
  "('a, 'k, 'h, 's) book_api \<Rightarrow> ('h data_value \<times> 'h data_element) list \<Rightarrow> (book_entry list, native_xelis_error) result" where
  "decode_entries B [] = Ok []"
| "decode_entries B ((key, v) # rest) =
     (case key of
        DString key \<Rightarrow>
          if key = MIGRATION_MARKER_KEY then decode_entries B rest
          else (case strip_prefix key ENTRY_KEY_PREFIX of
             None \<Rightarrow> Err (key_error ''Address-book v2 contains an unknown key'')
           | Some i \<Rightarrow>
               and_then (validate_entry_id i) (\<lambda>_.
               and_then (decode_entry B i v) (\<lambda>entry.
               and_then (decode_entries B rest) (\<lambda>entries. Ok (entry # entries)))))
      | _ \<Rightarrow> Err (key_error ''Address-book v2 contains an invalid key''))"

definition entry_order :: "('a, 'k, 'h, 's) book_api \<Rightarrow> book_entry \<Rightarrow> string \<times> string" where
  "entry_order B e = (bk_lowercase B (be_display_name e), be_id e)"

definition read_v2_entries :: "('a, 'k, 'h, 's) book_api \<Rightarrow> 's \<Rightarrow> (book_entry list, native_xelis_error) result" where
  "read_v2_entries B st =
     and_then (map_err (book_storage_error B ''ADDRESS_BOOK_LIST_FAILED'')
         (st_query (bk_storage B) st ADDRESS_BOOK_V2_TREE)) (\<lambda>stored.
     and_then (decode_entries B stored) (\<lambda>entries.
       Ok (sort_key (entry_order B) entries)))"

definition match_destination :: "book_entry list \<Rightarrow> 'h canonical_destination_rec \<Rightarrow> book_match" where
  "match_destination entries d =
     (case find (\<lambda>e. sd_address (be_destination e) = cd_address d) entries of
        Some e \<Rightarrow> \<lparr> bm_kind = MatchExact, bm_entries = [e] \<rparr>
      | None \<Rightarrow>
          (let base_matches = filter (\<lambda>e. sd_base_address (be_destination e) = cd_base_address d) entries in
           \<lparr> bm_kind = (case length base_matches of
               0 \<Rightarrow> MatchNone | Suc 0 \<Rightarrow> MatchBaseOnly | _ \<Rightarrow> MatchAmbiguous),
             bm_entries = base_matches \<rparr>))"

section \<open>Operations\<close>

definition marker_key :: "'h data_value" where
  "marker_key = DString MIGRATION_MARKER_KEY"

text \<open>The migration: collect the legacy entries, then write those that are not there yet.\<close>

definition legacy_entry ::
  "('a, 'k, 'h, 's) book_api \<Rightarrow> 'h data_value \<times> 'h data_element \<Rightarrow> (book_entry, native_xelis_error) result" where
  "legacy_entry B kv =
     (case kv of
        (DString key_address, DFields fs) \<Rightarrow>
          and_then (required_field fs ''name'') (\<lambda>display_name.
          and_then (required_field fs ''address'') (\<lambda>field_address.
          and_then (string_field fs ''note'' False) (\<lambda>note.
          and_then (canonical_destination (bk_address B) key_address (bk_mainnet B)) (\<lambda>canonical_key.
          and_then (normalize_entry B field_address display_name None note) (\<lambda>entry.
            if sd_address (be_destination entry) \<noteq> cd_address canonical_key
            then Err (address_book_error Serialization ''ADDRESS_BOOK_LEGACY_ADDRESS_MISMATCH''
              ''Legacy address-book key and stored destination do not match'')
            else Ok entry)))))
      | (DString _, _) \<Rightarrow>
          Err (address_book_error Serialization ''ADDRESS_BOOK_LEGACY_ENTRY_INVALID''
            ''Legacy address-book entry has an invalid schema'')
      | _ \<Rightarrow>
          Err (address_book_error Serialization ''ADDRESS_BOOK_LEGACY_KEY_INVALID''
            ''Legacy address-book entry contains an invalid key''))"

definition duplicate_error :: native_xelis_error where
  "duplicate_error = address_book_error Conflict ''ADDRESS_BOOK_MIGRATION_DUPLICATE''
     ''Legacy address-book entries conflict after canonicalization''"

fun collect_legacy ::
  "('a, 'k, 'h, 's) book_api \<Rightarrow> ('h data_value \<times> 'h data_element) list \<Rightarrow> (string \<times> book_entry) list
   \<Rightarrow> ((string \<times> book_entry) list, native_xelis_error) result" where
  "collect_legacy B [] migrated = Ok migrated"
| "collect_legacy B (kv # rest) migrated =
     and_then (legacy_entry B kv) (\<lambda>entry.
       case map_of migrated (be_id entry) of
         Some previous \<Rightarrow>
           if previous \<noteq> entry then Err duplicate_error
           else collect_legacy B rest (AList.update (be_id entry) entry migrated)
       | None \<Rightarrow> collect_legacy B rest (AList.update (be_id entry) entry migrated))"

fun write_migrated ::
  "('a, 'k, 'h, 's) book_api \<Rightarrow> book_entry list \<Rightarrow> 's \<Rightarrow> (unit, native_xelis_error) result \<times> 's" where
  "write_migrated B [] st = (Ok (), st)"
| "write_migrated B (entry # entries) st =
     (let key = entry_key (be_id entry) in
      case map_err (book_storage_error B ''ADDRESS_BOOK_MIGRATION_ENTRY_READ_FAILED'')
             (st_has (bk_storage B) st ADDRESS_BOOK_V2_TREE key) of
        Inl e \<Rightarrow> (Err e, st)
      | Inr True \<Rightarrow>
          (case and_then
                  (map_err (book_storage_error B ''ADDRESS_BOOK_MIGRATION_ENTRY_READ_FAILED'')
                     (st_get (bk_storage B) st ADDRESS_BOOK_V2_TREE key))
                  (decode_entry B (be_id entry)) of
             Inl e \<Rightarrow> (Err e, st)
           | Inr existing \<Rightarrow>
               if existing \<noteq> entry
               then (Err (address_book_error Conflict ''ADDRESS_BOOK_MIGRATION_ENTRY_CONFLICT''
                 ''Existing address-book v2 entry conflicts with legacy data''), st)
               else write_migrated B entries st)
      | Inr False \<Rightarrow>
          (case st_set (bk_storage B) ADDRESS_BOOK_V2_TREE key (encode_entry entry) st of
             (Inl e, st) \<Rightarrow> (Err (book_storage_error B ''ADDRESS_BOOK_MIGRATION_ENTRY_WRITE_FAILED'' e), st)
           | (Inr _, st) \<Rightarrow> write_migrated B entries st))"

definition count_error :: native_xelis_error where
  "count_error = address_book_error Internal ''ADDRESS_BOOK_ENTRY_COUNT_OVERFLOW''
     ''Address-book entry count exceeds the supported range''"

definition count_u32 :: "nat \<Rightarrow> (u32, native_xelis_error) result" where
  "count_u32 n = (if n < 2 ^ 32 then Ok (word_of_nat n) else Err count_error)"

definition finish_migration ::
  "('a, 'k, 'h, 's) book_api \<Rightarrow> nat \<Rightarrow> 's \<Rightarrow> (migration_result, native_xelis_error) result \<times> 's" where
  "finish_migration B n st =
     (case count_u32 n of
        Inl e \<Rightarrow> (Err e, st)
      | Inr stored_total \<Rightarrow>
          (case st_set (bk_storage B) ADDRESS_BOOK_V2_TREE marker_key (encode_marker stored_total) st of
             (Inl e, st) \<Rightarrow> (Err (book_storage_error B ''ADDRESS_BOOK_MIGRATION_MARKER_WRITE_FAILED'' e), st)
           | (Inr _, st) \<Rightarrow> (Ok \<lparr> mr_migrated_entries = stored_total, mr_already_complete = False \<rparr>, st)))"

definition migrate_address_book_v2 ::
  "('a, 'k, 'h, 's) book_api \<Rightarrow> 's \<Rightarrow> (migration_result, native_xelis_error) result \<times> 's" where
  "migrate_address_book_v2 B st =
     (case map_err (book_storage_error B ''ADDRESS_BOOK_MIGRATION_MARKER_READ_FAILED'')
             (st_has (bk_storage B) st ADDRESS_BOOK_V2_TREE marker_key) of
        Inl e \<Rightarrow> (Err e, st)
      | Inr True \<Rightarrow>
          (map_ok (\<lambda>stored_total. \<lparr> mr_migrated_entries = stored_total, mr_already_complete = True \<rparr>)
             (and_then (map_err (book_storage_error B ''ADDRESS_BOOK_MIGRATION_MARKER_READ_FAILED'')
                  (st_get (bk_storage B) st ADDRESS_BOOK_V2_TREE marker_key))
                decode_marker), st)
      | Inr False \<Rightarrow>
          (case and_then (map_err (book_storage_error B ''ADDRESS_BOOK_MIGRATION_LEGACY_READ_FAILED'')
                  (st_query (bk_storage B) st LEGACY_TREE))
                (\<lambda>legacy. collect_legacy B legacy []) of
             Inl e \<Rightarrow> (Err e, st)
           | Inr migrated \<Rightarrow>
               (case write_migrated B (bk_order B (map snd migrated)) st of
                  (Inl e, st) \<Rightarrow> (Err e, st)
                | (Inr _, st) \<Rightarrow> finish_migration B (length migrated) st)))"

definition contains_text :: "string \<Rightarrow> string \<Rightarrow> bool" where
  "contains_text s p \<longleftrightarrow> list_ex (\<lambda>i. starts_with (drop i s) p) [0..<length s + 1]"

definition entry_matches :: "('a, 'k, 'h, 's) book_api \<Rightarrow> string \<Rightarrow> book_entry \<Rightarrow> bool" where
  "entry_matches B query e \<longleftrightarrow>
     contains_text (bk_lowercase B (be_display_name e)) query \<or>
     (case be_destination_label e of Some v \<Rightarrow> contains_text (bk_lowercase B v) query | None \<Rightarrow> False) \<or>
     contains_text (bk_lowercase B (sd_address (be_destination e))) query"

definition book_page_of ::
  "('a, 'k, 'h, 's) book_api \<Rightarrow> book_entry list \<Rightarrow> u32 \<Rightarrow> u32 option \<Rightarrow> (book_page, native_xelis_error) result" where
  "book_page_of B entries skip take_opt =
     and_then (count_u32 (length entries)) (\<lambda>stored_total.
       if unat skip > bk_usize_max B
       then Err (address_book_error InvalidInput ''ADDRESS_BOOK_PAGE_OFFSET_INVALID''
         ''Address-book page offset exceeds the supported range'')
       else
         (let page = (case take_opt of
                Some n \<Rightarrow> take (unat n) (drop (unat skip) entries)
              | None \<Rightarrow> drop (unat skip) entries);
              returned = (if length page < 2 ^ 32 then length page else unat u32_MAX) in
          Ok \<lparr> bp_entries = page, bp_total = stored_total,
               bp_has_more = (unat skip + returned \<le> bk_usize_max B \<and> unat skip + returned < unat stored_total) \<rparr>))"

definition list_address_book_entries_v2 ::
  "('a, 'k, 'h, 's) book_api \<Rightarrow> string option \<Rightarrow> u32 \<Rightarrow> u32 option \<Rightarrow> 's
   \<Rightarrow> (book_page, native_xelis_error) result \<times> 's" where
  "list_address_book_entries_v2 B query skip take_opt st =
     (case migrate_address_book_v2 B st of
        (Inl e, st) \<Rightarrow> (Err e, st)
      | (Inr _, st) \<Rightarrow>
          (if (case take_opt of Some n \<Rightarrow> n = 0 \<or> n > MAX_PAGE_SIZE | None \<Rightarrow> False)
           then Err (address_book_error InvalidInput ''ADDRESS_BOOK_PAGE_SIZE_INVALID''
             ''Address-book page size is outside the supported range'')
           else
             and_then (normalize_optional query MAX_QUERY_CHARS ''ADDRESS_BOOK_QUERY_INVALID''
               ''Address-book query exceeds the supported size'') (\<lambda>query.
             and_then (read_v2_entries B st) (\<lambda>entries.
               book_page_of B
                 (case query of
                    Some q \<Rightarrow> filter (entry_matches B (bk_lowercase B q)) entries
                  | None \<Rightarrow> entries) skip take_opt)), st))"

definition upsert_address_book_entry_v2 ::
  "('a, 'k, 'h, 's) book_api \<Rightarrow> string \<Rightarrow> string \<Rightarrow> string option \<Rightarrow> string option \<Rightarrow> 's
   \<Rightarrow> (book_entry, native_xelis_error) result \<times> 's" where
  "upsert_address_book_entry_v2 B address display_name destination_label note st =
     (case migrate_address_book_v2 B st of
        (Inl e, st) \<Rightarrow> (Err e, st)
      | (Inr _, st) \<Rightarrow>
          (case normalize_entry B address display_name destination_label note of
             Inl e \<Rightarrow> (Err e, st)
           | Inr entry \<Rightarrow>
               (case st_set (bk_storage B) ADDRESS_BOOK_V2_TREE (entry_key (be_id entry)) (encode_entry entry) st of
                  (Inl e, st) \<Rightarrow> (Err (book_storage_error B ''ADDRESS_BOOK_ENTRY_WRITE_FAILED'' e), st)
                | (Inr _, st) \<Rightarrow> (Ok entry, st))))"

definition not_found_error :: native_xelis_error where
  "not_found_error = address_book_error NotFound ''ADDRESS_BOOK_ENTRY_NOT_FOUND'' ''Address-book entry was not found''"

definition remove_address_book_entry_v2 ::
  "('a, 'k, 'h, 's) book_api \<Rightarrow> string \<Rightarrow> 's \<Rightarrow> (unit, native_xelis_error) result \<times> 's" where
  "remove_address_book_entry_v2 B i st =
     (case migrate_address_book_v2 B st of
        (Inl e, st) \<Rightarrow> (Err e, st)
      | (Inr _, st) \<Rightarrow>
          (case and_then (validate_entry_id i) (\<lambda>_.
                  map_err (book_storage_error B ''ADDRESS_BOOK_ENTRY_READ_FAILED'')
                    (st_has (bk_storage B) st ADDRESS_BOOK_V2_TREE (entry_key i))) of
             Inl e \<Rightarrow> (Err e, st)
           | Inr False \<Rightarrow> (Err not_found_error, st)
           | Inr True \<Rightarrow>
               (case st_delete (bk_storage B) ADDRESS_BOOK_V2_TREE (entry_key i) st of
                  (r, st) \<Rightarrow> (map_err (book_storage_error B ''ADDRESS_BOOK_ENTRY_DELETE_FAILED'') r, st))))"

definition find_address_book_entry_v2 ::
  "('a, 'k, 'h, 's) book_api \<Rightarrow> string \<Rightarrow> 's \<Rightarrow> (book_entry, native_xelis_error) result \<times> 's" where
  "find_address_book_entry_v2 B i st =
     (case migrate_address_book_v2 B st of
        (Inl e, st) \<Rightarrow> (Err e, st)
      | (Inr _, st) \<Rightarrow>
          (and_then (validate_entry_id i) (\<lambda>_.
           and_then (map_err (book_storage_error B ''ADDRESS_BOOK_ENTRY_READ_FAILED'')
               (st_has (bk_storage B) st ADDRESS_BOOK_V2_TREE (entry_key i))) (\<lambda>present.
             if \<not> present then Err not_found_error
             else and_then (map_err (book_storage_error B ''ADDRESS_BOOK_ENTRY_READ_FAILED'')
                 (st_get (bk_storage B) st ADDRESS_BOOK_V2_TREE (entry_key i)))
               (decode_entry B i))), st))"

definition match_address_book_address_v2 ::
  "('a, 'k, 'h, 's) book_api \<Rightarrow> string \<Rightarrow> 's \<Rightarrow> (book_match, native_xelis_error) result \<times> 's" where
  "match_address_book_address_v2 B address st =
     (case migrate_address_book_v2 B st of
        (Inl e, st) \<Rightarrow> (Err e, st)
      | (Inr _, st) \<Rightarrow>
          (and_then (canonical_destination (bk_address B) address (bk_mainnet B)) (\<lambda>destination.
           and_then (read_v2_entries B st) (\<lambda>entries. Ok (match_destination entries destination))), st))"

definition match_address_book_destination_v2 ::
  "('a, 'k, 'h, 's) book_api \<Rightarrow> string \<Rightarrow> native_data_element option \<Rightarrow> 's
   \<Rightarrow> (book_match, native_xelis_error) result \<times> 's" where
  "match_address_book_destination_v2 B base_text payload st =
     (case migrate_address_book_v2 B st of
        (Inl e, st) \<Rightarrow> (Err e, st)
      | (Inr _, st) \<Rightarrow>
          (and_then (canonical_destination_from_parts (bk_hashes B) (bk_address B) base_text payload (bk_mainnet B))
             (\<lambda>destination.
               and_then (read_v2_entries B st) (\<lambda>entries. Ok (match_destination entries destination))), st))"

end
