(* ===== verification/Address_Book_Laws.thy ===== *)
theory Address_Book_Laws
  imports Address_Book "HOL-Library.Multiset"
begin

text \<open>
  What the address book guarantees: a stored entry is found again, every operation keeps the tree
  readable, the migration carries every legacy entry over, and a match says what it promises.
\<close>

section \<open>Laws of the parameters\<close>

text \<open>
  The storage is a map for every tree.  Its reads succeed and show the map; a write that succeeds
  changes the one key and a write that fails changes nothing.  The canonical text of an address parses
  back to it, carries no white space around it and is no longer than a text it was parsed from.  A
  hash is shown by 64 lower-case hexadecimal digits.  A hash map is iterated over its own entries.
\<close>

type_synonym ('s, 'h) storage_view = "'s \<Rightarrow> string \<Rightarrow> 'h data_value \<Rightarrow> 'h data_element option"

definition storage_laws :: "('s, 'h) storage_api \<Rightarrow> ('s, 'h) storage_view \<Rightarrow> bool" where
  "storage_laws S tree \<longleftrightarrow>
     (\<forall>s t k. st_has S s t k = Ok (tree s t k \<noteq> None)) \<and>
     (\<forall>s t k v. tree s t k = Some v \<longrightarrow> st_get S s t k = Ok v) \<and>
     (\<forall>s t. \<exists>kvs. st_query S s t = Ok kvs \<and> distinct (map fst kvs) \<and> map_of kvs = tree s t) \<and>
     (\<forall>s t k v r s'. st_set S t k v s = (r, s') \<longrightarrow>
        tree s' = (if is_ok r then (tree s)(t := (tree s t)(k \<mapsto> v)) else tree s)) \<and>
     (\<forall>s t k r s'. st_delete S t k s = (r, s') \<longrightarrow>
        tree s' = (if is_ok r then (tree s)(t := (tree s t)(k := None)) else tree s))"

definition text_laws :: "('a, 'k, 'h, 's) book_api \<Rightarrow> bool" where
  "text_laws B \<longleftrightarrow>
     (\<forall>s a. address_from_string (bk_address B) s = Ok a \<longrightarrow>
        address_from_string (bk_address B) (address_to_string (bk_address B) a) = Ok a \<and>
        trim (address_to_string (bk_address B) a) = address_to_string (bk_address B) a \<and>
        address_to_string (bk_address B) a \<noteq> [] \<and> length (address_to_string (bk_address B) a) \<le> length s) \<and>
     (\<forall>h. length (to_hex (bk_hashes B) h) = 64 \<and> list_all is_lower_hex (to_hex (bk_hashes B) h)) \<and>
     (\<forall>es. mset (bk_order B es) = mset es)"

lemma bk_order_set: "text_laws B \<Longrightarrow> set (bk_order B es) = set es"
  unfolding text_laws_def by (metis mset_eq_setD)

section \<open>Entries\<close>

lemma string_field_required: "string_field fs name True \<noteq> Ok None"
  by (auto simp: string_field_def split: option.split data_element.split data_value.split)

text \<open>An entry that is what its own parts normalize to.\<close>

definition stable_entry :: "('a, 'k, 'h, 's) book_api \<Rightarrow> book_entry \<Rightarrow> bool" where
  "stable_entry B e \<longleftrightarrow>
     normalize_entry B (sd_address (be_destination e)) (be_display_name e) (be_destination_label e) (be_note e) = Ok e"

lemma canonical_destination_stable:
  assumes "text_laws B" "canonical_destination (bk_address B) s m = Ok d"
  shows "canonical_destination (bk_address B) (cd_address d) m = Ok d"
proof -
  let ?A = "bk_address B"
  obtain a where a: "address_from_string ?A (trim s) = Ok a" "address_is_mainnet ?A a = m"
    "length (trim s) \<le> MAX_ADDRESS_BYTES"
    "d = \<lparr> cd_address = address_to_string ?A a, cd_base_address = address_to_string ?A (snd (extract_data ?A a)),
       cd_integrated_data = fst (extract_data ?A a),
       cd_integrated_data_kind = map_option data_kind (fst (extract_data ?A a)) \<rparr>"
    using assms(2)
    by (auto simp: canonical_destination_def Let_def result_simps not_less split: if_splits prod.splits)
  have t: "address_from_string ?A (address_to_string ?A a) = Ok a"
    "trim (address_to_string ?A a) = address_to_string ?A a" "address_to_string ?A a \<noteq> []"
    "length (address_to_string ?A a) \<le> length (trim s)"
    using assms(1) a(1) unfolding text_laws_def by blast+
  then show ?thesis
    using a by (auto simp: canonical_destination_def Let_def split: prod.split)
qed

lemma normalize_required_stable:
  "normalize_required s n k m = Ok t \<Longrightarrow> normalize_required t n k m = Ok t"
  by (auto simp: normalize_required_def Let_def split: if_splits)

lemma normalize_optional_stable:
  "normalize_optional s n k m = Ok t \<Longrightarrow> normalize_optional t n k m = Ok t"
  by (auto simp: normalize_optional_def Let_def split: if_splits option.splits)

lemma normalize_entry_Ok:
  "normalize_entry B address name label note = Ok e \<longleftrightarrow>
     (\<exists>d. canonical_destination (bk_address B) address (bk_mainnet B) = Ok d \<and>
        normalize_required name MAX_DISPLAY_NAME_CHARS ''ADDRESS_BOOK_DISPLAY_NAME_INVALID''
          ''Address-book display name is empty or exceeds the supported size'' = Ok (be_display_name e) \<and>
        normalize_optional label MAX_DESTINATION_LABEL_CHARS ''ADDRESS_BOOK_DESTINATION_LABEL_INVALID''
          ''Address-book destination label exceeds the supported size'' = Ok (be_destination_label e) \<and>
        normalize_optional note MAX_NOTE_CHARS ''ADDRESS_BOOK_NOTE_INVALID''
          ''Address-book note exceeds the supported size'' = Ok (be_note e) \<and>
        be_id e = entry_id B (cd_address d) \<and> be_destination e = destination_to_native d)"
  by (cases e) (auto simp: normalize_entry_def result_simps)

lemma normalize_entry_stable:
  assumes "text_laws B" "normalize_entry B address name label note = Ok e"
  shows "stable_entry B e"
  using assms canonical_destination_stable [OF assms(1)] normalize_required_stable normalize_optional_stable
  unfolding stable_entry_def normalize_entry_Ok by (fastforce simp: destination_to_native_def)

lemma decode_encode:
  assumes "stable_entry B e"
  shows "decode_entry B (be_id e) (encode_entry e) = Ok e"
  using assms
  by (auto simp: decode_entry_def encode_entry_def string_entry_def required_field_def string_field_def
      stable_entry_def split: option.splits)

lemma stable_entry_id:
  assumes "text_laws B" "stable_entry B e"
  shows "validate_entry_id (be_id e) = Ok ()"
  using assms by (auto simp: stable_entry_def normalize_entry_Ok entry_id_def validate_entry_id_def text_laws_def)

lemma stable_entry_key: "stable_entry B e \<Longrightarrow> be_id e = entry_id B (sd_address (be_destination e))"
  by (auto simp: stable_entry_def normalize_entry_Ok destination_to_native_def)

lemma decode_marker_encode: "decode_marker (encode_marker n) = Ok n"
  by (simp add: decode_marker_def encode_marker_def)

lemma entry_key_not_marker: "entry_key i \<noteq> marker_key"
  by (simp add: entry_key_def marker_key_def ENTRY_KEY_PREFIX_def MIGRATION_MARKER_KEY_def)

lemma entry_key_inject: "entry_key i = entry_key j \<longleftrightarrow> i = j"
  by (simp add: entry_key_def)

section \<open>The stored tree\<close>

text \<open>Every key of the tree is the marker with a count or the key of the entry stored under it.\<close>

definition book_wf :: "('a, 'k, 'h, 's) book_api \<Rightarrow> ('s, 'h) storage_view \<Rightarrow> 's \<Rightarrow> bool" where
  "book_wf B tree st \<longleftrightarrow>
     (\<forall>k v. tree st ADDRESS_BOOK_V2_TREE k = Some v \<longrightarrow>
        k = marker_key \<and> (\<exists>n. v = encode_marker n) \<or>
        (\<exists>e. k = entry_key (be_id e) \<and> v = encode_entry e \<and> stable_entry B e))"

definition migrated_book :: "('s, 'h) storage_view \<Rightarrow> 's \<Rightarrow> u32 \<Rightarrow> bool" where
  "migrated_book tree st n \<longleftrightarrow> tree st ADDRESS_BOOK_V2_TREE marker_key = Some (encode_marker n)"

definition same_elsewhere :: "('s, 'h) storage_view \<Rightarrow> 's \<Rightarrow> 's \<Rightarrow> bool" where
  "same_elsewhere tree s s' \<longleftrightarrow> (\<forall>t. t \<noteq> ADDRESS_BOOK_V2_TREE \<longrightarrow> tree s' t = tree s t)"

definition book_holds :: "('s, 'h) storage_view \<Rightarrow> 's \<Rightarrow> book_entry \<Rightarrow> bool" where
  "book_holds tree st e \<longleftrightarrow> tree st ADDRESS_BOOK_V2_TREE (entry_key (be_id e)) = Some (encode_entry e)"

lemma storage_reads:
  assumes "storage_laws S tree"
  shows "st_has S s t k = Ok (tree s t k \<noteq> None)" "tree s t k = Some v \<Longrightarrow> st_get S s t k = Ok v"
    "\<exists>kvs. st_query S s t = Ok kvs \<and> distinct (map fst kvs) \<and> map_of kvs = tree s t"
  using assms unfolding storage_laws_def by blast+

lemma storage_set:
  assumes "storage_laws S tree" "st_set S t k v s = (r, s')"
  shows "tree s' = (if is_ok r then (tree s)(t := (tree s t)(k \<mapsto> v)) else tree s)"
  using assms unfolding storage_laws_def by blast

lemma storage_delete:
  assumes "storage_laws S tree" "st_delete S t k s = (r, s')"
  shows "tree s' = (if is_ok r then (tree s)(t := (tree s t)(k := None)) else tree s)"
  using assms unfolding storage_laws_def by blast

lemma same_elsewhere_writes:
  assumes "storage_laws S tree"
  shows "st_set S ADDRESS_BOOK_V2_TREE k v s = (r, s') \<Longrightarrow> same_elsewhere tree s s'"
    and "st_delete S ADDRESS_BOOK_V2_TREE k s = (r, s') \<Longrightarrow> same_elsewhere tree s s'"
  by (auto simp: same_elsewhere_def dest: storage_set [OF assms] storage_delete [OF assms])

lemma same_elsewhere_trans:
  "same_elsewhere tree s s' \<Longrightarrow> same_elsewhere tree s' s'' \<Longrightarrow> same_elsewhere tree s s''"
  by (simp add: same_elsewhere_def)

lemma book_wf_set_entry:
  assumes "storage_laws S tree" "st_set S ADDRESS_BOOK_V2_TREE (entry_key (be_id e)) (encode_entry e) s = (r, s')"
    and "stable_entry B e"
  shows "book_wf B tree s \<Longrightarrow> book_wf B tree s'"
    and "is_ok r \<Longrightarrow> book_holds tree s' e"
    and "migrated_book tree s n \<Longrightarrow> migrated_book tree s' n"
    and "be_id e \<noteq> be_id e' \<Longrightarrow> book_holds tree s e' \<Longrightarrow> book_holds tree s' e'"
  using storage_set [OF assms(1,2)] assms(3) entry_key_not_marker entry_key_not_marker [symmetric]
  by (auto simp: book_wf_def book_holds_def migrated_book_def entry_key_inject split: if_splits)

lemma book_wf_set_marker:
  assumes "storage_laws S tree" "st_set S ADDRESS_BOOK_V2_TREE marker_key (encode_marker n) s = (r, s')"
  shows "book_wf B tree s \<Longrightarrow> book_wf B tree s'"
    and "is_ok r \<Longrightarrow> migrated_book tree s' n"
    and "book_holds tree s e \<Longrightarrow> book_holds tree s' e"
  using storage_set [OF assms] entry_key_not_marker
  by (auto simp: book_wf_def book_holds_def migrated_book_def split: if_splits)

lemma book_wf_delete:
  assumes "storage_laws S tree" "st_delete S ADDRESS_BOOK_V2_TREE (entry_key i) s = (r, s')"
  shows "book_wf B tree s \<Longrightarrow> book_wf B tree s'"
    and "migrated_book tree s n \<Longrightarrow> migrated_book tree s' n"
    and "is_ok r \<Longrightarrow> tree s' ADDRESS_BOOK_V2_TREE (entry_key i) = None"
  using storage_delete [OF assms] entry_key_not_marker entry_key_not_marker [symmetric]
  by (auto simp: book_wf_def migrated_book_def split: if_splits)

section \<open>Migration\<close>

lemma legacy_entry_stable:
  assumes "text_laws B" "legacy_entry B kv = Ok e"
  shows "stable_entry B e"
  using assms normalize_entry_stable [OF assms(1)]
  by (auto simp: legacy_entry_def result_simps split: prod.splits data_value.splits data_element.splits if_splits)

text \<open>What the collected map holds: the entries read so far, each under its identifier.\<close>

definition collected :: "('a, 'k, 'h, 's) book_api \<Rightarrow> (string \<times> book_entry) list \<Rightarrow> bool" where
  "collected B m \<longleftrightarrow> distinct (map fst m) \<and> (\<forall>i e. (i, e) \<in> set m \<longrightarrow> i = be_id e \<and> stable_entry B e)"

lemma collected_Nil: "collected B []"
  by (simp add: collected_def)

lemma collect_legacy_Ok:
  assumes "text_laws B" "collect_legacy B kvs m = Ok m'" "collected B m"
  shows "collected B m' \<and> (\<forall>i e. map_of m i = Some e \<longrightarrow> map_of m' i = Some e) \<and>
    (\<forall>kv\<in>set kvs. \<exists>e. legacy_entry B kv = Ok e \<and> map_of m' (be_id e) = Some e)"
  using assms(2,3)
proof (induction kvs arbitrary: m)
  case (Cons kv kvs)
  obtain e where e: "legacy_entry B kv = Ok e"
    using Cons.prems(1) by (auto simp: result_simps)
  let ?m = "AList.update (be_id e) e m"
  have agree: "map_of m (be_id e) = None \<or> map_of m (be_id e) = Some e"
    and rest: "collect_legacy B kvs ?m = Ok m'"
    using Cons.prems(1) e by (auto split: option.splits if_splits)
  have "set ?m \<subseteq> insert (be_id e, e) (set m)"
    by (induction m) auto
  then have coll: "collected B ?m"
    using Cons.prems(2) legacy_entry_stable [OF assms(1) e]
    by (auto simp: collected_def distinct_update)
  have upd: "map_of ?m = (map_of m)(be_id e \<mapsto> e)" by (simp add: update_conv')
  have "map_of ?m i = Some e'" if "map_of m i = Some e'" for i e'
    using that agree by (auto simp: upd)
  with Cons.IH [OF rest coll] show ?case
    using e by (simp add: upd)
qed simp

lemma wf_lookup:
  assumes wf: "book_wf B tree s" and found: "tree s ADDRESS_BOOK_V2_TREE (entry_key i) = Some v"
  obtains e where "i = be_id e" "v = encode_entry e" "stable_entry B e"
proof -
  have "\<exists>e. entry_key i = (entry_key (be_id e) :: 'c data_value) \<and> v = encode_entry e \<and> stable_entry B e"
    using wf found entry_key_not_marker [of i] unfolding book_wf_def by blast
  then show thesis using that by (auto simp: entry_key_inject)
qed

lemma wf_marker:
  assumes "book_wf B tree s" "tree s ADDRESS_BOOK_V2_TREE marker_key = Some v"
  obtains n where "v = encode_marker n"
  using assms entry_key_not_marker [symmetric] unfolding book_wf_def by blast

lemma write_migrated_present:
  assumes "storage_laws (bk_storage B) tree" "book_wf B tree s" "stable_entry B e"
    and "tree s ADDRESS_BOOK_V2_TREE (entry_key (be_id e)) \<noteq> None"
  shows "write_migrated B (e # es) s =
    (if book_holds tree s e then write_migrated B es s
     else (Err (address_book_error Conflict ''ADDRESS_BOOK_MIGRATION_ENTRY_CONFLICT''
       ''Existing address-book v2 entry conflicts with legacy data''), s))"
proof -
  obtain v where v: "tree s ADDRESS_BOOK_V2_TREE (entry_key (be_id e)) = Some v" using assms(4) by blast
  then obtain e' where e': "be_id e = be_id e'" "v = encode_entry e'" "stable_entry B e'"
    by (rule wf_lookup [OF assms(2)])
  then have d: "decode_entry B (be_id e) v = Ok e'" using decode_encode [OF e'(3)] by simp
  moreover have "e' = e \<longleftrightarrow> book_holds tree s e"
  proof
    assume "book_holds tree s e"
    then have "v = encode_entry e" using v by (simp add: book_holds_def)
    then show "e' = e" using d decode_encode [OF assms(3)] by simp
  qed (use v e'(2) in \<open>simp add: book_holds_def\<close>)
  moreover have "st_has (bk_storage B) s ADDRESS_BOOK_V2_TREE (entry_key (be_id e)) = Ok True"
    "st_get (bk_storage B) s ADDRESS_BOOK_V2_TREE (entry_key (be_id e)) = Ok v"
    using storage_reads(1,2) [OF assms(1)] v by simp_all
  ultimately show ?thesis by (simp add: Let_def)
qed

lemma write_migrated_effect:
  assumes "storage_laws (bk_storage B) tree"
  shows "book_wf B tree s \<Longrightarrow> \<forall>e\<in>set es. stable_entry B e \<Longrightarrow> write_migrated B es s = (r, s') \<Longrightarrow>
    book_wf B tree s' \<and> same_elsewhere tree s s' \<and> (\<forall>e. book_holds tree s e \<longrightarrow> book_holds tree s' e) \<and>
    (is_ok r \<longrightarrow> (\<forall>e\<in>set es. book_holds tree s' e))"
proof (induction es arbitrary: s)
  case (Cons e es)
  have e: "stable_entry B e" and es: "\<forall>e\<in>set es. stable_entry B e" using Cons.prems(2) by auto
  show ?case
  proof (cases "tree s ADDRESS_BOOK_V2_TREE (entry_key (be_id e)) = None")
    case True
    obtain q s1 where set: "st_set (bk_storage B) ADDRESS_BOOK_V2_TREE (entry_key (be_id e)) (encode_entry e) s = (q, s1)"
      by fastforce
    note wr = book_wf_set_entry [OF assms set e]
    have keep: "book_holds tree s1 e'" if "book_holds tree s e'" for e'
      using wr(4) [OF _ that] that True by (cases "be_id e = be_id e'") (auto simp: book_holds_def)
    have run: "write_migrated B (e # es) s =
      (case q of Inl x \<Rightarrow> (Err (book_storage_error B ''ADDRESS_BOOK_MIGRATION_ENTRY_WRITE_FAILED'' x), s1)
       | Inr _ \<Rightarrow> write_migrated B es s1)"
      using storage_reads(1) [OF assms] True set by (simp add: Let_def split: sum.split)
    show ?thesis
    proof (cases q)
      case (Inl x)
      then show ?thesis using run Cons.prems(3) wr(1) [OF Cons.prems(1)] keep same_elsewhere_writes(1) [OF assms set] by auto
    next
      case (Inr u)
      then show ?thesis
        using Cons.IH [OF wr(1) [OF Cons.prems(1)] es] run Cons.prems(3) keep wr(2)
          same_elsewhere_trans [OF same_elsewhere_writes(1) [OF assms set]] by auto
    qed
  next
    case False
    then show ?thesis
      using Cons.IH [OF Cons.prems(1) es] Cons.prems(1,3) write_migrated_present [OF assms Cons.prems(1) e]
      by (auto simp: same_elsewhere_def split: if_splits)
  qed
qed (simp add: same_elsewhere_def)

lemma migrate_marked:
  assumes "storage_laws (bk_storage B) tree" "migrated_book tree s n"
  shows "migrate_address_book_v2 B s = (Ok \<lparr> mr_migrated_entries = n, mr_already_complete = True \<rparr>, s)"
proof -
  have "st_has (bk_storage B) s ADDRESS_BOOK_V2_TREE marker_key = Ok True"
    "st_get (bk_storage B) s ADDRESS_BOOK_V2_TREE marker_key = Ok (encode_marker n)"
    using assms storage_reads(1,2) [OF assms(1)] by (simp_all add: migrated_book_def)
  then show ?thesis by (simp add: migrate_address_book_v2_def decode_marker_encode)
qed

lemma finish_migration_effect:
  assumes "storage_laws (bk_storage B) tree" "finish_migration B k s = (r, s')"
  shows "same_elsewhere tree s s'" and "book_wf B tree s \<Longrightarrow> book_wf B tree s'"
    and "book_holds tree s e \<Longrightarrow> book_holds tree s' e"
    and "r = Ok m \<Longrightarrow> migrated_book tree s' (mr_migrated_entries m) \<and> mr_already_complete m = False \<and>
      unat (mr_migrated_entries m) = k"
proof -
  obtain q s1 where w: "st_set (bk_storage B) ADDRESS_BOOK_V2_TREE marker_key
    (encode_marker (word_of_nat k)) s = (q, s1)" by fastforce
  have run: "(r, s') = (if k < 2 ^ 32 then
      (case q of Inl e \<Rightarrow> (Err (book_storage_error B ''ADDRESS_BOOK_MIGRATION_MARKER_WRITE_FAILED'' e), s1)
       | Inr _ \<Rightarrow> (Ok \<lparr> mr_migrated_entries = word_of_nat k, mr_already_complete = False \<rparr>, s1))
      else (Err count_error, s))"
    using assms(2) w by (cases "k < 2 ^ 32") (auto simp: finish_migration_def count_u32_def split: sum.splits)
  note m = book_wf_set_marker [OF assms(1) w] same_elsewhere_writes(1) [OF assms(1) w]
  show "same_elsewhere tree s s'" "book_wf B tree s \<Longrightarrow> book_wf B tree s'"
    "book_holds tree s e \<Longrightarrow> book_holds tree s' e"
    using run m by (auto simp: same_elsewhere_def split: if_splits sum.splits)
  show "r = Ok m \<Longrightarrow> migrated_book tree s' (mr_migrated_entries m) \<and> mr_already_complete m = False \<and>
    unat (mr_migrated_entries m) = k"
    using run m(2) by (auto simp: unat_of_nat take_bit_nat_eq_self split: if_splits sum.splits)
qed

text \<open>The first run: every legacy entry is stored, and only then the marker.\<close>

lemma migrate_fresh:
  assumes laws: "storage_laws (bk_storage B) tree" "text_laws B" and wf: "book_wf B tree s"
    and fresh: "tree s ADDRESS_BOOK_V2_TREE marker_key = None"
    and run: "migrate_address_book_v2 B s = (r, s')"
  shows "book_wf B tree s' \<and> same_elsewhere tree s s' \<and> (\<forall>e. book_holds tree s e \<longrightarrow> book_holds tree s' e) \<and>
    (\<forall>m. r = Ok m \<longrightarrow> migrated_book tree s' (mr_migrated_entries m) \<and> \<not> mr_already_complete m \<and>
      (\<forall>k v. tree s LEGACY_TREE k = Some v \<longrightarrow> (\<exists>e. legacy_entry B (k, v) = Ok e \<and> book_holds tree s' e)))"
proof -
  have has: "st_has (bk_storage B) s ADDRESS_BOOK_V2_TREE marker_key = Ok False"
    using storage_reads(1) [OF laws(1)] fresh by simp
  obtain kvs where kvs: "st_query (bk_storage B) s LEGACY_TREE = Ok kvs" "map_of kvs = tree s LEGACY_TREE"
    using storage_reads(3) [OF laws(1)] by blast
  show ?thesis
  proof (cases "collect_legacy B kvs []")
    case (Inl x)
    then show ?thesis
      using run wf has kvs by (auto simp: migrate_address_book_v2_def same_elsewhere_def)
  next
    case (Inr found)
    let ?es = "bk_order B (map snd found)"
    have coll: "collected B found"
      "\<forall>kv\<in>set kvs. \<exists>e. legacy_entry B kv = Ok e \<and> map_of found (be_id e) = Some e"
      using collect_legacy_Ok [OF laws(2) Inr] by (blast intro: collected_Nil)+
    have set_es: "set ?es = snd ` set found"
      using bk_order_set [OF laws(2)] by simp
    obtain q s1 where w: "write_migrated B ?es s = (q, s1)" by fastforce
    have "\<forall>e\<in>set ?es. stable_entry B e" using coll(1) set_es by (auto simp: collected_def)
    note wr = write_migrated_effect [OF laws(1) wf this w]
    show ?thesis
    proof (cases q)
      case (Inl x)
      then show ?thesis
        using run has kvs Inr w wr by (auto simp: migrate_address_book_v2_def)
    next
      case (Inr u)
      then have fin: "finish_migration B (length found) s1 = (r, s')"
        using run has kvs \<open>collect_legacy B kvs [] = Inr found\<close> w by (simp add: migrate_address_book_v2_def)
      note f = finish_migration_effect [OF laws(1) fin]
      have "\<exists>e. legacy_entry B (k, v) = Ok e \<and> book_holds tree s' e" if "tree s LEGACY_TREE k = Some v" for k v
      proof -
        have "(k, v) \<in> set kvs" using that kvs(2) map_of_SomeD by metis
        then obtain e where e: "legacy_entry B (k, v) = Ok e" "map_of found (be_id e) = Some e" using coll(2) by blast
        then have "e \<in> set ?es" using set_es map_of_SomeD by force
        then show ?thesis using wr Inr f(3) e(1) by auto
      qed
      then show ?thesis
        using wr f(2-4) same_elsewhere_trans [OF _ f(1)] by simp
    qed
  qed
qed

lemma migrate_effect:
  assumes laws: "storage_laws (bk_storage B) tree" "text_laws B" and wf: "book_wf B tree s"
    and run: "migrate_address_book_v2 B s = (r, s')"
  shows "book_wf B tree s'" "same_elsewhere tree s s'" "book_holds tree s e \<Longrightarrow> book_holds tree s' e"
    "r = Ok m \<Longrightarrow> migrated_book tree s' (mr_migrated_entries m)"
proof -
  have "book_wf B tree s' \<and> same_elsewhere tree s s' \<and> (book_holds tree s e \<longrightarrow> book_holds tree s' e) \<and>
    (r = Ok m \<longrightarrow> migrated_book tree s' (mr_migrated_entries m))"
  proof (cases "tree s ADDRESS_BOOK_V2_TREE marker_key")
    case None
    then show ?thesis using migrate_fresh [OF laws wf _ run] by blast
  next
    case (Some v)
    then obtain n where n: "migrated_book tree s n"
      using wf_marker [OF wf] by (metis migrated_book_def)
    then show ?thesis
      using run wf migrate_marked [OF laws(1) n] by (auto simp: same_elsewhere_def)
  qed
  then show "book_wf B tree s'" "same_elsewhere tree s s'" "book_holds tree s e \<Longrightarrow> book_holds tree s' e"
    "r = Ok m \<Longrightarrow> migrated_book tree s' (mr_migrated_entries m)" by blast+
qed

section \<open>Operations on a migrated book\<close>

lemma upsert_marked:
  assumes "storage_laws (bk_storage B) tree" "migrated_book tree s n"
  shows "upsert_address_book_entry_v2 B address name label note s =
    (case normalize_entry B address name label note of
       Inl e \<Rightarrow> (Err e, s)
     | Inr entry \<Rightarrow>
         (case st_set (bk_storage B) ADDRESS_BOOK_V2_TREE (entry_key (be_id entry)) (encode_entry entry) s of
            (Inl e, st) \<Rightarrow> (Err (book_storage_error B ''ADDRESS_BOOK_ENTRY_WRITE_FAILED'' e), st)
          | (Inr _, st) \<Rightarrow> (Ok entry, st)))"
  by (simp add: upsert_address_book_entry_v2_def migrate_marked [OF assms])

lemma find_marked:
  assumes "storage_laws (bk_storage B) tree" "migrated_book tree s n" "validate_entry_id i = Ok ()"
  shows "find_address_book_entry_v2 B i s =
    (case tree s ADDRESS_BOOK_V2_TREE (entry_key i) of None \<Rightarrow> Err not_found_error | Some v \<Rightarrow> decode_entry B i v, s)"
proof (cases "tree s ADDRESS_BOOK_V2_TREE (entry_key i)")
  case None
  then have "st_has (bk_storage B) s ADDRESS_BOOK_V2_TREE (entry_key i) = Ok False"
    using storage_reads(1) [OF assms(1)] by simp
  then show ?thesis using None assms(3) by (simp add: find_address_book_entry_v2_def migrate_marked [OF assms(1,2)])
next
  case (Some v)
  then have "st_has (bk_storage B) s ADDRESS_BOOK_V2_TREE (entry_key i) = Ok True"
    "st_get (bk_storage B) s ADDRESS_BOOK_V2_TREE (entry_key i) = Ok v"
    using storage_reads(1,2) [OF assms(1)] by simp_all
  then show ?thesis using Some assms(3) by (simp add: find_address_book_entry_v2_def migrate_marked [OF assms(1,2)])
qed

text \<open>What an upsert that reaches its write leaves behind.\<close>

lemma upsert_effect:
  assumes laws: "storage_laws (bk_storage B) tree" "text_laws B" and wf: "book_wf B tree s"
    and run: "upsert_address_book_entry_v2 B address name label note s = (r, s')"
  shows "book_wf B tree s'" "same_elsewhere tree s s'"
    "r = Ok e \<Longrightarrow> stable_entry B e \<and> book_holds tree s' e \<and> (\<exists>n. migrated_book tree s' n)"
    "r = Ok e \<Longrightarrow> be_id e' \<noteq> be_id e \<Longrightarrow> book_holds tree s e' \<Longrightarrow> book_holds tree s' e'"
proof -
  obtain q s1 where m: "migrate_address_book_v2 B s = (q, s1)" by fastforce
  note mig = migrate_effect [OF laws wf m]
  have "book_wf B tree s' \<and> same_elsewhere tree s s' \<and>
    (r = Ok e \<longrightarrow> stable_entry B e \<and> book_holds tree s' e \<and> (\<exists>n. migrated_book tree s' n) \<and>
      (be_id e' \<noteq> be_id e \<longrightarrow> book_holds tree s e' \<longrightarrow> book_holds tree s' e'))"
  proof (cases "\<exists>x. q = Ok x \<and> is_ok (normalize_entry B address name label note)")
    case False
    then show ?thesis
      using run m mig(1,2) by (auto simp: upsert_address_book_entry_v2_def split: sum.splits)
  next
    case True
    then obtain x d where q: "q = Ok x" and d: "normalize_entry B address name label note = Ok d"
      by (cases "normalize_entry B address name label note") auto
    obtain p s2 where w: "st_set (bk_storage B) ADDRESS_BOOK_V2_TREE (entry_key (be_id d)) (encode_entry d) s1 = (p, s2)"
      by fastforce
    have st: "stable_entry B d" by (rule normalize_entry_stable [OF laws(2) d])
    have res: "s' = s2" "r = Ok e \<Longrightarrow> e = d \<and> is_ok p"
      using run m q d w by (auto simp: upsert_address_book_entry_v2_def split: sum.splits)
    note wr = book_wf_set_entry [OF laws(1) w st]
    have "migrated_book tree s2 (mr_migrated_entries x)" by (rule wr(3) [OF mig(4) [OF q]])
    then show ?thesis
      using res st wr(1) [OF mig(1)] wr(2) wr(4) [of e'] mig(3) [of e']
        same_elsewhere_trans [OF mig(2) same_elsewhere_writes(1) [OF laws(1) w]] by auto
  qed
  then show "book_wf B tree s'" "same_elsewhere tree s s'"
    "r = Ok e \<Longrightarrow> stable_entry B e \<and> book_holds tree s' e \<and> (\<exists>n. migrated_book tree s' n)"
    "r = Ok e \<Longrightarrow> be_id e' \<noteq> be_id e \<Longrightarrow> book_holds tree s e' \<Longrightarrow> book_holds tree s' e'" by blast+
qed

lemma remove_effect:
  assumes laws: "storage_laws (bk_storage B) tree" "text_laws B" and wf: "book_wf B tree s"
    and run: "remove_address_book_entry_v2 B i s = (r, s')"
  shows "book_wf B tree s'" "same_elsewhere tree s s'"
    "r = Ok u \<Longrightarrow> tree s' ADDRESS_BOOK_V2_TREE (entry_key i) = None \<and> validate_entry_id i = Ok () \<and>
      (\<exists>n. migrated_book tree s' n)"
proof -
  obtain q s1 where m: "migrate_address_book_v2 B s = (q, s1)" by fastforce
  obtain p s2 where w: "st_delete (bk_storage B) ADDRESS_BOOK_V2_TREE (entry_key i) s1 = (p, s2)" by fastforce
  note mig = migrate_effect [OF laws wf m] and del = book_wf_delete [OF laws(1) w]
  have case_s': "s' = s1 \<and> \<not> is_ok r \<or>
    s' = s2 \<and> (is_ok r \<longrightarrow> is_ok p \<and> validate_entry_id i = Ok () \<and> is_ok q)"
  proof (cases "\<exists>x. q = Ok x \<and> validate_entry_id i = Ok () \<and>
      st_has (bk_storage B) s1 ADDRESS_BOOK_V2_TREE (entry_key i) = Ok True")
    case True
    then show ?thesis
      using run m w by (cases p) (auto simp: remove_address_book_entry_v2_def)
  next
    case False
    then have "s' = s1 \<and> \<not> is_ok r"
      using run [symmetric] m
      by (cases q; cases "validate_entry_id i";
          cases "st_has (bk_storage B) s1 ADDRESS_BOOK_V2_TREE (entry_key i)")
        (simp_all add: remove_address_book_entry_v2_def split: bool.splits)
    then show ?thesis ..
  qed
  then show "book_wf B tree s'" "same_elsewhere tree s s'"
    using mig(1,2) del(1) same_elsewhere_trans [OF mig(2) same_elsewhere_writes(2) [OF laws(1) w]] by auto
  assume "r = Ok u"
  then have "s' = s2" "is_ok p" "validate_entry_id i = Ok ()" "is_ok q" using case_s' by auto
  moreover obtain x where "q = Ok x" using \<open>is_ok q\<close> by (cases q) auto
  ultimately show "tree s' ADDRESS_BOOK_V2_TREE (entry_key i) = None \<and> validate_entry_id i = Ok () \<and>
    (\<exists>n. migrated_book tree s' n)" using del(2) [OF mig(4) [OF \<open>q = Ok x\<close>]] del(3) by auto
qed

text \<open>The operations that only read keep what the migration they begin with leaves.\<close>

lemma reads_effect:
  assumes "migrate_address_book_v2 B s = (q, s1)"
  shows "snd (list_address_book_entries_v2 B query skip n s) = s1"
    "snd (find_address_book_entry_v2 B i s) = s1"
    "snd (match_address_book_address_v2 B address s) = s1"
    "snd (match_address_book_destination_v2 B address payload s) = s1"
  by (simp_all add: assms list_address_book_entries_v2_def find_address_book_entry_v2_def
      match_address_book_address_v2_def match_address_book_destination_v2_def split: sum.split)

section \<open>Reachable books\<close>

inductive book_step :: "('a, 'k, 'h, 's) book_api \<Rightarrow> 's \<Rightarrow> 's \<Rightarrow> bool" for B where
  migrated: "book_step B s (snd (migrate_address_book_v2 B s))"
| listed: "book_step B s (snd (list_address_book_entries_v2 B query skip n s))"
| upserted: "book_step B s (snd (upsert_address_book_entry_v2 B address name label note s))"
| removed: "book_step B s (snd (remove_address_book_entry_v2 B i s))"
| looked_up: "book_step B s (snd (find_address_book_entry_v2 B i s))"
| matched_address: "book_step B s (snd (match_address_book_address_v2 B address s))"
| matched_destination: "book_step B s (snd (match_address_book_destination_v2 B address payload s))"

lemma book_step_wf:
  assumes laws: "storage_laws (bk_storage B) tree" "text_laws B" and "book_step B s s'" "book_wf B tree s"
  shows "book_wf B tree s' \<and> same_elsewhere tree s s'"
proof -
  obtain q s1 where m: "migrate_address_book_v2 B s = (q, s1)" by fastforce
  note mig = migrate_effect(1,2) [OF laws assms(4) m]
  show ?thesis
    using assms(3)
  proof cases
    case (upserted address n l m)
    then show ?thesis using upsert_effect(1,2) [OF laws assms(4)] by (metis prod.collapse)
  next
    case (removed i)
    then show ?thesis using remove_effect(1,2) [OF laws assms(4)] by (metis prod.collapse)
  qed (use mig m reads_effect [OF m] in simp_all)
qed

lemma book_steps_wf:
  assumes "storage_laws (bk_storage B) tree" "text_laws B" and "(book_step B)\<^sup>*\<^sup>* s s'" "book_wf B tree s"
  shows "book_wf B tree s' \<and> same_elsewhere tree s s'"
  using assms(3)
proof (induction rule: rtranclp_induct)
  case base
  then show ?case using assms(4) by (simp add: same_elsewhere_def)
next
  case (step y z)
  then have "book_wf B tree y" "same_elsewhere tree s y" by simp_all
  then show ?case
    using book_step_wf [OF assms(1,2) step(2)] same_elsewhere_trans [of tree s y z] by simp
qed

section \<open>Reading the tree\<close>

text \<open>A readable tree lists exactly the entries stored in it.\<close>

lemma strip_entry_key: "strip_prefix (ENTRY_KEY_PREFIX @ i) ENTRY_KEY_PREFIX = Some i"
  by (simp add: strip_prefix_def starts_with_def)

lemma decode_entries_wf:
  assumes "text_laws B" "distinct (map fst kvs)"
    and "\<forall>(k, v)\<in>set kvs. k = marker_key \<or> (\<exists>e. k = entry_key (be_id e) \<and> v = encode_entry e \<and> stable_entry B e)"
  shows "\<exists>es. decode_entries B kvs = Ok es \<and> distinct (map be_id es) \<and>
    (\<forall>e. e \<in> set es \<longleftrightarrow> stable_entry B e \<and> (entry_key (be_id e), encode_entry e) \<in> set kvs)"
  using assms(2,3)
proof (induction kvs)
  case (Cons kv kvs)
  obtain k v where kv: "kv = (k, v)" by fastforce
  have "distinct (map fst kvs)" using Cons.prems(1) by simp
  moreover have "\<forall>(k, v)\<in>set kvs. k = marker_key \<or>
      (\<exists>e. k = entry_key (be_id e) \<and> v = encode_entry e \<and> stable_entry B e)"
    using Cons.prems(2) by simp
  ultimately obtain es where es: "decode_entries B kvs = Ok es" "distinct (map be_id es)"
    "\<And>e. e \<in> set es \<longleftrightarrow> stable_entry B e \<and> (entry_key (be_id e), encode_entry e) \<in> set kvs"
    using Cons.IH by blast
  from Cons.prems(2) kv consider (marker) "k = marker_key"
    | (entry) e where "k = entry_key (be_id e)" "v = encode_entry e" "stable_entry B e"
    by (simp only: list.set ball_simps prod.case) blast
  then show ?case
  proof cases
    case marker
    then have "decode_entries B (kv # kvs) = Ok es" using kv es(1) by (simp add: marker_key_def)
    moreover have "\<forall>e. e \<in> set es \<longleftrightarrow> stable_entry B e \<and> (entry_key (be_id e), encode_entry e) \<in> set (kv # kvs)"
      using marker kv by (simp add: es(3) entry_key_not_marker)
    ultimately show ?thesis using es(2) by blast
  next
    case (entry e)
    then have run: "decode_entries B (kv # kvs) = Ok (e # es)"
      using kv es(1) stable_entry_id [OF assms(1) entry(3)] decode_encode [OF entry(3)] strip_entry_key [of "be_id e"]
      by (simp add: entry_key_def ENTRY_KEY_PREFIX_def MIGRATION_MARKER_KEY_def)
    have same: "e' = e" if "stable_entry B e'" "encode_entry e' = v" "be_id e' = be_id e" for e'
    proof -
      have "decode_entry B (be_id e) v = Ok e'" using decode_encode [OF that(1)] unfolding that(2,3) .
      moreover have "decode_entry B (be_id e) v = Ok e" unfolding entry(2) by (rule decode_encode [OF entry(3)])
      ultimately show ?thesis by simp
    qed
    have "k \<notin> fst ` set kvs" using Cons.prems(1) kv by simp
    then have "be_id e \<notin> be_id ` set es"
      using es(3) entry(1) by (metis (no_types, lifting) fst_conv imageE image_eqI)
    moreover have "e' \<in> set (e # es) \<longleftrightarrow> stable_entry B e' \<and> (entry_key (be_id e'), encode_entry e') \<in> set (kv # kvs)" for e'
      using es(3) [of e'] entry same [of e'] kv by (auto simp: entry_key_inject)
    ultimately have "distinct (map be_id (e # es))" "\<forall>e'. e' \<in> set (e # es) \<longleftrightarrow>
      stable_entry B e' \<and> (entry_key (be_id e'), encode_entry e') \<in> set (kv # kvs)"
      using es(2) by simp_all
    then show ?thesis using run by blast
  qed
qed simp

lemma read_v2_entries_wf:
  assumes laws: "storage_laws (bk_storage B) tree" "text_laws B" and wf: "book_wf B tree s"
  shows "\<exists>es. read_v2_entries B s = Ok es \<and> distinct (map be_id es) \<and> sorted (map (entry_order B) es) \<and>
    (\<forall>e. e \<in> set es \<longleftrightarrow> stable_entry B e \<and> book_holds tree s e)"
proof -
  obtain kvs where kvs: "st_query (bk_storage B) s ADDRESS_BOOK_V2_TREE = Ok kvs" "distinct (map fst kvs)"
    "map_of kvs = tree s ADDRESS_BOOK_V2_TREE"
    using storage_reads(3) [OF laws(1)] by blast
  have mem: "(k, v) \<in> set kvs \<longleftrightarrow> tree s ADDRESS_BOOK_V2_TREE k = Some v" for k v
    using kvs(2,3) by (metis map_of_eq_Some_iff)
  then have "\<forall>(k, v)\<in>set kvs. k = marker_key \<or> (\<exists>e. k = entry_key (be_id e) \<and> v = encode_entry e \<and> stable_entry B e)"
    using wf unfolding book_wf_def by blast
  from decode_entries_wf [OF laws(2) kvs(2) this] obtain es where
    es: "decode_entries B kvs = Ok es" "distinct (map be_id es)"
      "\<forall>e. e \<in> set es \<longleftrightarrow> stable_entry B e \<and> (entry_key (be_id e), encode_entry e) \<in> set kvs" by blast
  have "read_v2_entries B s = Ok (sort_key (entry_order B) es)"
    using kvs(1) es(1) by (simp add: read_v2_entries_def)
  moreover have "distinct (map be_id (sort_key (entry_order B) es))"
    using es(2) by (metis distinct_map distinct_sort set_sort)
  ultimately show ?thesis
    using es(3) mem by (auto simp: book_holds_def)
qed

section \<open>The book as a map\<close>

text \<open>What the book stores, as a finite map from identifiers to entries.\<close>

definition book_map :: "('a, 'k, 'h, 's) book_api \<Rightarrow> ('s, 'h) storage_view \<Rightarrow> 's \<Rightarrow> string \<rightharpoonup> book_entry" where
  "book_map B tree s i =
     (case tree s ADDRESS_BOOK_V2_TREE (entry_key i) of
        None \<Rightarrow> None
      | Some v \<Rightarrow> (case decode_entry B i v of Inl _ \<Rightarrow> None | Inr e \<Rightarrow> Some e))"

lemma book_map_wf:
  assumes "book_wf B tree s"
  shows "tree s ADDRESS_BOOK_V2_TREE (entry_key i) = map_option encode_entry (book_map B tree s i)"
    and "book_map B tree s i = Some e \<Longrightarrow> be_id e = i \<and> stable_entry B e"
proof -
  have "tree s ADDRESS_BOOK_V2_TREE (entry_key i) = map_option encode_entry (book_map B tree s i) \<and>
    (book_map B tree s i = Some e \<longrightarrow> be_id e = i \<and> stable_entry B e)"
  proof (cases "tree s ADDRESS_BOOK_V2_TREE (entry_key i)")
    case (Some v)
    then obtain d where "i = be_id d" "v = encode_entry d" "stable_entry B d" by (rule wf_lookup [OF assms])
    then show ?thesis using Some decode_encode [of B d] by (auto simp: book_map_def)
  qed (simp add: book_map_def)
  then show "tree s ADDRESS_BOOK_V2_TREE (entry_key i) = map_option encode_entry (book_map B tree s i)"
    and "book_map B tree s i = Some e \<Longrightarrow> be_id e = i \<and> stable_entry B e" by simp_all
qed

lemma book_holds_map:
  assumes "book_wf B tree s" "stable_entry B e"
  shows "book_holds tree s e \<longleftrightarrow> book_map B tree s (be_id e) = Some e"
proof
  assume "book_holds tree s e"
  then show "book_map B tree s (be_id e) = Some e"
    using decode_encode [OF assms(2)] by (simp add: book_map_def book_holds_def)
next
  assume "book_map B tree s (be_id e) = Some e"
  then show "book_holds tree s e" using book_map_wf(1) [OF assms(1)] by (simp add: book_holds_def)
qed

lemma book_map_write:
  assumes "storage_laws S tree" "st_set S ADDRESS_BOOK_V2_TREE (entry_key (be_id e)) (encode_entry e) s = (r, s')"
    and "stable_entry B e"
  shows "book_map B tree s' = (if is_ok r then (book_map B tree s)(be_id e \<mapsto> e) else book_map B tree s)"
  using storage_set [OF assms(1,2)] decode_encode [OF assms(3)]
  by (auto simp: book_map_def entry_key_inject fun_eq_iff)

lemma book_map_delete:
  assumes "storage_laws S tree" "st_delete S ADDRESS_BOOK_V2_TREE (entry_key i) s = (r, s')"
  shows "book_map B tree s' = (if is_ok r then (book_map B tree s)(i := None) else book_map B tree s)"
  using storage_delete [OF assms] by (auto simp: book_map_def entry_key_inject fun_eq_iff)

lemma upsert_refines:
  assumes laws: "storage_laws (bk_storage B) tree" "text_laws B" and marked: "migrated_book tree s n"
    and run: "upsert_address_book_entry_v2 B address name label note s = (r, s')"
  shows "book_map B tree s' = (case r of Inl _ \<Rightarrow> book_map B tree s | Inr e \<Rightarrow> (book_map B tree s)(be_id e \<mapsto> e))"
proof (cases "normalize_entry B address name label note")
  case (Inl x)
  then show ?thesis using run [symmetric] by (simp add: upsert_marked [OF laws(1) marked])
next
  case (Inr d)
  obtain p s2 where w: "st_set (bk_storage B) ADDRESS_BOOK_V2_TREE (entry_key (be_id d)) (encode_entry d) s = (p, s2)"
    by fastforce
  show ?thesis
    using run [symmetric] w Inr book_map_write [OF laws(1) w normalize_entry_stable [OF laws(2) Inr]]
    by (cases p) (simp_all add: upsert_marked [OF laws(1) marked])
qed

lemma find_refines:
  assumes "storage_laws (bk_storage B) tree" "migrated_book tree s n" "book_wf B tree s" "validate_entry_id i = Ok ()"
  shows "find_address_book_entry_v2 B i s =
    (case book_map B tree s i of None \<Rightarrow> Err not_found_error | Some e \<Rightarrow> Ok e, s)"
  using find_marked [OF assms(1,2,4)] book_map_wf [OF assms(3)] decode_encode
  by (cases "book_map B tree s i") fastforce+

lemma remove_refines:
  assumes laws: "storage_laws (bk_storage B) tree" and marked: "migrated_book tree s n" and wf: "book_wf B tree s"
    and run: "remove_address_book_entry_v2 B i s = (r, s')"
  shows "book_map B tree s' = (if is_ok r then (book_map B tree s)(i := None) else book_map B tree s)"
    and "is_ok r \<Longrightarrow> book_map B tree s i \<noteq> None"
proof -
  have has: "st_has (bk_storage B) s ADDRESS_BOOK_V2_TREE (entry_key i) = Ok (book_map B tree s i \<noteq> None)"
    using storage_reads(1) [OF laws] book_map_wf(1) [OF wf] by simp
  obtain p s2 where w: "st_delete (bk_storage B) ADDRESS_BOOK_V2_TREE (entry_key i) s = (p, s2)" by fastforce
  have res: "(r, s') = (case validate_entry_id i of Inl e \<Rightarrow> (Err e, s) | Inr _ \<Rightarrow>
      if book_map B tree s i \<noteq> None then (map_err (book_storage_error B ''ADDRESS_BOOK_ENTRY_DELETE_FAILED'') p, s2)
      else (Err not_found_error, s))"
    unfolding run [symmetric] using w has
    by (cases "book_map B tree s i"; cases "validate_entry_id i")
      (simp_all add: remove_address_book_entry_v2_def migrate_marked [OF laws marked])
  have "is_ok (map_err f p) = is_ok p" for f by (cases p) auto
  then show "book_map B tree s' = (if is_ok r then (book_map B tree s)(i := None) else book_map B tree s)"
    and "is_ok r \<Longrightarrow> book_map B tree s i \<noteq> None"
    using res book_map_delete [OF laws w, of B] by (auto split: sum.splits if_splits)
qed

end
