(* ===== verification/Address_Book_Guarantees.thy ===== *)
theory Address_Book_Guarantees
  imports Address_Book_Laws Transactions
begin

text \<open>
  The guarantees of the address book over any storage that is a map, with a storage of association
  lists and the addresses \<open>mn\<close> and \<open>mi\<close> of one wallet as the concrete instance.
\<close>

section \<open>A concrete book\<close>

type_synonym demo_storage = "string \<Rightarrow> (bool data_value \<times> bool data_element) list"

definition demo_storage_api :: "(demo_storage, bool) storage_api" where
  "demo_storage_api =
     \<lparr> st_has = (\<lambda>s t k. Ok (map_of (s t) k \<noteq> None)),
       st_get = (\<lambda>s t k. case map_of (s t) k of Some v \<Rightarrow> Ok v | None \<Rightarrow> Err (AnyOther ''missing'')),
       st_set = (\<lambda>t k v s. (Ok (), s(t := AList.update k v (s t)))),
       st_delete = (\<lambda>t k s. (Ok (), s(t := AList.delete k (s t)))),
       st_query = (\<lambda>s t. Ok (AList.clearjunk (s t))) \<rparr>"

definition demo_tree :: "(demo_storage, bool) storage_view" where
  "demo_tree s t = map_of (s t)"

lemma demo_storage_laws: "storage_laws demo_storage_api demo_tree"
  by (auto simp: storage_laws_def demo_storage_api_def demo_tree_def update_conv' delete_conv'
      map_of_clearjunk distinct_clearjunk intro!: ext)

definition demo_book :: "(bool \<times> bool data_element option, unit, bool, demo_storage) book_api" where
  "demo_book =
     \<lparr> bk_address = demo_address_api,
       bk_hashes = demo_hash_api \<lparr> to_hex := (\<lambda>b. replicate 64 (if b then CHR ''1'' else CHR ''0'')) \<rparr>,
       bk_hash_multiple = (\<lambda>parts. last parts = ''mi''), bk_lowercase = (\<lambda>s. s),
       bk_storage = demo_storage_api, bk_order = rev, bk_text = demo_upstream_text,
       bk_mainnet = True, bk_usize_max = 2 ^ 64 - 1 \<rparr>"

lemma demo_book_sels:
  "bk_storage demo_book = demo_storage_api" "bk_order demo_book = rev"
  "bk_address demo_book = demo_address_api" "bk_mainnet demo_book = True"
  "st_has demo_storage_api st t k = Ok (map_of (st t) k \<noteq> None)"
  "st_set demo_storage_api t k v st = (Ok (), st(t := AList.update k v (st t)))"
  "st_query demo_storage_api st t = Ok (AList.clearjunk (st t))"
  by (simp_all add: demo_book_def demo_storage_api_def)

lemma demo_book_storage: "storage_laws (bk_storage demo_book) demo_tree"
  using demo_storage_laws by (simp add: demo_book_def)

lemma demo_text_laws: "text_laws demo_book"
  by (auto simp: text_laws_def demo_book_def demo_address_api_def list_all_iff is_lower_hex_def
      split: if_splits) code_simp+

text \<open>A legacy contact under the integrated address.\<close>

definition legacy_storage :: demo_storage where
  "legacy_storage t = (if t = LEGACY_TREE then
     [(DString ''mi'', DFields [string_entry ''name'' ''Ann'', string_entry ''address'' ''mi''])] else [])"

definition demo_entry :: book_entry where
  "demo_entry = \<lparr> be_id = replicate 64 CHR ''1'', be_display_name = ''Ann'', be_destination_label = None, be_note = None,
     be_destination = \<lparr> sd_address = ''mi'', sd_base_address = ''mn'', sd_kind = DestinationIntegrated,
       sd_integrated_data_kind = Some KindBool \<rparr> \<rparr>"

definition demo_migrated :: demo_storage where
  "demo_migrated = legacy_storage(ADDRESS_BOOK_V2_TREE :=
     [(entry_key (be_id demo_entry), encode_entry demo_entry), (marker_key, encode_marker 1)])"

lemma demo_trims: "trim ''mi'' = ''mi''" "trim ''Ann'' = ''Ann''"
  by code_simp+

lemma demo_destination:
  "canonical_destination demo_address_api ''mi'' True =
     Ok \<lparr> cd_address = ''mi'', cd_base_address = ''mn'', cd_integrated_data = Some (DValue (DBool True)),
       cd_integrated_data_kind = Some KindBool \<rparr>"
  by (simp add: canonical_destination_def demo_trims MAX_ADDRESS_BYTES_def demo_address_api_def)

lemma demo_entry_normal:
  "normalize_entry demo_book ''mi'' ''Ann'' None None = Ok demo_entry"
  unfolding normalize_entry_Ok
  by (rule exI, intro conjI, simp add: demo_book_def demo_destination)
    (simp_all add: normalize_required_def normalize_optional_def demo_trims demo_entry_def char_count_def
      MAX_DISPLAY_NAME_CHARS_def entry_id_def destination_to_native_def demo_book_def)

lemma demo_legacy_entry:
  "legacy_entry demo_book
     (DString ''mi'', DFields [string_entry ''name'' ''Ann'', string_entry ''address'' ''mi'']) = Ok demo_entry"
  using demo_entry_normal demo_destination
  by (simp add: legacy_entry_def string_entry_def required_field_def string_field_def demo_book_sels)
    (simp add: demo_entry_def)

lemma demo_stable: "stable_entry demo_book demo_entry"
  using normalize_entry_stable [OF demo_text_laws demo_entry_normal] .

lemma demo_migration:
  "migrate_address_book_v2 demo_book legacy_storage =
     (Ok \<lparr> mr_migrated_entries = 1, mr_already_complete = False \<rparr>, demo_migrated)"
proof -
  have trees: "legacy_storage ADDRESS_BOOK_V2_TREE = []"
    "legacy_storage LEGACY_TREE =
       [(DString ''mi'', DFields [string_entry ''name'' ''Ann'', string_entry ''address'' ''mi''])]"
    by (simp_all add: legacy_storage_def LEGACY_TREE_def ADDRESS_BOOK_V2_TREE_def)
  have keys: "entry_key i \<noteq> (marker_key :: bool data_value)" "(marker_key :: bool data_value) \<noteq> entry_key i" for i
    using entry_key_not_marker [of i] by (simp_all add: eq_commute)
  have "collect_legacy demo_book (legacy_storage LEGACY_TREE) [] = Ok [(be_id demo_entry, demo_entry)]"
    by (simp add: trees demo_legacy_entry)
  then show ?thesis
    by (simp add: migrate_address_book_v2_def demo_book_sels trees finish_migration_def
        count_u32_def demo_migrated_def Let_def keys)
qed

lemma demo_migrated_wf:
  "book_wf demo_book demo_tree demo_migrated" "migrated_book demo_tree demo_migrated 1"
  using demo_stable entry_key_not_marker entry_key_not_marker [symmetric]
  by (auto simp: book_wf_def migrated_book_def demo_tree_def demo_migrated_def split: if_splits)

lemma demo_migrated_map: "book_map demo_book demo_tree demo_migrated (be_id demo_entry) = Some demo_entry"
  using book_holds_map [OF demo_migrated_wf(1) demo_stable]
  by (simp add: book_holds_def demo_tree_def demo_migrated_def)

lemma match_destination_contract:
  fixes d :: "'h canonical_destination_rec"
  assumes "distinct es"
    and "\<forall>e\<in>set es. \<forall>e'\<in>set es. sd_address (be_destination e) = sd_address (be_destination e') \<longrightarrow> e = e'"
  defines "exact \<equiv> {e \<in> set es. sd_address (be_destination e) = cd_address d}"
    and "based \<equiv> {e \<in> set es. sd_base_address (be_destination e) = cd_base_address d}"
    and "m \<equiv> match_destination es d"
  shows "distinct (bm_entries m) \<and>
    (case bm_kind m of
       MatchExact \<Rightarrow> exact = set (bm_entries m) \<and> length (bm_entries m) = 1
     | MatchBaseOnly \<Rightarrow> exact = {} \<and> based = set (bm_entries m) \<and> length (bm_entries m) = 1
     | MatchAmbiguous \<Rightarrow> exact = {} \<and> based = set (bm_entries m) \<and> 2 \<le> length (bm_entries m)
     | MatchNone \<Rightarrow> exact = {} \<and> based = {} \<and> bm_entries m = [])"
proof (cases "find (\<lambda>e. sd_address (be_destination e) = cd_address d) es")
  case (Some e)
  have "e \<in> set es" "sd_address (be_destination e) = cd_address d" using Some by (auto simp: find_Some_iff)
  moreover have "e' = e" if "e' \<in> set es" "sd_address (be_destination e') = cd_address d" for e'
    using assms(2) that calculation by simp
  ultimately have "exact = {e}" unfolding exact_def by blast
  then show ?thesis using Some by (simp add: m_def match_destination_def)
next
  case None
  let ?b = "filter (\<lambda>e. sd_base_address (be_destination e) = cd_base_address d) es"
  have "exact = {}" using None by (auto simp: find_None_iff exact_def)
  moreover have "based = set ?b" by (auto simp: based_def)
  moreover have "m = \<lparr> bm_kind = (case length ?b of 0 \<Rightarrow> MatchNone | Suc 0 \<Rightarrow> MatchBaseOnly | _ \<Rightarrow> MatchAmbiguous),
      bm_entries = ?b \<rparr>"
    using None by (simp add: m_def match_destination_def Let_def)
  moreover have "distinct ?b" using assms(1) by simp
  ultimately show ?thesis
    by (cases "length ?b"; cases "length ?b - 1") simp_all
qed

section \<open>Properties\<close>

text \<open>
  C25: on a migrated book the operations are those of a map from identifiers to entries.  A successful
  upsert overwrites exactly the identifier of the entry it returns; a removal succeeds only for an entry
  that is there and removes exactly it; a lookup returns what the map holds or the not-found error and
  changes nothing; and an operation that fails leaves the map as it was.
\<close>

theorem address_book_refines_map:
  assumes "storage_laws (bk_storage B) tree" "text_laws B" "book_wf B tree s" "migrated_book tree s n"
  shows "(\<forall>r s'. upsert_address_book_entry_v2 B address name label note s = (r, s') \<longrightarrow>
      book_map B tree s' = (case r of Inl _ \<Rightarrow> book_map B tree s | Inr e \<Rightarrow> (book_map B tree s)(be_id e \<mapsto> e))) \<and>
    (\<forall>r s'. remove_address_book_entry_v2 B i s = (r, s') \<longrightarrow>
      (is_ok r \<longrightarrow> book_map B tree s i \<noteq> None) \<and>
      book_map B tree s' = (if is_ok r then (book_map B tree s)(i := None) else book_map B tree s)) \<and>
    (validate_entry_id i = Ok () \<longrightarrow>
      find_address_book_entry_v2 B i s =
        (case book_map B tree s i of None \<Rightarrow> Err not_found_error | Some e \<Rightarrow> Ok e, s))"
  using upsert_refines [OF assms(1,2,4)] remove_refines [OF assms(1,4,3)] find_refines [OF assms(1,4,3)]
  by blast

theorem address_book_refines_map_witness:
  "find_address_book_entry_v2 demo_book (be_id demo_entry) demo_migrated = (Ok demo_entry, demo_migrated)"
  using address_book_refines_map [OF demo_book_storage demo_text_laws demo_migrated_wf, of _ _ _ _ "be_id demo_entry"]
    stable_entry_id [OF demo_text_laws demo_stable] demo_migrated_map by simp

text \<open>
  C26: whatever sequence of operations runs on a book that starts with an empty tree, the tree stays
  readable: listing decodes every stored entry exactly once, in the order of lower-cased name and
  identifier, and every listed entry is in canonical form.  The legacy tree is never changed.
\<close>

theorem reachable_book_readable:
  assumes "storage_laws (bk_storage B) tree" "text_laws B" "\<And>k. tree s ADDRESS_BOOK_V2_TREE k = None"
    and "(book_step B)\<^sup>*\<^sup>* s s'"
  shows "tree s' LEGACY_TREE = tree s LEGACY_TREE \<and>
    (\<exists>es. read_v2_entries B s' = Ok es \<and> distinct (map be_id es) \<and> sorted (map (entry_order B) es) \<and>
      set es = ran (book_map B tree s') \<and>
      (\<forall>e\<in>set es. normalize_entry B (sd_address (be_destination e)) (be_display_name e)
         (be_destination_label e) (be_note e) = Ok e))"
proof -
  have "book_wf B tree s" using assms(3) by (simp add: book_wf_def)
  then have wf: "book_wf B tree s'" and same: "same_elsewhere tree s s'"
    using book_steps_wf [OF assms(1,2,4)] by auto
  obtain es where es: "read_v2_entries B s' = Ok es" "distinct (map be_id es)" "sorted (map (entry_order B) es)"
    "\<forall>e. e \<in> set es \<longleftrightarrow> stable_entry B e \<and> book_holds tree s' e"
    using read_v2_entries_wf [OF assms(1,2) wf] by blast
  have "set es = ran (book_map B tree s')"
    using es(4) book_holds_map [OF wf] book_map_wf(2) [OF wf] unfolding ran_def by blast
  moreover have "tree s' LEGACY_TREE = tree s LEGACY_TREE"
    using same by (simp add: same_elsewhere_def LEGACY_TREE_def ADDRESS_BOOK_V2_TREE_def)
  ultimately show ?thesis using es unfolding stable_entry_def by blast
qed

theorem reachable_book_readable_witness:
  "\<exists>es. read_v2_entries demo_book demo_migrated = Ok es \<and> demo_entry \<in> set es \<and> distinct (map be_id es)"
proof -
  have "book_step demo_book legacy_storage demo_migrated"
    using book_step.migrated [of demo_book legacy_storage] demo_migration by simp
  then have "(book_step demo_book)\<^sup>*\<^sup>* legacy_storage demo_migrated" by simp
  moreover have "demo_tree legacy_storage ADDRESS_BOOK_V2_TREE k = None" for k
    by (simp add: demo_tree_def legacy_storage_def LEGACY_TREE_def ADDRESS_BOOK_V2_TREE_def)
  ultimately obtain es where "read_v2_entries demo_book demo_migrated = Ok es" "distinct (map be_id es)"
    "set es = ran (book_map demo_book demo_tree demo_migrated)"
    using reachable_book_readable [OF demo_book_storage demo_text_laws, of legacy_storage demo_migrated] by blast
  then show ?thesis using demo_migrated_map by (metis ranI)
qed

text \<open>
  C27: a migration that reports success has stored every contact of the legacy tree, keeps the legacy
  tree and the entries that were there before, and is done once: running it again changes nothing and
  reports the same count as already complete.
\<close>

theorem migration_carries_legacy:
  assumes "storage_laws (bk_storage B) tree" "text_laws B" "book_wf B tree s"
    and "tree s ADDRESS_BOOK_V2_TREE marker_key = None" "migrate_address_book_v2 B s = (Ok m, s')"
  shows "(\<forall>k v. tree s LEGACY_TREE k = Some v \<longrightarrow>
      (\<exists>e. legacy_entry B (k, v) = Ok e \<and> book_map B tree s' (be_id e) = Some e)) \<and>
    (\<forall>i e. book_map B tree s i = Some e \<longrightarrow> book_map B tree s' i = Some e) \<and>
    tree s' LEGACY_TREE = tree s LEGACY_TREE \<and> \<not> mr_already_complete m \<and>
    migrate_address_book_v2 B s' = (Ok (m \<lparr> mr_already_complete := True \<rparr>), s')"
proof -
  have wf: "book_wf B tree s'" and same: "same_elsewhere tree s s'" and m: "\<not> mr_already_complete m"
    and marked: "migrated_book tree s' (mr_migrated_entries m)"
    and old: "\<And>e. book_holds tree s e \<Longrightarrow> book_holds tree s' e"
    and legacy: "\<And>k v. tree s LEGACY_TREE k = Some v \<Longrightarrow> \<exists>e. legacy_entry B (k, v) = Ok e \<and> book_holds tree s' e"
    using migrate_fresh [OF assms(1-5)] by blast+
  have "book_map B tree s' i = Some e" if "book_map B tree s i = Some e" for i e
    using that book_map_wf(2) [OF assms(3) that] old book_holds_map [OF assms(3)] book_holds_map [OF wf] by blast
  moreover have "\<exists>e. legacy_entry B (k, v) = Ok e \<and> book_map B tree s' (be_id e) = Some e"
    if "tree s LEGACY_TREE k = Some v" for k v
    using legacy [OF that] book_holds_map [OF wf] legacy_entry_stable [OF assms(2)] by blast
  moreover have "migrate_address_book_v2 B s' = (Ok (m \<lparr> mr_already_complete := True \<rparr>), s')"
    using migrate_marked [OF assms(1) marked] by simp
  ultimately show ?thesis
    using same m by (simp add: same_elsewhere_def LEGACY_TREE_def ADDRESS_BOOK_V2_TREE_def)
qed

theorem migration_carries_legacy_witness:
  "migrate_address_book_v2 demo_book demo_migrated =
     (Ok \<lparr> mr_migrated_entries = 1, mr_already_complete = True \<rparr>, demo_migrated)"
proof -
  have "book_wf demo_book demo_tree legacy_storage" "demo_tree legacy_storage ADDRESS_BOOK_V2_TREE marker_key = None"
    by (simp_all add: book_wf_def demo_tree_def legacy_storage_def LEGACY_TREE_def ADDRESS_BOOK_V2_TREE_def)
  from migration_carries_legacy [OF demo_book_storage demo_text_laws this demo_migration] show ?thesis by simp
qed

text \<open>
  C28: what a match of an address against the book means.  An exact match is the entry of that very
  address; a base-only match is the one entry whose base address is the same; an ambiguous match lists
  all the entries with that base address, at least two; and no match means that no entry shares it.
\<close>

theorem match_kind_sound:
  assumes "storage_laws (bk_storage B) tree" "text_laws B" "book_wf B tree s" "migrated_book tree s n"
    and "canonical_destination (bk_address B) address (bk_mainnet B) = Ok d"
  shows "\<exists>m. match_address_book_address_v2 B address s = (Ok m, s) \<and>
    (let exact = {e \<in> ran (book_map B tree s). sd_address (be_destination e) = cd_address d};
         based = {e \<in> ran (book_map B tree s). sd_base_address (be_destination e) = cd_base_address d} in
     distinct (bm_entries m) \<and>
     (case bm_kind m of
        MatchExact \<Rightarrow> exact = set (bm_entries m) \<and> length (bm_entries m) = 1
      | MatchBaseOnly \<Rightarrow> exact = {} \<and> based = set (bm_entries m) \<and> length (bm_entries m) = 1
      | MatchAmbiguous \<Rightarrow> exact = {} \<and> based = set (bm_entries m) \<and> 2 \<le> length (bm_entries m)
      | MatchNone \<Rightarrow> exact = {} \<and> based = {} \<and> bm_entries m = []))"
proof -
  obtain es where es: "read_v2_entries B s = Ok es" "distinct (map be_id es)"
    "\<forall>e. e \<in> set es \<longleftrightarrow> stable_entry B e \<and> book_holds tree s e"
    using read_v2_entries_wf [OF assms(1-3)] by blast
  have ran: "ran (book_map B tree s) = set es"
    using es(3) book_holds_map [OF assms(3)] book_map_wf(2) [OF assms(3)] unfolding ran_def by blast
  have "match_address_book_address_v2 B address s = (Ok (match_destination es d), s)"
    using es(1) assms(5) by (simp add: match_address_book_address_v2_def migrate_marked [OF assms(1,4)])
  moreover have "distinct es" and inj: "inj_on be_id (set es)" using es(2) by (simp_all add: distinct_map)
  moreover have "\<forall>e\<in>set es. \<forall>e'\<in>set es. sd_address (be_destination e) = sd_address (be_destination e') \<longrightarrow> e = e'"
  proof (intro ballI impI)
    fix e e' assume e: "e \<in> set es" "e' \<in> set es" "sd_address (be_destination e) = sd_address (be_destination e')"
    then have "be_id e = be_id e'" using es(3) stable_entry_key [of B e] stable_entry_key [of B e'] by simp
    then show "e = e'" using inj e(1,2) by (simp add: inj_on_def)
  qed
  ultimately show ?thesis
    using match_destination_contract [of es d] unfolding ran Let_def by blast
qed

theorem match_kind_sound_witness:
  "\<exists>m. match_address_book_address_v2 demo_book ''mi'' demo_migrated = (Ok m, demo_migrated) \<and>
     bm_kind m = MatchExact"
proof -
  have d: "canonical_destination (bk_address demo_book) ''mi'' (bk_mainnet demo_book) =
     Ok \<lparr> cd_address = ''mi'', cd_base_address = ''mn'', cd_integrated_data = Some (DValue (DBool True)),
       cd_integrated_data_kind = Some KindBool \<rparr>"
    by (simp add: demo_book_sels demo_destination)
  have "demo_entry \<in> ran (book_map demo_book demo_tree demo_migrated)" using demo_migrated_map by (rule ranI)
  moreover have "sd_address (be_destination demo_entry) = ''mi''" by (simp add: demo_entry_def)
  ultimately have "{e \<in> ran (book_map demo_book demo_tree demo_migrated). sd_address (be_destination e) = ''mi''} \<noteq> {}"
    by blast
  with match_kind_sound [OF demo_book_storage demo_text_laws demo_migrated_wf d] show ?thesis
    by (fastforce simp: Let_def split: book_match_kind.splits)
qed

end
