(* ===== verification/Assets.thy ===== *)
theory Assets
  imports Transactions
begin

text \<open>
  The asset operations of \<open>wallet/assets.rs\<close> with the metadata types of \<open>models/wallet_dtos.rs\<close>.  The
  wallet storage and the daemon are parameters.  Asset data that is not stored yet is fetched from the
  daemon behind a lock; the requests that wait for it are the steps of a transition relation.
\<close>

section \<open>Data\<close>

datatype max_supply_mode = SupplyNone | SupplyFixed u64 | SupplyMintable u64

datatype 'h asset_owner =
  OwnerNone
| OwnerCreator 'h u64
| OwnerOwner 'h u64 'h

record 'h asset_data =
  ad_name :: string
  ad_ticker :: string
  ad_decimals :: u8
  ad_max_supply :: max_supply_mode
  ad_owner :: "'h asset_owner"

datatype xelis_max_supply_mode = XSupplyNone | XSupplyFixed u64 | XSupplyMintable u64

datatype xelis_asset_owner =
  XOwnerNone
| XOwnerCreator string u64
| XOwnerOwner string u64 string

record xelis_asset_metadata =
  am_name :: string
  am_ticker :: string
  am_decimals :: u8
  am_max_supply :: xelis_max_supply_mode
  am_owner :: xelis_asset_owner

text \<open>What the operations use of the upstream wallet, over its state \<open>'s\<close>.\<close>

record ('h, 's) asset_api =
  as_hashes :: "'h hash_api"
  as_hash_error :: "string \<Rightarrow> anyhow_error"
  as_hash_text :: "'h \<Rightarrow> string"
  as_xelis :: 'h
  as_text :: upstream_text
  as_has_balance :: "'s \<Rightarrow> 'h \<Rightarrow> (bool, anyhow_error) result"
  as_balance :: "'s \<Rightarrow> 'h \<Rightarrow> (u64, anyhow_error) result"
  as_tracked :: "'s \<Rightarrow> (('h, anyhow_error) result list, anyhow_error) result"
  as_assets :: "'s \<Rightarrow> (('h \<times> 'h asset_data, anyhow_error) result list, anyhow_error) result"
  as_track :: "'h \<Rightarrow> 's \<Rightarrow> (bool, anyhow_error) result \<times> 's"
  as_untrack :: "'h \<Rightarrow> 's \<Rightarrow> (bool, anyhow_error) result \<times> 's"
  as_optional :: "'s \<Rightarrow> 'h \<Rightarrow> ('h asset_data option, anyhow_error) result"
  as_add :: "'h \<Rightarrow> 'h asset_data \<Rightarrow> 's \<Rightarrow> (unit, anyhow_error) result \<times> 's"
  as_online :: "'s \<Rightarrow> bool"
  as_handler :: "'s \<Rightarrow> bool"
  as_fetch :: "'s \<Rightarrow> 'h \<Rightarrow> ('h asset_data, anyhow_error) result"
  as_format_coin :: "u64 \<Rightarrow> u8 \<Rightarrow> string"

section \<open>Metadata\<close>

fun max_supply_from :: "max_supply_mode \<Rightarrow> xelis_max_supply_mode" where
  "max_supply_from SupplyNone = XSupplyNone"
| "max_supply_from (SupplyFixed n) = XSupplyFixed n"
| "max_supply_from (SupplyMintable n) = XSupplyMintable n"

fun asset_owner_from :: "'h hash_api \<Rightarrow> 'h asset_owner \<Rightarrow> xelis_asset_owner" where
  "asset_owner_from H OwnerNone = XOwnerNone"
| "asset_owner_from H (OwnerCreator contract i) = XOwnerCreator (to_hex H contract) i"
| "asset_owner_from H (OwnerOwner origin i owner) = XOwnerOwner (to_hex H origin) i (to_hex H owner)"

definition asset_metadata :: "'h hash_api \<Rightarrow> 'h asset_data \<Rightarrow> xelis_asset_metadata" where
  "asset_metadata H d =
     \<lparr> am_name = ad_name d, am_ticker = ad_ticker d, am_decimals = ad_decimals d,
       am_max_supply = max_supply_from (ad_max_supply d), am_owner = asset_owner_from H (ad_owner d) \<rparr>"

definition classify_asset_error ::
  "('h, 's) asset_api \<Rightarrow> native_xelis_error_code \<Rightarrow> string \<Rightarrow> anyhow_error \<Rightarrow> native_xelis_error" where
  "classify_asset_error A fallback_code fallback_kind e = from_wallet_operation (as_text A) e fallback_code fallback_kind"

definition classify_asset_storage_error :: "('h, 's) asset_api \<Rightarrow> string \<Rightarrow> anyhow_error \<Rightarrow> native_xelis_error" where
  "classify_asset_storage_error A fallback_kind e = from_wallet_storage_operation (as_text A) e fallback_kind"

definition asset_hash_from_hex :: "('h, 's) asset_api \<Rightarrow> string \<Rightarrow> ('h, anyhow_error) result" where
  "asset_hash_from_hex A s = map_err (\<lambda>e. AnyContext ''Invalid asset'' (as_hash_error A e)) (from_hex (as_hashes A) s)"

definition resolve_asset_hash :: "('h, 's) asset_api \<Rightarrow> string option \<Rightarrow> ('h, anyhow_error) result" where
  "resolve_asset_hash A asset_hash =
     (case asset_hash of Some s \<Rightarrow> asset_hash_from_hex A s | None \<Rightarrow> Ok (as_xelis A))"

section \<open>Asset data\<close>

definition load_cached :: "('h, 's) asset_api \<Rightarrow> 'h \<Rightarrow> 's \<Rightarrow> ('h asset_data option, anyhow_error) result" where
  "load_cached A h st = map_err (AnyContext ''Error reading asset from wallet storage'') (as_optional A st h)"

definition fetch_from_daemon :: "('h, 's) asset_api \<Rightarrow> 'h \<Rightarrow> 's \<Rightarrow> ('h asset_data, anyhow_error) result" where
  "fetch_from_daemon A h st =
     (if \<not> as_online A st
      then Err (AnyContext (''Asset '' @ as_hash_text A h @ '' not found in wallet storage/cache'')
        (AnyWallet WNotOnlineMode))
      else if \<not> as_handler A st then Err (AnyWallet WNoNetworkHandler)
      else map_err (AnyContext ''Failed to fetch asset from daemon'') (as_fetch A st h))"

definition persist_asset ::
  "('h, 's) asset_api \<Rightarrow> 'h \<Rightarrow> 'h asset_data \<Rightarrow> 's \<Rightarrow> ('h asset_data, anyhow_error) result \<times> 's" where
  "persist_asset A h d st =
     (case as_add A h d st of
        (r, st) \<Rightarrow>
          (map_ok (\<lambda>_. d) (map_err (AnyContext ''Error storing fetched asset in wallet storage'') r), st))"

text \<open>What a request does once it holds the resolution lock.\<close>

definition resolve_locked ::
  "('h, 's) asset_api \<Rightarrow> 'h \<Rightarrow> 's \<Rightarrow> ('h asset_data, anyhow_error) result \<times> 's" where
  "resolve_locked A h st =
     (case load_cached A h st of
        Inl e \<Rightarrow> (Err e, st)
      | Inr (Some d) \<Rightarrow> (Ok d, st)
      | Inr None \<Rightarrow>
          (case fetch_from_daemon A h st of
             Inl e \<Rightarrow> (Err e, st)
           | Inr d \<Rightarrow> persist_asset A h d st))"

definition resolve_asset_data ::
  "('h, 's) asset_api \<Rightarrow> 'h \<Rightarrow> 's \<Rightarrow> ('h asset_data, anyhow_error) result \<times> 's" where
  "resolve_asset_data A h st =
     (case load_cached A h st of
        Inl e \<Rightarrow> (Err e, st)
      | Inr (Some d) \<Rightarrow> (Ok d, st)
      | Inr None \<Rightarrow> resolve_locked A h st)"

section \<open>Operations\<close>

definition has_asset_balance :: "('h, 's) asset_api \<Rightarrow> string \<Rightarrow> 's \<Rightarrow> (bool, anyhow_error) result" where
  "has_asset_balance A asset st = and_then (asset_hash_from_hex A asset) (as_has_balance A st)"

definition balance_or_zero :: "('h, 's) asset_api \<Rightarrow> 'h \<Rightarrow> 's \<Rightarrow> (u64, anyhow_error) result" where
  "balance_or_zero A h st =
     and_then (as_has_balance A st h) (\<lambda>has_balance. if has_balance then as_balance A st h else Ok 0)"

definition get_xelis_balance :: "('h, 's) asset_api \<Rightarrow> 's \<Rightarrow> (u64, native_xelis_error) result" where
  "get_xelis_balance A st =
     map_err (classify_asset_error A Storage ''WALLET_XELIS_BALANCE_READ_FAILED'') (balance_or_zero A (as_xelis A) st)"

fun collect_balances ::
  "('h, 's) asset_api \<Rightarrow> 's \<Rightarrow> ('h, anyhow_error) result list \<Rightarrow> (string \<rightharpoonup> u64)
   \<Rightarrow> (string \<rightharpoonup> u64, anyhow_error) result" where
  "collect_balances A st [] balances = Ok balances"
| "collect_balances A st (r # rs) balances =
     and_then r (\<lambda>asset.
     and_then (balance_or_zero A asset st) (\<lambda>balance.
       collect_balances A st rs (balances(to_hex (as_hashes A) asset \<mapsto> balance))))"

definition get_tracked_balances :: "('h, 's) asset_api \<Rightarrow> 's \<Rightarrow> (string \<rightharpoonup> u64, native_xelis_error) result" where
  "get_tracked_balances A st =
     map_err (classify_asset_error A Storage ''WALLET_TRACKED_BALANCES_READ_FAILED'')
       (and_then (as_tracked A st) (\<lambda>tracked. collect_balances A st tracked Map.empty))"

fun collect_assets ::
  "('h, 's) asset_api \<Rightarrow> ('h \<times> 'h asset_data, anyhow_error) result list \<Rightarrow> (string \<rightharpoonup> xelis_asset_metadata)
   \<Rightarrow> (string \<rightharpoonup> xelis_asset_metadata, anyhow_error) result" where
  "collect_assets A [] assets = Ok assets"
| "collect_assets A (r # rs) assets =
     and_then r (\<lambda>(h, d). collect_assets A rs (assets(to_hex (as_hashes A) h \<mapsto> asset_metadata (as_hashes A) d)))"

definition get_known_assets ::
  "('h, 's) asset_api \<Rightarrow> 's \<Rightarrow> (string \<rightharpoonup> xelis_asset_metadata, native_xelis_error) result" where
  "get_known_assets A st =
     map_err (classify_asset_error A Storage ''WALLET_KNOWN_ASSETS_READ_FAILED'')
       (and_then (as_assets A st) (\<lambda>stored. collect_assets A stored Map.empty))"

definition stable_asset_hash :: "('h, 's) asset_api \<Rightarrow> string \<Rightarrow> ('h, native_xelis_error) result" where
  "stable_asset_hash A asset =
     map_err (classify_asset_error A InvalidInput ''WALLET_ASSET_HASH_INVALID'') (asset_hash_from_hex A asset)"

definition track_asset :: "('h, 's) asset_api \<Rightarrow> string \<Rightarrow> 's \<Rightarrow> (bool, native_xelis_error) result \<times> 's" where
  "track_asset A asset st =
     (case stable_asset_hash A asset of
        Inl e \<Rightarrow> (Err e, st)
      | Inr h \<Rightarrow>
          (case as_track A h st of
             (r, st) \<Rightarrow>
               (map_err (\<lambda>e. classify_asset_storage_error A ''WALLET_ASSET_TRACK_FAILED''
                  (AnyContext ''Error tracking asset'' e)) r, st)))"

definition untrack_asset :: "('h, 's) asset_api \<Rightarrow> string \<Rightarrow> 's \<Rightarrow> (bool, native_xelis_error) result \<times> 's" where
  "untrack_asset A asset st =
     (case stable_asset_hash A asset of
        Inl e \<Rightarrow> (Err e, st)
      | Inr h \<Rightarrow>
          (case as_untrack A h st of
             (r, st) \<Rightarrow>
               (map_err (\<lambda>e. classify_asset_storage_error A ''WALLET_ASSET_UNTRACK_FAILED''
                  (AnyContext ''Error untracking asset'' e)) r, st)))"

definition with_asset_data ::
  "('h, 's) asset_api \<Rightarrow> ('h, anyhow_error) result \<Rightarrow> ('h asset_data \<Rightarrow> 'b) \<Rightarrow> 's \<Rightarrow> ('b, anyhow_error) result \<times> 's" where
  "with_asset_data A hash f st =
     (case hash of
        Inl e \<Rightarrow> (Err e, st)
      | Inr h \<Rightarrow> (case resolve_asset_data A h st of (r, st) \<Rightarrow> (map_ok f r, st)))"

definition get_asset_decimals :: "('h, 's) asset_api \<Rightarrow> string \<Rightarrow> 's \<Rightarrow> (u8, anyhow_error) result \<times> 's" where
  "get_asset_decimals A asset = with_asset_data A (asset_hash_from_hex A asset) ad_decimals"

definition get_asset_ticker :: "('h, 's) asset_api \<Rightarrow> string \<Rightarrow> 's \<Rightarrow> (string, anyhow_error) result \<times> 's" where
  "get_asset_ticker A asset = with_asset_data A (asset_hash_from_hex A asset) ad_ticker"

definition get_asset_metadata ::
  "('h, 's) asset_api \<Rightarrow> string \<Rightarrow> 's \<Rightarrow> (xelis_asset_metadata, native_xelis_error) result \<times> 's" where
  "get_asset_metadata A asset st =
     (case stable_asset_hash A asset of
        Inl e \<Rightarrow> (Err e, st)
      | Inr h \<Rightarrow>
          (case resolve_asset_data A h st of
             (r, st) \<Rightarrow>
               (map_ok (asset_metadata (as_hashes A))
                  (map_err (classify_asset_storage_error A ''WALLET_ASSET_METADATA_READ_FAILED'') r), st)))"

definition format_coin ::
  "('h, 's) asset_api \<Rightarrow> u64 \<Rightarrow> string option \<Rightarrow> 's \<Rightarrow> (string, anyhow_error) result \<times> 's" where
  "format_coin A atomic_amount asset_hash =
     with_asset_data A (resolve_asset_hash A asset_hash) (\<lambda>d. as_format_coin A atomic_amount (ad_decimals d))"

section \<open>Concurrent requests\<close>

text \<open>
  Every await of \<open>resolve_asset_data\<close> lets other requests run.  A request that found nothing waits for
  the lock and looks again; from then on it holds the lock until it answers.  The storage may change
  under the requests through other operations of the wallet.  The rule \<open>elsewhere\<close> lets them do anything
  but forget an asset the wallet knows; an operation that clears the asset table while a request is
  running, such as an upstream rescan, is outside this relation.
\<close>

datatype 'h asset_request =
  RIdle
| RAsked 'h
| RQueued 'h
| RHolding 'h
| RFetched 'h "'h asset_data"
| RAnswered 'h "('h asset_data, anyhow_error) result"

record ('h, 's) resolution =
  rs_store :: 's
  rs_lock :: "nat option"
  rs_task :: "nat \<Rightarrow> 'h asset_request"
  rs_stored :: "'h list"

definition put_task :: "nat \<Rightarrow> 'h asset_request \<Rightarrow> ('h, 's) resolution \<Rightarrow> ('h, 's) resolution" where
  "put_task i t c = c\<lparr> rs_task := (rs_task c)(i := t) \<rparr>"

definition first_load :: "('h, 's) asset_api \<Rightarrow> nat \<Rightarrow> 'h \<Rightarrow> ('h, 's) resolution \<Rightarrow> ('h, 's) resolution" where
  "first_load A i h c =
     (case load_cached A h (rs_store c) of
        Inl e \<Rightarrow> put_task i (RAnswered h (Err e)) c
      | Inr (Some d) \<Rightarrow> put_task i (RAnswered h (Ok d)) c
      | Inr None \<Rightarrow> put_task i (RQueued h) c)"

definition second_load :: "('h, 's) asset_api \<Rightarrow> nat \<Rightarrow> 'h \<Rightarrow> ('h, 's) resolution \<Rightarrow> ('h, 's) resolution" where
  "second_load A i h c =
     (case load_cached A h (rs_store c) of
        Inl e \<Rightarrow> put_task i (RAnswered h (Err e)) c
      | Inr (Some d) \<Rightarrow> put_task i (RAnswered h (Ok d)) c
      | Inr None \<Rightarrow> put_task i (RHolding h) (c\<lparr> rs_lock := Some i \<rparr>))"

definition daemon_reply :: "('h, 's) asset_api \<Rightarrow> nat \<Rightarrow> 'h \<Rightarrow> ('h, 's) resolution \<Rightarrow> ('h, 's) resolution" where
  "daemon_reply A i h c =
     (case fetch_from_daemon A h (rs_store c) of
        Inl e \<Rightarrow> put_task i (RAnswered h (Err e)) (c\<lparr> rs_lock := None \<rparr>)
      | Inr d \<Rightarrow> put_task i (RFetched h d) c)"

definition store_asset ::
  "('h, 's) asset_api \<Rightarrow> nat \<Rightarrow> 'h \<Rightarrow> 'h asset_data \<Rightarrow> ('h, 's) resolution \<Rightarrow> ('h, 's) resolution" where
  "store_asset A i h d c =
     (case persist_asset A h d (rs_store c) of
        (r, st) \<Rightarrow>
          put_task i (RAnswered h r) (c\<lparr> rs_store := st, rs_lock := None,
            rs_stored := (if is_ok r then h # rs_stored c else rs_stored c) \<rparr>))"

definition known :: "('h, 's) asset_api \<Rightarrow> 'h \<Rightarrow> 's \<Rightarrow> bool" where
  "known A h st \<longleftrightarrow> (\<exists>d. as_optional A st h = Ok (Some d))"

inductive resolution_step ::
  "('h, 's) asset_api \<Rightarrow> ('h, 's) resolution \<Rightarrow> ('h, 's) resolution \<Rightarrow> bool" for A where
  ask: "rs_task c i = RIdle \<Longrightarrow> resolution_step A c (put_task i (RAsked h) c)"
| look: "rs_task c i = RAsked h \<Longrightarrow> resolution_step A c (first_load A i h c)"
| acquire: "rs_task c i = RQueued h \<Longrightarrow> rs_lock c = None \<Longrightarrow> resolution_step A c (second_load A i h c)"
| fetch: "rs_task c i = RHolding h \<Longrightarrow> resolution_step A c (daemon_reply A i h c)"
| store: "rs_task c i = RFetched h d \<Longrightarrow> resolution_step A c (store_asset A i h d c)"
| elsewhere: "(\<And>h. known A h (rs_store c) \<Longrightarrow> known A h st) \<Longrightarrow> resolution_step A c (c\<lparr> rs_store := st \<rparr>)"

definition no_requests :: "'s \<Rightarrow> ('h, 's) resolution" where
  "no_requests st = \<lparr> rs_store = st, rs_lock = None, rs_task = (\<lambda>_. RIdle), rs_stored = [] \<rparr>"

text \<open>The storage law: a stored asset is found, and storing one forgets no other.\<close>

definition asset_storage_laws :: "('h, 's) asset_api \<Rightarrow> bool" where
  "asset_storage_laws A \<longleftrightarrow>
     (\<forall>h d st r st'. as_add A h d st = (r, st') \<longrightarrow>
        (is_ok r \<longrightarrow> as_optional A st' h = Ok (Some d)) \<and> (\<forall>k. known A k st \<longrightarrow> known A k st'))"

fun holds_lock :: "'h asset_request \<Rightarrow> bool" where
  "holds_lock (RHolding h) = True"
| "holds_lock (RFetched h d) = True"
| "holds_lock _ = False"

fun request_asset :: "'h asset_request \<Rightarrow> 'h option" where
  "request_asset (RHolding h) = Some h"
| "request_asset (RFetched h d) = Some h"
| "request_asset _ = None"

definition resolution_inv :: "('h, 's) asset_api \<Rightarrow> ('h, 's) resolution \<Rightarrow> bool" where
  "resolution_inv A c \<longleftrightarrow>
     (\<forall>i. holds_lock (rs_task c i) \<longleftrightarrow> rs_lock c = Some i) \<and>
     distinct (rs_stored c) \<and> (\<forall>h\<in>set (rs_stored c). known A h (rs_store c)) \<and>
     (\<forall>i h. request_asset (rs_task c i) = Some h \<longrightarrow> h \<notin> set (rs_stored c)) \<and>
     (\<forall>i h d. rs_task c i = RAnswered h (Ok d) \<longrightarrow> known A h (rs_store c))"

lemma load_cached_Ok: "load_cached A h st = Ok r \<longleftrightarrow> as_optional A st h = Ok r"
  by (simp add: load_cached_def result_simps)

lemma not_known: "as_optional A st h = Ok None \<Longrightarrow> \<not> known A h st"
  by (simp add: known_def)

lemma resolution_inv_at:
  assumes "resolution_inv A c"
  shows "holds_lock (rs_task c i) \<longleftrightarrow> rs_lock c = Some i"
    and "request_asset (rs_task c i) = Some h \<Longrightarrow> h \<notin> set (rs_stored c)"
  using assms by (simp_all add: resolution_inv_def)

lemma resolution_inv_first_load:
  assumes "resolution_inv A c" "rs_task c i = RAsked h"
  shows "resolution_inv A (first_load A i h c)"
  using assms resolution_inv_at [OF assms(1), of i]
  by (auto simp: resolution_inv_def first_load_def put_task_def load_cached_Ok known_def
      split: sum.split option.split)

lemma resolution_inv_second_load:
  assumes "resolution_inv A c" "rs_task c i = RQueued h" "rs_lock c = None"
  shows "resolution_inv A (second_load A i h c)"
  using assms not_known resolution_inv_at(1) [OF assms(1), of i]
  by (auto simp: resolution_inv_def second_load_def put_task_def load_cached_Ok known_def
      split: sum.split option.split)

lemma resolution_inv_daemon_reply:
  assumes "resolution_inv A c" "rs_task c i = RHolding h"
  shows "resolution_inv A (daemon_reply A i h c)"
  using assms resolution_inv_at [OF assms(1), of i]
  by (auto simp: resolution_inv_def daemon_reply_def put_task_def split: sum.split)

lemma resolution_inv_store_asset:
  assumes laws: "asset_storage_laws A" and inv: "resolution_inv A c" and task: "rs_task c i = RFetched h d"
  shows "resolution_inv A (store_asset A i h d c)"
proof -
  obtain r st where add: "as_add A h d (rs_store c) = (r, st)" by fastforce
  have kept: "known A k st" if "known A k (rs_store c)" for k
    using laws add that unfolding asset_storage_laws_def by blast
  have stored: "is_ok r \<Longrightarrow> known A h st"
    using laws add unfolding asset_storage_laws_def known_def by blast
  have lock: "rs_lock c = Some i" and fresh: "h \<notin> set (rs_stored c)"
    using inv task unfolding resolution_inv_def by (metis holds_lock.simps(2), metis request_asset.simps(2))
  have alone: "holds_lock (rs_task c j) \<longleftrightarrow> j = i" for j
    using inv lock by (auto simp: resolution_inv_def)
  then have "request_asset (rs_task c j) = None" if "j \<noteq> i" for j
    using that by (cases "rs_task c j") (metis holds_lock.simps request_asset.simps)+
  then show ?thesis
    using inv kept stored fresh alone
    by (cases r) (auto simp: resolution_inv_def store_asset_def persist_asset_def add put_task_def)
qed

lemma resolution_inv_step:
  assumes "asset_storage_laws A" "resolution_step A c c'" "resolution_inv A c"
  shows "resolution_inv A c'"
  using assms(2,3)
proof cases
  case (ask i h)
  then show ?thesis
    using assms(3) resolution_inv_at(1) [OF assms(3), of i] by (auto simp: resolution_inv_def put_task_def)
next
  case (elsewhere st)
  then show ?thesis using assms(3) by (auto simp: resolution_inv_def)
qed (auto intro: resolution_inv_first_load resolution_inv_second_load resolution_inv_daemon_reply
    resolution_inv_store_asset assms(1))

lemma resolution_inv_steps:
  assumes "asset_storage_laws A" "(resolution_step A)\<^sup>*\<^sup>* (no_requests st) c"
  shows "resolution_inv A c"
  using assms(2)
proof (induction rule: rtranclp_induct)
  case base
  then show ?case by (simp add: resolution_inv_def no_requests_def)
qed (rule resolution_inv_step [OF assms(1)])

text \<open>A request that runs alone does what \<open>resolve_asset_data\<close> returns.\<close>

lemma put_task_task [simp]: "rs_task (put_task i t c) i = t" "rs_store (put_task i t c) = rs_store c"
  "rs_lock (put_task i t c) = rs_lock c" "rs_stored (put_task i t c) = rs_stored c"
  by (simp_all add: put_task_def)

lemma asked_run:
  assumes "rs_task c i = RAsked h" "rs_lock c = None"
  shows "\<exists>c'. (resolution_step A)\<^sup>*\<^sup>* c c' \<and> rs_task c' i = RAnswered h (fst (resolve_asset_data A h (rs_store c))) \<and>
    rs_store c' = snd (resolve_asset_data A h (rs_store c))"
proof (cases "load_cached A h (rs_store c) = Ok None")
  case False
  then show ?thesis
    using look [OF assms(1), of A]
    by (auto simp: first_load_def resolve_asset_data_def split: sum.splits option.splits intro!: exI r_into_rtranclp)
next
  case True
  let ?q = "put_task i (RQueued h) c" and ?g = "put_task i (RHolding h) (put_task i (RQueued h) c\<lparr> rs_lock := Some i \<rparr>)"
  have q: "resolution_step A c ?q" using look [OF assms(1), of A] True by (simp add: first_load_def)
  have "resolution_step A ?q (second_load A i h ?q)" by (rule acquire) (simp_all add: assms)
  then have g: "resolution_step A ?q ?g" using True by (simp add: second_load_def)
  have f: "resolution_step A ?g (daemon_reply A i h ?g)" by (rule fetch) simp
  have "(resolution_step A)\<^sup>*\<^sup>* c ?q" using q by (rule r_into_rtranclp)
  from this g have "(resolution_step A)\<^sup>*\<^sup>* c ?g" by (rule rtranclp.rtrancl_into_rtrancl)
  from this f have run: "(resolution_step A)\<^sup>*\<^sup>* c (daemon_reply A i h ?g)" by (rule rtranclp.rtrancl_into_rtrancl)
  have locked: "resolve_asset_data A h (rs_store c) =
    (case fetch_from_daemon A h (rs_store c) of Inl e \<Rightarrow> (Err e, rs_store c) | Inr d \<Rightarrow> persist_asset A h d (rs_store c))"
    using True by (simp add: resolve_asset_data_def resolve_locked_def)
  show ?thesis
  proof (cases "fetch_from_daemon A h (rs_store c)")
    case (Inl e)
    then show ?thesis using run Inl locked by (auto simp: daemon_reply_def intro!: exI)
  next
    case (Inr d)
    let ?f = "daemon_reply A i h ?g"
    have "rs_task ?f i = RFetched h d" "rs_store ?f = rs_store c" using Inr by (simp_all add: daemon_reply_def)
    moreover from this have step: "resolution_step A ?f (store_asset A i h d ?f)" by (intro store) simp
    moreover from run step have "(resolution_step A)\<^sup>*\<^sup>* c (store_asset A i h d ?f)"
      by (rule rtranclp.rtrancl_into_rtrancl)
    ultimately show ?thesis using Inr locked
      by (auto simp: store_asset_def split: prod.split intro!: exI [of _ "store_asset A i h d ?f"])
  qed
qed

section \<open>Properties\<close>

text \<open>
  C36: however the requests for asset data interleave, at most one of them is past the lock at any time,
  no asset is fetched and stored twice by them, and a request that was answered with data left the
  asset in the wallet's storage.
\<close>

theorem asset_fetched_once:
  assumes "asset_storage_laws A" "(resolution_step A)\<^sup>*\<^sup>* (no_requests st) c"
  shows "distinct (rs_stored c) \<and>
    (\<forall>i j. holds_lock (rs_task c i) \<longrightarrow> holds_lock (rs_task c j) \<longrightarrow> i = j) \<and>
    (\<forall>i h d. rs_task c i = RAnswered h (Ok d) \<longrightarrow> (\<exists>d'. as_optional A (rs_store c) h = Ok (Some d')))"
proof -
  note inv = resolution_inv_steps [OF assms]
  have "i = j" if "holds_lock (rs_task c i)" "holds_lock (rs_task c j)" for i j
    using that resolution_inv_at(1) [OF inv] by simp
  then show ?thesis using inv by (auto simp: resolution_inv_def known_def)
qed

definition demo_asset :: "bool asset_data" where
  "demo_asset = \<lparr> ad_name = ''Coin'', ad_ticker = ''CN'', ad_decimals = 8, ad_max_supply = SupplyNone,
     ad_owner = OwnerNone \<rparr>"

definition demo_asset_api :: "(bool, bool) asset_api" where
  "demo_asset_api =
     \<lparr> as_hashes = demo_hash_api, as_hash_error = AnyOther, as_hash_text = (\<lambda>b. if b then ''1'' else ''0''),
       as_xelis = False, as_text = demo_upstream_text,
       as_has_balance = (\<lambda>st h. Ok False), as_balance = (\<lambda>st h. Ok 0), as_tracked = (\<lambda>st. Ok []),
       as_assets = (\<lambda>st. Ok []), as_track = (\<lambda>h st. (Ok True, st)), as_untrack = (\<lambda>h st. (Ok True, st)),
       as_optional = (\<lambda>st h. Ok (if st \<and> h then Some demo_asset else None)),
       as_add = (\<lambda>h d st. if h \<and> d = demo_asset then (Ok (), True) else (Err (AnyOther ''refused''), st)),
       as_online = (\<lambda>st. True), as_handler = (\<lambda>st. True), as_fetch = (\<lambda>st h. Ok demo_asset),
       as_format_coin = (\<lambda>v d. []) \<rparr>"

theorem asset_fetched_once_witness:
  "\<exists>c. (resolution_step demo_asset_api)\<^sup>*\<^sup>* (no_requests False) c \<and>
     rs_task c 0 = RAnswered True (Ok demo_asset) \<and> rs_store c"
proof -
  let ?A = "demo_asset_api" and ?s = "put_task 0 (RAsked True) (no_requests False) :: (bool, bool) resolution"
  have laws: "asset_storage_laws ?A"
    by (auto simp: asset_storage_laws_def known_def demo_asset_api_def split: if_splits)
  have "resolve_asset_data ?A True False = (Ok demo_asset, True)"
    by (simp add: resolve_asset_data_def resolve_locked_def load_cached_def fetch_from_daemon_def
        persist_asset_def demo_asset_api_def)
  then obtain c where c: "(resolution_step ?A)\<^sup>*\<^sup>* ?s c" "rs_task c 0 = RAnswered True (Ok demo_asset)"
    using asked_run [of ?s 0 True ?A] by (auto simp: no_requests_def)
  have "resolution_step ?A (no_requests False) ?s" by (rule ask) (simp add: no_requests_def)
  then have run: "(resolution_step ?A)\<^sup>*\<^sup>* (no_requests False) c" using c(1) by (rule converse_rtranclp_into_rtranclp)
  from asset_fetched_once [OF laws run] c(2) have "\<exists>d. as_optional ?A (rs_store c) True = Ok (Some d)" by blast
  then have "rs_store c" by (simp add: demo_asset_api_def split: if_splits)
  then show ?thesis using run c(2) by blast
qed

end
