(* ===== verification/Business_Events.thy ===== *)
theory Business_Events
  imports Assets
begin

text \<open>
  What a wallet event says to the application: the projections of \<open>wallet/business_events.rs\<close> and
  \<open>wallet/runtime_events.rs\<close> into the types of \<open>models/business_event_dtos.rs\<close> and
  \<open>models/runtime_event_dtos.rs\<close>.  The upstream entries are data; an upstream address shows as its text.
  The extra data an entry carries is a parameter of the upstream types, so that two entries can be
  compared up to it.
\<close>

section \<open>Upstream entries and events\<close>

datatype plaintext_flag = FlagPrivate | FlagPublic | FlagProprietary | FlagFailed

datatype 'h plaintext_extra_data = Plaintext (pe_data: "'h data_element option") (pe_flag: plaintext_flag)

datatype ('h, 'x) upstream_transfer_in = TransferIn (ti_asset: 'h) (ti_amount: u64) (ti_extra: "'x option")

datatype ('a, 'h, 'x) upstream_transfer_out =
  TransferOut (to_destination: 'a) (to_asset: 'h) (to_amount: u64) (to_extra: "'x option")

datatype ('a, 'h, 'x) entry_type =
  ECoinbase u64
| EBurn 'h u64 u64 u64
| EIncoming 'a "('h, 'x) upstream_transfer_in list"
| EOutgoing "('a, 'h, 'x) upstream_transfer_out list" u64 u64
| EMultiSig "'a list" u8 u64 u64
| EInvokeContract 'h "('h \<times> u64) list" "('h \<times> ('h \<times> u64) list) list" u16 u64 u64 u64
| EDeployContract u64 u64 "(u64 \<times> ('h \<times> u64) list) option"
| EIncomingContract "('h \<times> ('h \<times> u64) list) list"
| EOutgoingBlob "'a list" u64 u64 'x
| EIncomingBlob 'a "'a list" 'x

datatype ('a, 'h, 'x) upstream_entry =
  UpstreamEntry (ue_hash: 'h) (ue_topoheight: u64) (ue_timestamp: u64) (ue_entry: "('a, 'h, 'x) entry_type")

datatype ('a, 'h, 'x) upstream_pending =
  UpstreamPending (up_hash: 'h) (up_timestamp: u64) (up_entry: "('a, 'h, 'x) entry_type")

datatype ('a, 'h, 'x) wallet_event =
  EvNewTransaction "('a, 'h, 'x) upstream_entry"
| EvNewPendingTransaction "('a, 'h, 'x) upstream_pending"
| EvBalanceChanged 'h u64
| EvNewAsset 'h u64 "'h asset_data"
| EvTrackAsset 'h
| EvUntrackAsset 'h
| EvNewTopoHeight u64
| EvRescan u64
| EvHistorySynced u64
| EvOnline
| EvOffline
| EvSyncError string

section \<open>What the application sees\<close>

definition NATIVE_WALLET_BUSINESS_EVENT_VERSION :: u16 where
  "NATIVE_WALLET_BUSINESS_EVENT_VERSION = 1"

definition NATIVE_WALLET_RUNTIME_EVENT_VERSION :: u16 where
  "NATIVE_WALLET_RUNTIME_EVENT_VERSION = 1"

datatype extra_data_disclosure = DiscloseRedacted | DiscloseMetadata | DiscloseDetailed

datatype extra_data_flag = ExtraPrivate | ExtraPublic | ExtraProprietary | ExtraFailed

datatype payload_kind =
  PayloadBool | PayloadString | PayloadU8 | PayloadU16 | PayloadU32 | PayloadU64 | PayloadU128
| PayloadHash | PayloadBlob | PayloadArray | PayloadFields | PayloadUnknown

record native_extra_data =
  xd_flag :: extra_data_flag
  xd_has_payload :: bool
  xd_payload :: "native_data_element option"
  xd_payload_kind :: "payload_kind option"

record native_transfer_in =
  nti_asset :: string
  nti_amount :: u64
  nti_extra_data :: "native_extra_data option"

record native_transfer_out =
  nto_destination :: string
  nto_asset :: string
  nto_amount :: u64
  nto_extra_data :: "native_extra_data option"

record native_asset_amount =
  naa_asset :: string
  naa_amount :: u64

record native_contract_transfer_group =
  nct_contract :: string
  nct_transfers :: "native_asset_amount list"

record native_deploy_invoke =
  ndi_max_gas :: u64
  ndi_deposits :: "native_asset_amount list"

datatype native_entry_data =
  NCoinbase u64
| NBurn string u64 u64 u64
| NIncoming string "native_transfer_in list"
| NOutgoing "native_transfer_out list" u64 u64
| NMultisig "string list" u8 u64 u64
| NInvokeContract string "native_asset_amount list" "native_contract_transfer_group list" u16 u64 u64 u64
| NDeployContract u64 u64 "native_deploy_invoke option"
| NIncomingContract "native_contract_transfer_group list"
| NOutgoingBlob "string list" u64 u64 native_extra_data
| NIncomingBlob string "string list" native_extra_data

record native_transaction_entry =
  nte_hash :: string
  nte_topoheight :: u64
  nte_timestamp_millis :: u64
  nte_entry :: native_entry_data

record native_pending_transaction =
  npt_hash :: string
  npt_timestamp_millis :: u64
  npt_entry :: native_entry_data

record native_asset =
  nas_asset_hash :: string
  nas_topoheight :: u64
  nas_metadata :: xelis_asset_metadata

datatype stream_close_reason = NativeChannelClosed

datatype business_event =
  BNewTransaction native_transaction_entry
| BNewPendingTransaction native_pending_transaction
| BBalanceChanged string u64
| BNewAsset native_asset
| BAssetTracked string
| BAssetUntracked string
| BDegraded u64 native_xelis_error
| BClosed stream_close_reason native_xelis_error

datatype runtime_event =
  ROnline
| ROffline
| RSyncIssue native_xelis_error
| RNewTopoHeight u64
| RRescan u64
| RHistorySynced u64
| RDegraded u64 native_xelis_error
| RClosed stream_close_reason native_xelis_error

section \<open>Extra data\<close>

datatype extra_data_projection = Redacted | Metadata | Detailed

fun from_disclosure :: "extra_data_disclosure \<Rightarrow> extra_data_projection" where
  "from_disclosure DiscloseRedacted = Redacted"
| "from_disclosure DiscloseMetadata = Metadata"
| "from_disclosure DiscloseDetailed = Detailed"

fun extra_data_payload_kind :: "'h data_element \<Rightarrow> payload_kind" where
  "extra_data_payload_kind (DValue (DBool _)) = PayloadBool"
| "extra_data_payload_kind (DValue (DString _)) = PayloadString"
| "extra_data_payload_kind (DValue (DU8 _)) = PayloadU8"
| "extra_data_payload_kind (DValue (DU16 _)) = PayloadU16"
| "extra_data_payload_kind (DValue (DU32 _)) = PayloadU32"
| "extra_data_payload_kind (DValue (DU64 _)) = PayloadU64"
| "extra_data_payload_kind (DValue (DU128 _)) = PayloadU128"
| "extra_data_payload_kind (DValue (DHash _)) = PayloadHash"
| "extra_data_payload_kind (DValue (DBlob _)) = PayloadBlob"
| "extra_data_payload_kind (DArray _) = PayloadArray"
| "extra_data_payload_kind (DFields _) = PayloadFields"

fun extra_data_flag_from :: "plaintext_flag \<Rightarrow> extra_data_flag" where
  "extra_data_flag_from FlagPrivate = ExtraPrivate"
| "extra_data_flag_from FlagPublic = ExtraPublic"
| "extra_data_flag_from FlagProprietary = ExtraProprietary"
| "extra_data_flag_from FlagFailed = ExtraFailed"

definition extra_data ::
  "'h hash_api \<Rightarrow> extra_data_projection \<Rightarrow> 'h plaintext_extra_data \<Rightarrow> (native_extra_data, anyhow_error) result" where
  "extra_data H projection v =
     (let (payload, kind) =
        (case (projection, pe_data v) of
           (Redacted, _) \<Rightarrow> (None, None)
         | (_, None) \<Rightarrow> (None, None)
         | (Metadata, Some payload) \<Rightarrow> (None, Some (extra_data_payload_kind payload))
         | (Detailed, Some payload) \<Rightarrow> (Some (element_from_xelis H payload), Some (extra_data_payload_kind payload)))
      in Ok \<lparr> xd_flag = extra_data_flag_from (pe_flag v), xd_has_payload = (pe_data v \<noteq> None),
              xd_payload = payload, xd_payload_kind = kind \<rparr>)"

definition optional_extra_data ::
  "'h hash_api \<Rightarrow> extra_data_projection \<Rightarrow> 'h plaintext_extra_data option
   \<Rightarrow> (native_extra_data option, anyhow_error) result" where
  "optional_extra_data H projection v =
     (case v of None \<Rightarrow> Ok None | Some x \<Rightarrow> map_ok Some (extra_data H projection x))"

section \<open>Entries\<close>

definition transfer_in ::
  "'h hash_api \<Rightarrow> extra_data_projection \<Rightarrow> ('h, 'h plaintext_extra_data) upstream_transfer_in
   \<Rightarrow> (native_transfer_in, anyhow_error) result" where
  "transfer_in H projection v =
     and_then (optional_extra_data H projection (ti_extra v)) (\<lambda>extra.
       Ok \<lparr> nti_asset = to_hex H (ti_asset v), nti_amount = ti_amount v, nti_extra_data = extra \<rparr>)"

definition transfer_out ::
  "'h hash_api \<Rightarrow> ('a \<Rightarrow> string) \<Rightarrow> extra_data_projection \<Rightarrow> ('a, 'h, 'h plaintext_extra_data) upstream_transfer_out
   \<Rightarrow> (native_transfer_out, anyhow_error) result" where
  "transfer_out H show_addr projection v =
     and_then (optional_extra_data H projection (to_extra v)) (\<lambda>extra.
       Ok \<lparr> nto_destination = show_addr (to_destination v), nto_asset = to_hex H (to_asset v),
            nto_amount = to_amount v, nto_extra_data = extra \<rparr>)"

definition asset_amounts :: "'h hash_api \<Rightarrow> ('h \<times> u64) list \<Rightarrow> native_asset_amount list" where
  "asset_amounts H vs = map (\<lambda>(asset, amount). \<lparr> naa_asset = to_hex H asset, naa_amount = amount \<rparr>) vs"

definition contract_transfer_groups ::
  "'h hash_api \<Rightarrow> ('h \<times> ('h \<times> u64) list) list \<Rightarrow> native_contract_transfer_group list" where
  "contract_transfer_groups H vs =
     map (\<lambda>(contract, transfers). \<lparr> nct_contract = to_hex H contract, nct_transfers = asset_amounts H transfers \<rparr>) vs"

fun transaction_entry_data ::
  "'h hash_api \<Rightarrow> ('a \<Rightarrow> string) \<Rightarrow> extra_data_projection \<Rightarrow> ('a, 'h, 'h plaintext_extra_data) entry_type
   \<Rightarrow> (native_entry_data, anyhow_error) result" where
  "transaction_entry_data H show_addr p (ECoinbase reward) = Ok (NCoinbase reward)"
| "transaction_entry_data H show_addr p (EBurn asset amount fee nonce) = Ok (NBurn (to_hex H asset) amount fee nonce)"
| "transaction_entry_data H show_addr p (EIncoming sender transfers) =
     map_ok (NIncoming (show_addr sender)) (collect_results (transfer_in H p) transfers)"
| "transaction_entry_data H show_addr p (EOutgoing transfers fee nonce) =
     map_ok (\<lambda>ts. NOutgoing ts fee nonce) (collect_results (transfer_out H show_addr p) transfers)"
| "transaction_entry_data H show_addr p (EMultiSig participants threshold fee nonce) =
     Ok (NMultisig (map show_addr participants) threshold fee nonce)"
| "transaction_entry_data H show_addr p (EInvokeContract contract deposits received chunk_id fee max_gas nonce) =
     Ok (NInvokeContract (to_hex H contract) (asset_amounts H deposits) (contract_transfer_groups H received)
       chunk_id fee max_gas nonce)"
| "transaction_entry_data H show_addr p (EDeployContract fee nonce invoke) =
     Ok (NDeployContract fee nonce
       (map_option (\<lambda>(max_gas, deposits). \<lparr> ndi_max_gas = max_gas, ndi_deposits = asset_amounts H deposits \<rparr>) invoke))"
| "transaction_entry_data H show_addr p (EIncomingContract transfers) =
     Ok (NIncomingContract (contract_transfer_groups H transfers))"
| "transaction_entry_data H show_addr p (EOutgoingBlob destinations fee nonce data) =
     map_ok (NOutgoingBlob (map show_addr destinations) fee nonce) (extra_data H p data)"
| "transaction_entry_data H show_addr p (EIncomingBlob sender destinations data) =
     map_ok (NIncomingBlob (show_addr sender) (map show_addr destinations)) (extra_data H p data)"

definition transaction_entry ::
  "'h hash_api \<Rightarrow> ('a \<Rightarrow> string) \<Rightarrow> extra_data_projection \<Rightarrow> ('a, 'h, 'h plaintext_extra_data) upstream_entry
   \<Rightarrow> (native_transaction_entry, anyhow_error) result" where
  "transaction_entry H show_addr p v =
     and_then (transaction_entry_data H show_addr p (ue_entry v)) (\<lambda>entry.
       Ok \<lparr> nte_hash = to_hex H (ue_hash v), nte_topoheight = ue_topoheight v,
            nte_timestamp_millis = ue_timestamp v, nte_entry = entry \<rparr>)"

definition pending_transaction ::
  "'h hash_api \<Rightarrow> ('a \<Rightarrow> string) \<Rightarrow> extra_data_projection \<Rightarrow> ('a, 'h, 'h plaintext_extra_data) upstream_pending
   \<Rightarrow> (native_pending_transaction, anyhow_error) result" where
  "pending_transaction H show_addr p v =
     and_then (transaction_entry_data H show_addr p (up_entry v)) (\<lambda>entry.
       Ok \<lparr> npt_hash = to_hex H (up_hash v), npt_timestamp_millis = up_timestamp v, npt_entry = entry \<rparr>)"

section \<open>Events\<close>

definition business_event_projection_error :: "upstream_text \<Rightarrow> anyhow_error \<Rightarrow> native_xelis_error" where
  "business_event_projection_error up e =
     from_wallet_operation up e Serialization ''WALLET_BUSINESS_EVENT_PROJECTION_FAILED''"

fun business_event_from_wallet_event ::
  "upstream_text \<Rightarrow> 'h hash_api \<Rightarrow> ('a \<Rightarrow> string) \<Rightarrow> extra_data_projection
   \<Rightarrow> ('a, 'h, 'h plaintext_extra_data) wallet_event \<Rightarrow> (business_event option, native_xelis_error) result" where
  "business_event_from_wallet_event up H show_addr p (EvNewTransaction t) =
     map_ok (\<lambda>t. Some (BNewTransaction t)) (map_err (business_event_projection_error up) (transaction_entry H show_addr p t))"
| "business_event_from_wallet_event up H show_addr p (EvNewPendingTransaction t) =
     map_ok (\<lambda>t. Some (BNewPendingTransaction t))
       (map_err (business_event_projection_error up) (pending_transaction H show_addr p t))"
| "business_event_from_wallet_event up H show_addr p (EvBalanceChanged asset balance) =
     Ok (Some (BBalanceChanged (to_hex H asset) balance))"
| "business_event_from_wallet_event up H show_addr p (EvNewAsset asset topoheight d) =
     Ok (Some (BNewAsset \<lparr> nas_asset_hash = to_hex H asset, nas_topoheight = topoheight,
       nas_metadata = asset_metadata H d \<rparr>))"
| "business_event_from_wallet_event up H show_addr p (EvTrackAsset asset) = Ok (Some (BAssetTracked (to_hex H asset)))"
| "business_event_from_wallet_event up H show_addr p (EvUntrackAsset asset) = Ok (Some (BAssetUntracked (to_hex H asset)))"
| "business_event_from_wallet_event up H show_addr p _ = Ok None"

fun runtime_event_from_wallet_event :: "('a, 'h, 'x) wallet_event \<Rightarrow> runtime_event option" where
  "runtime_event_from_wallet_event (EvNewTopoHeight topoheight) = Some (RNewTopoHeight topoheight)"
| "runtime_event_from_wallet_event (EvRescan start_topoheight) = Some (RRescan start_topoheight)"
| "runtime_event_from_wallet_event (EvHistorySynced topoheight) = Some (RHistorySynced topoheight)"
| "runtime_event_from_wallet_event EvOnline = Some ROnline"
| "runtime_event_from_wallet_event EvOffline = Some ROffline"
| "runtime_event_from_wallet_event (EvSyncError msg) =
     Some (RSyncIssue (xelis_wallet_error OperationFailed ''WALLET_SYNC_ERROR'' msg))"
| "runtime_event_from_wallet_event _ = None"

section \<open>Disclosure\<close>

text \<open>When two pieces of extra data are the same as far as a projection may show.\<close>

definition same_disclosed ::
  "extra_data_projection \<Rightarrow> 'h plaintext_extra_data \<Rightarrow> 'h plaintext_extra_data \<Rightarrow> bool" where
  "same_disclosed p x y \<longleftrightarrow>
     pe_flag x = pe_flag y \<and> (pe_data x = None \<longleftrightarrow> pe_data y = None) \<and>
     (p = Metadata \<longrightarrow> map_option extra_data_payload_kind (pe_data x) = map_option extra_data_payload_kind (pe_data y)) \<and>
     (p = Detailed \<longrightarrow> pe_data x = pe_data y)"

lemma extra_data_Ok: "\<exists>d. extra_data H p x = Ok d"
  by (auto simp: extra_data_def Let_def split: extra_data_projection.split option.split)

lemma extra_data_disclosed: "same_disclosed p x y \<Longrightarrow> extra_data H p x = extra_data H p y"
  by (auto simp: same_disclosed_def extra_data_def Let_def split: extra_data_projection.splits option.splits)

lemma optional_extra_data_Ok: "\<exists>d. optional_extra_data H p x = Ok d"
proof (cases x)
  case (Some v)
  then show ?thesis using extra_data_Ok [of H p v] by (auto simp: optional_extra_data_def)
qed (simp add: optional_extra_data_def)

lemma optional_extra_data_disclosed:
  "rel_option (same_disclosed p) x y \<Longrightarrow> optional_extra_data H p x = optional_extra_data H p y"
  by (cases x; cases y) (auto simp: optional_extra_data_def dest: extra_data_disclosed [where H = H])

lemma transfer_in_Ok: "\<exists>t. transfer_in H p v = Ok t"
  using optional_extra_data_Ok [of H p "ti_extra v"] by (auto simp: transfer_in_def)

lemma transfer_out_Ok: "\<exists>t. transfer_out H show_addr p v = Ok t"
  using optional_extra_data_Ok [of H p "to_extra v"] by (auto simp: transfer_out_def)

lemma transfer_in_disclosed:
  "rel_upstream_transfer_in (=) (same_disclosed p) v w \<Longrightarrow> transfer_in H p v = transfer_in H p w"
  by (cases v; cases w) (auto simp: transfer_in_def dest: optional_extra_data_disclosed [where H = H])

lemma transfer_out_disclosed:
  "rel_upstream_transfer_out (=) (=) (same_disclosed p) v w \<Longrightarrow> transfer_out H show_addr p v = transfer_out H show_addr p w"
  by (cases v; cases w) (auto simp: transfer_out_def dest: optional_extra_data_disclosed [where H = H])

lemma collect_results_total: "(\<And>x. \<exists>y. f x = Ok y) \<Longrightarrow> \<exists>ys. collect_results f xs = Ok ys"
  by (induction xs) (auto simp: result_simps, metis sum.distinct(1))

lemma collect_results_rel:
  assumes "list_all2 R xs ys" "\<And>x y. R x y \<Longrightarrow> f x = f y"
  shows "collect_results f xs = collect_results f ys"
  using assms(1) by (induction rule: list_all2_induct) (auto simp: assms(2))

lemma transaction_entry_data_Ok: "\<exists>d. transaction_entry_data H show_addr p e = Ok d"
proof (cases e)
  case (EIncoming a ts)
  then show ?thesis using collect_results_total [of "transfer_in H p" ts, OF transfer_in_Ok] by auto
next
  case (EOutgoing ts f n)
  then show ?thesis using collect_results_total [of "transfer_out H show_addr p" ts, OF transfer_out_Ok] by auto
next
  case (EOutgoingBlob a f n x)
  then show ?thesis using extra_data_Ok [of H p x] by auto
next
  case (EIncomingBlob a b x)
  then show ?thesis using extra_data_Ok [of H p x] by auto
qed auto

lemma transaction_entry_data_disclosed:
  assumes "rel_entry_type (=) (=) (same_disclosed p) e e'"
  shows "transaction_entry_data H show_addr p e = transaction_entry_data H show_addr p e'"
  using assms
proof (cases rule: entry_type.rel_cases)
  case (EIncoming a ts b us)
  then show ?thesis by (auto intro: collect_results_rel transfer_in_disclosed arg_cong)
next
  case (EOutgoing ts f n us g m)
  then show ?thesis by (auto intro: collect_results_rel transfer_out_disclosed arg_cong)
qed (auto simp: list.rel_eq option.rel_eq prod.rel_eq dest: extra_data_disclosed [where H = H])

section \<open>Properties\<close>

text \<open>
  C35: what an event shows depends on its extra data only as far as the subscription discloses it.  With
  the redacted projection that is the flag and whether there is a payload, with the metadata projection
  also the kind of the payload; two events that agree on this give the same business event.  The
  projection itself never fails.
\<close>

theorem disclosure_bounds_payload:
  assumes "rel_wallet_event (=) (same_disclosed p) e e'"
  shows "business_event_from_wallet_event up H show_addr p e = business_event_from_wallet_event up H show_addr p e' \<and>
    (\<exists>b. business_event_from_wallet_event up H show_addr p e = Ok b)"
  using assms
proof (cases rule: wallet_event.rel_cases)
  case (EvNewTransaction t u)
  then have "transaction_entry_data H show_addr p (ue_entry t) = transaction_entry_data H show_addr p (ue_entry u)"
    by (cases t; cases u) (auto intro: transaction_entry_data_disclosed)
  then show ?thesis
    using EvNewTransaction transaction_entry_data_Ok [of H show_addr p "ue_entry u"]
    by (cases t; cases u) (auto simp: transaction_entry_def)
next
  case (EvNewPendingTransaction t u)
  then have "transaction_entry_data H show_addr p (up_entry t) = transaction_entry_data H show_addr p (up_entry u)"
    by (cases t; cases u) (auto intro: transaction_entry_data_disclosed)
  then show ?thesis
    using EvNewPendingTransaction transaction_entry_data_Ok [of H show_addr p "up_entry u"]
    by (cases t; cases u) (auto simp: pending_transaction_def)
qed auto

theorem disclosure_bounds_payload_witness:
  "business_event_from_wallet_event demo_upstream_text demo_hash_api (\<lambda>a :: string. a) Redacted
     (EvNewPendingTransaction (UpstreamPending True 7 (EIncomingBlob ''mn'' [] (Plaintext (Some (DValue (DBool True))) FlagPrivate)))) =
   business_event_from_wallet_event demo_upstream_text demo_hash_api (\<lambda>a. a) Redacted
     (EvNewPendingTransaction (UpstreamPending True 7 (EIncomingBlob ''mn'' [] (Plaintext (Some (DArray [])) FlagPrivate))))"
  by (rule disclosure_bounds_payload [THEN conjunct1]) (simp add: same_disclosed_def)

text \<open>
  Every event of the wallet reaches the application on exactly one of the two streams.
\<close>

theorem events_partitioned:
  "runtime_event_from_wallet_event e = None \<longleftrightarrow> (\<exists>b. business_event_from_wallet_event up H show_addr p e = Ok (Some b))"
  using transaction_entry_data_Ok [of H show_addr p]
  by (cases e)
    (auto simp: transaction_entry_def pending_transaction_def result_simps split: sum.splits)

end
