(* ===== verification/Event_Streams.thy ===== *)
theory Event_Streams
  imports Business_Events Capability
begin

text \<open>
  The pull-driven event subscriptions of \<open>wallet/runtime_events.rs\<close> and \<open>wallet/business_events.rs\<close>.  The
  two are the same machine over different events and texts, so the machine is written once over a
  \<open>stream_contract\<close> that each of them fills in.  The upstream broadcast receiver is the list of what its
  \<open>recv\<close> calls return next; an empty list is a call that waits.
\<close>

section \<open>Subscriptions\<close>

datatype 'e recv = RecvOk 'e | RecvLagged u64 | RecvClosed

record 'e subscription =
  sub_generation :: u64
  sub_inbox :: "'e recv list"
  sub_signal :: bool
  sub_next_sequence :: u64
  sub_cancelled :: bool
  sub_in_progress :: bool
  sub_terminated :: bool

record 'n event_frame =
  fr_version :: u16
  fr_generation :: u64
  fr_sequence :: u64
  fr_event :: 'n

record ('e, 'n) stream_contract =
  sc_version :: u16
  sc_convert :: "'e \<Rightarrow> ('n option, native_xelis_error) result"
  sc_degraded :: "u64 \<Rightarrow> native_xelis_error \<Rightarrow> 'n"
  sc_closed :: "stream_close_reason \<Rightarrow> native_xelis_error \<Rightarrow> 'n"
  sc_lagged :: "string \<times> string"
  sc_stream_closed :: "string \<times> string"
  sc_busy :: "string \<times> string"
  sc_exhausted :: "string \<times> string"

definition new_subscription :: "u64 \<Rightarrow> 'e recv list \<Rightarrow> 'e subscription" where
  "new_subscription generation receiver =
     \<lparr> sub_generation = generation, sub_inbox = receiver, sub_signal = False, sub_next_sequence = 1,
       sub_cancelled = False, sub_in_progress = False, sub_terminated = False \<rparr>"

definition begin_next :: "('e, 'n) stream_contract \<Rightarrow> 'e subscription \<Rightarrow> ('e subscription, native_xelis_error) result" where
  "begin_next C sub =
     (if sub_in_progress sub
      then Err (xelis_wallet_flutter_error OperationInProgress (fst (sc_busy C)) (snd (sc_busy C)))
      else Ok (sub\<lparr> sub_in_progress := True \<rparr>))"

definition end_next :: "'e subscription \<Rightarrow> 'e subscription" where
  "end_next sub = sub\<lparr> sub_in_progress := False \<rparr>"

definition next_frame ::
  "('e, 'n) stream_contract \<Rightarrow> 'n \<Rightarrow> 'e subscription \<Rightarrow> ('n event_frame option, native_xelis_error) result \<times> 'e subscription" where
  "next_frame C ev sub =
     (case checked_add (sub_next_sequence sub) 1 of
        None \<Rightarrow>
          (Err (xelis_wallet_flutter_error Internal (fst (sc_exhausted C)) (snd (sc_exhausted C))), sub)
      | Some next_sequence \<Rightarrow>
          (Ok (Some \<lparr> fr_version = sc_version C, fr_generation = sub_generation sub,
              fr_sequence = sub_next_sequence sub, fr_event = ev \<rparr>),
           sub\<lparr> sub_next_sequence := next_sequence \<rparr>))"

definition lagged_error :: "('e, 'n) stream_contract \<Rightarrow> u64 \<Rightarrow> native_xelis_error" where
  "lagged_error C skipped_events =
     xelis_wallet_flutter_error StreamLagged (fst (sc_lagged C))
       (snd (sc_lagged C) @ '' event receiver skipped '' @ decimal_of_nat (unat skipped_events) @ '' upstream events'')"

definition closed_error :: "('e, 'n) stream_contract \<Rightarrow> native_xelis_error" where
  "closed_error C =
     xelis_wallet_flutter_error StreamClosedUnexpectedly (fst (sc_stream_closed C)) (snd (sc_stream_closed C))"

text \<open>The loop of \<open>next_event\<close>.  Without a result the call waits: nothing has arrived that it could return.\<close>

function next_loop ::
  "('e, 'n) stream_contract \<Rightarrow> 'e subscription
   \<Rightarrow> ('n event_frame option, native_xelis_error) result option \<times> 'e subscription" where
  "next_loop C sub =
     (if sub_cancelled sub then (Some (Ok None), sub)
      else if sub_signal sub then (Some (Ok None), sub\<lparr> sub_signal := False \<rparr>)
      else (case sub_inbox sub of
        [] \<Rightarrow> (None, sub)
      | RecvOk e # rest \<Rightarrow>
          (let sub = sub\<lparr> sub_inbox := rest \<rparr> in
           case sc_convert C e of
             Inl x \<Rightarrow> (Some (Err x), sub)
           | Inr None \<Rightarrow> next_loop C sub
           | Inr (Some ev) \<Rightarrow> (case next_frame C ev sub of (r, sub) \<Rightarrow> (Some r, sub)))
      | RecvLagged skipped_events # rest \<Rightarrow>
          (case next_frame C (sc_degraded C skipped_events (lagged_error C skipped_events))
             (sub\<lparr> sub_inbox := rest \<rparr>) of (r, sub) \<Rightarrow> (Some r, sub))
      | RecvClosed # rest \<Rightarrow>
          (case next_frame C (sc_closed C NativeChannelClosed (closed_error C))
             (sub\<lparr> sub_inbox := rest, sub_terminated := True \<rparr>) of (r, sub) \<Rightarrow> (Some r, sub))))"
  by pat_completeness auto
termination
  by (relation "measure (\<lambda>(C, sub). length (sub_inbox sub))") auto

declare next_loop.simps [simp del]

text \<open>A call that waits is resumed when something arrives or it is cancelled.\<close>

definition resume_next ::
  "('e, 'n) stream_contract \<Rightarrow> 'e subscription
   \<Rightarrow> ('n event_frame option, native_xelis_error) result option \<times> 'e subscription" where
  "resume_next C sub =
     (case next_loop C sub of
        (None, sub) \<Rightarrow> (None, sub)
      | (Some r, sub) \<Rightarrow> (Some r, end_next sub))"

definition next_event ::
  "('e, 'n) stream_contract \<Rightarrow> 'e subscription
   \<Rightarrow> ('n event_frame option, native_xelis_error) result option \<times> 'e subscription" where
  "next_event C sub =
     (case begin_next C sub of
        Inl e \<Rightarrow> (Some (Err e), sub)
      | Inr sub \<Rightarrow>
          if sub_cancelled sub \<or> sub_terminated sub then (Some (Ok None), end_next sub)
          else resume_next C sub)"

definition cancel_internal :: "'e subscription \<Rightarrow> 'e subscription" where
  "cancel_internal sub =
     (if sub_cancelled sub then sub else sub\<lparr> sub_cancelled := True, sub_signal := True \<rparr>)"

section \<open>The two streams\<close>

definition runtime_stream :: "(('a, 'h, 'x) wallet_event, runtime_event) stream_contract" where
  "runtime_stream =
     \<lparr> sc_version = NATIVE_WALLET_RUNTIME_EVENT_VERSION,
       sc_convert = (\<lambda>e. Ok (runtime_event_from_wallet_event e)),
       sc_degraded = RDegraded, sc_closed = RClosed,
       sc_lagged = (''WALLET_EVENTS_LAGGED'', ''Runtime''),
       sc_stream_closed = (''WALLET_EVENT_STREAM_CLOSED'',
         ''Native wallet event channel closed while the subscription was active''),
       sc_busy = (''WALLET_EVENT_NEXT_IN_PROGRESS'',
         ''Only one runtime event read may be active per subscription''),
       sc_exhausted = (''WALLET_EVENT_SEQUENCE_EXHAUSTED'', ''Runtime event sequence exhausted u64'') \<rparr>"

definition business_stream ::
  "upstream_text \<Rightarrow> 'h hash_api \<Rightarrow> ('a \<Rightarrow> string) \<Rightarrow> extra_data_projection
   \<Rightarrow> (('a, 'h, 'h plaintext_extra_data) wallet_event, business_event) stream_contract" where
  "business_stream up H show_addr projection =
     \<lparr> sc_version = NATIVE_WALLET_BUSINESS_EVENT_VERSION,
       sc_convert = business_event_from_wallet_event up H show_addr projection,
       sc_degraded = BDegraded, sc_closed = BClosed,
       sc_lagged = (''WALLET_BUSINESS_EVENTS_LAGGED'', ''Business''),
       sc_stream_closed = (''WALLET_BUSINESS_EVENT_STREAM_CLOSED'',
         ''Native wallet business event channel closed while the subscription was active''),
       sc_busy = (''WALLET_BUSINESS_EVENT_NEXT_IN_PROGRESS'',
         ''Only one business event read may be active per subscription''),
       sc_exhausted = (''WALLET_BUSINESS_EVENT_SEQUENCE_EXHAUSTED'', ''Business event sequence exhausted u64'') \<rparr>"

definition next_runtime_event_generation :: "u64 \<Rightarrow> (u64, native_xelis_error) result \<times> u64" where
  "next_runtime_event_generation current_generation =
     (case checked_add current_generation 1 of
        None \<Rightarrow> (Err (xelis_wallet_flutter_error Internal ''WALLET_EVENT_GENERATION_EXHAUSTED''
          ''Runtime event subscription generation exhausted u64''), current_generation)
      | Some g \<Rightarrow> (Ok g, g))"

definition next_business_event_generation :: "u64 \<Rightarrow> (u64, native_xelis_error) result \<times> u64" where
  "next_business_event_generation current_generation =
     (case checked_add current_generation 1 of
        None \<Rightarrow> (Err (xelis_wallet_flutter_error Internal ''WALLET_BUSINESS_EVENT_GENERATION_EXHAUSTED''
          ''Business event subscription generation exhausted u64''), current_generation)
      | Some g \<Rightarrow> (Ok g, g))"

definition subscribe_runtime_events ::
  "'e recv list \<Rightarrow> u64 \<Rightarrow> ('e subscription, native_xelis_error) result \<times> u64" where
  "subscribe_runtime_events receiver generation =
     (case next_runtime_event_generation generation of
        (r, generation) \<Rightarrow> (map_ok (\<lambda>g. new_subscription g receiver) r, generation))"

text \<open>A business subscription keeps the projection it was opened with.\<close>

definition subscribe_business_events ::
  "extra_data_disclosure \<Rightarrow> 'e recv list \<Rightarrow> u64
   \<Rightarrow> ('e subscription \<times> extra_data_projection, native_xelis_error) result \<times> u64" where
  "subscribe_business_events disclosure receiver generation =
     (case next_business_event_generation generation of
        (r, generation) \<Rightarrow> (map_ok (\<lambda>g. (new_subscription g receiver, from_disclosure disclosure)) r, generation))"

interpretation runtime_generation: generation_source next_runtime_event_generation "\<lambda>g. g"
  by unfold_locales
    (auto simp: next_runtime_event_generation_def checked_add_Some checked_succ_None split: option.splits)

interpretation business_generation: generation_source next_business_event_generation "\<lambda>g. g"
  by unfold_locales
    (auto simp: next_business_event_generation_def checked_add_Some checked_succ_None split: option.splits)

section \<open>Runs of a subscription\<close>

text \<open>
  The run of a subscription remembers what arrived and which frames were returned.  Calls, their
  resumption and cancellation come in any order.
\<close>

record ('e, 'n) stream_run =
  sr_sub :: "'e subscription"
  sr_arrived :: "'e recv list"
  sr_frames :: "'n event_frame list"

definition frames_of :: "('n event_frame option, native_xelis_error) result option \<Rightarrow> 'n event_frame list" where
  "frames_of r = (case r of Some (Inr (Some f)) \<Rightarrow> [f] | _ \<Rightarrow> [])"

inductive stream_step :: "('e, 'n) stream_contract \<Rightarrow> ('e, 'n) stream_run \<Rightarrow> ('e, 'n) stream_run \<Rightarrow> bool" for C where
  arrive: "stream_step C s (s\<lparr> sr_sub := (sr_sub s)\<lparr> sub_inbox := sub_inbox (sr_sub s) @ [r] \<rparr>,
     sr_arrived := sr_arrived s @ [r] \<rparr>)"
| call: "next_event C (sr_sub s) = (r, sub) \<Longrightarrow>
     stream_step C s (s\<lparr> sr_sub := sub, sr_frames := sr_frames s @ frames_of r \<rparr>)"
| resume: "sub_in_progress (sr_sub s) \<Longrightarrow> resume_next C (sr_sub s) = (r, sub) \<Longrightarrow>
     stream_step C s (s\<lparr> sr_sub := sub, sr_frames := sr_frames s @ frames_of r \<rparr>)"
| cancel: "stream_step C s (s\<lparr> sr_sub := cancel_internal (sr_sub s) \<rparr>)"

definition opened :: "u64 \<Rightarrow> 'e recv list \<Rightarrow> ('e, 'n) stream_run" where
  "opened g receiver = \<lparr> sr_sub = new_subscription g receiver, sr_arrived = receiver, sr_frames = [] \<rparr>"

text \<open>The reference: what a list of arrivals amounts to for the application.\<close>

fun shown :: "('e, 'n) stream_contract \<Rightarrow> 'e recv \<Rightarrow> 'n list" where
  "shown C (RecvOk e) = (case sc_convert C e of Inr (Some n) \<Rightarrow> [n] | _ \<Rightarrow> [])"
| "shown C (RecvLagged k) = [sc_degraded C k (lagged_error C k)]"
| "shown C RecvClosed = [sc_closed C NativeChannelClosed (closed_error C)]"

definition delivered :: "('e, 'n) stream_contract \<Rightarrow> 'e recv list \<Rightarrow> 'n list" where
  "delivered C rs = concat (map (shown C) rs)"

lemma delivered_simps [simp]:
  "delivered C [] = []" "delivered C (r # rs) = shown C r @ delivered C rs"
  "delivered C (rs @ rs') = delivered C rs @ delivered C rs'"
  by (simp_all add: delivered_def)

text \<open>What one read does: it takes a prefix of the inbox and returns at most one frame of it, the next in sequence.\<close>

definition reads_to ::
  "('e, 'n) stream_contract \<Rightarrow> 'e subscription \<Rightarrow> ('n event_frame option, native_xelis_error) result option
   \<Rightarrow> 'e subscription \<Rightarrow> bool" where
  "reads_to C sub r sub' \<longleftrightarrow>
     (\<exists>taken. sub_inbox sub = taken @ sub_inbox sub' \<and>
        map fr_event (frames_of r) = delivered C taken \<and>
        (\<forall>f\<in>set (frames_of r). fr_sequence f = sub_next_sequence sub \<and> fr_generation f = sub_generation sub \<and>
           fr_version f = sc_version C) \<and>
        unat (sub_next_sequence sub') = unat (sub_next_sequence sub) + length (frames_of r)) \<and>
     sub_generation sub' = sub_generation sub"

lemma next_frame_Ok:
  assumes "unat (sub_next_sequence sub) < 2 ^ 64 - 1"
  obtains n where "next_frame C ev sub =
    (Ok (Some \<lparr> fr_version = sc_version C, fr_generation = sub_generation sub,
        fr_sequence = sub_next_sequence sub, fr_event = ev \<rparr>), sub\<lparr> sub_next_sequence := n \<rparr>)"
    "unat n = unat (sub_next_sequence sub) + 1"
proof -
  obtain n where n: "checked_add (sub_next_sequence sub) 1 = Some n"
    using assms by (cases "checked_add (sub_next_sequence sub) 1") (auto simp: checked_add_None)
  show thesis by (rule that [of n]) (use n in \<open>simp add: next_frame_def\<close>, use n in \<open>simp add: checked_add_Some\<close>)
qed

lemma next_loop_cases:
  shows stopped: "sub_cancelled sub \<or> sub_signal sub \<Longrightarrow>
      \<exists>b. next_loop C sub = (Some (Ok None), sub\<lparr> sub_signal := b \<rparr>)"
    and waits: "\<not> sub_cancelled sub \<Longrightarrow> \<not> sub_signal sub \<Longrightarrow> sub_inbox sub = [] \<Longrightarrow> next_loop C sub = (None, sub)"
    and takes: "\<not> sub_cancelled sub \<Longrightarrow> \<not> sub_signal sub \<Longrightarrow> sub_inbox sub = x # rest \<Longrightarrow>
      next_loop C sub =
        (case x of
           RecvOk e \<Rightarrow>
             (case sc_convert C e of
                Inl y \<Rightarrow> (Some (Err y), sub\<lparr> sub_inbox := rest \<rparr>)
              | Inr None \<Rightarrow> next_loop C (sub\<lparr> sub_inbox := rest \<rparr>)
              | Inr (Some ev) \<Rightarrow> apfst Some (next_frame C ev (sub\<lparr> sub_inbox := rest \<rparr>)))
         | RecvLagged k \<Rightarrow>
             apfst Some (next_frame C (sc_degraded C k (lagged_error C k)) (sub\<lparr> sub_inbox := rest \<rparr>))
         | RecvClosed \<Rightarrow>
             apfst Some (next_frame C (sc_closed C NativeChannelClosed (closed_error C))
               (sub\<lparr> sub_inbox := rest, sub_terminated := True \<rparr>)))"
proof -
  show "\<exists>b. next_loop C sub = (Some (Ok None), sub\<lparr> sub_signal := b \<rparr>)" if "sub_cancelled sub \<or> sub_signal sub"
    using that by (cases "sub_cancelled sub") (auto simp: next_loop.simps [of C sub] intro: exI [of _ "sub_signal sub"])
qed (simp_all add: next_loop.simps [of C sub] Let_def apfst_def map_prod_def split: recv.split sum.split option.split prod.split)

lemma reads_nothing:
  "frames_of r = [] \<Longrightarrow> sub_inbox sub' = sub_inbox sub \<Longrightarrow> sub_next_sequence sub' = sub_next_sequence sub \<Longrightarrow>
    sub_generation sub' = sub_generation sub \<Longrightarrow> reads_to C sub r sub'"
  by (auto simp: reads_to_def intro: exI [of _ "[]"])

lemma reads_skipped:
  assumes "sub_inbox sub = x # rest" "shown C x = []" "reads_to C (sub\<lparr> sub_inbox := rest \<rparr>) r sub'"
  shows "reads_to C sub r sub'"
proof -
  obtain taken where "rest = taken @ sub_inbox sub'" "map fr_event (frames_of r) = delivered C taken"
    "\<forall>f\<in>set (frames_of r). fr_sequence f = sub_next_sequence sub \<and> fr_generation f = sub_generation sub \<and>
       fr_version f = sc_version C"
    "unat (sub_next_sequence sub') = unat (sub_next_sequence sub) + length (frames_of r)"
    using assms(3) by (auto simp: reads_to_def)
  then show ?thesis
    using assms unfolding reads_to_def by (intro conjI exI [of _ "x # taken"]) simp_all
qed

lemma reads_frame:
  assumes "sub_inbox sub = x # rest" "shown C x = [ev]" "next_frame C ev mid = (r, sub')"
    and "sub_inbox mid = rest" "sub_next_sequence mid = sub_next_sequence sub" "sub_generation mid = sub_generation sub"
    and "unat (sub_next_sequence sub) < 2 ^ 64 - 1"
  shows "reads_to C sub (Some r) sub' \<and> sub_cancelled sub' = sub_cancelled mid \<and>
    sub_terminated sub' = sub_terminated mid \<and> sub_in_progress sub' = sub_in_progress mid"
proof -
  obtain n where n: "next_frame C ev mid =
    (Ok (Some \<lparr> fr_version = sc_version C, fr_generation = sub_generation mid,
        fr_sequence = sub_next_sequence mid, fr_event = ev \<rparr>), mid\<lparr> sub_next_sequence := n \<rparr>)"
    "unat n = unat (sub_next_sequence mid) + 1"
    using next_frame_Ok [of mid C ev] assms(5,7) by metis
  then show ?thesis
    using assms by (auto simp: reads_to_def frames_of_def intro!: exI [of _ "[x]"])
qed

lemma next_loop_reads:
  assumes "unat (sub_next_sequence sub) < 2 ^ 64 - 1" "next_loop C sub = (r, sub')"
  shows "reads_to C sub r sub' \<and> sub_cancelled sub' = sub_cancelled sub \<and>
    (r = None \<longrightarrow> sub_inbox sub' = [] \<and> sub_terminated sub' = sub_terminated sub) \<and>
    sub_in_progress sub' = sub_in_progress sub"
  using assms
proof (induction "length (sub_inbox sub)" arbitrary: sub)
  case 0
  then show ?case
    by (cases "sub_cancelled sub \<or> sub_signal sub")
      (use stopped [of sub C] waits [of sub C] in \<open>auto intro: reads_nothing simp: frames_of_def\<close>)
next
  case (Suc m)
  show ?case
  proof (cases "sub_cancelled sub \<or> sub_signal sub")
    case True
    then show ?thesis
      using stopped [of sub C] Suc.prems(2) by (auto intro: reads_nothing simp: frames_of_def)
  next
    case go: False
    then obtain x rest where inbox: "sub_inbox sub = x # rest" using Suc.hyps(2) by (cases "sub_inbox sub") auto
    let ?sub = "sub\<lparr> sub_inbox := rest \<rparr>"
    note run = takes [of sub x rest C] Suc.prems(2) go inbox
    show ?thesis
    proof (cases "shown C x")
      case Nil
      then obtain e where e: "x = RecvOk e" "\<forall>ev. sc_convert C e \<noteq> Ok (Some ev)"
        by (cases x) (auto split: sum.splits option.splits)
      show ?thesis
      proof (cases "sc_convert C e")
        case (Inl y)
        then have "r = Some (Err y)" "sub' = ?sub" using run e by auto
        then show ?thesis using reads_skipped [OF inbox Nil reads_nothing] by (simp add: frames_of_def)
      next
        case (Inr o')
        then have "next_loop C ?sub = (r, sub')" using run e by (cases o') auto
        then show ?thesis
          using Suc.hyps(1) [of ?sub] Suc.hyps(2) Suc.prems(1) inbox reads_skipped [OF inbox Nil] by simp
      qed
    next
      case (Cons ev evs)
      then have one: "shown C x = [ev]" by (cases x) (auto split: sum.splits option.splits)
      let ?mid = "if x = RecvClosed then ?sub\<lparr> sub_terminated := True \<rparr> else ?sub"
      have "(r, sub') = apfst Some (next_frame C ev ?mid)"
        using run one by (cases x) (auto split: sum.splits option.splits)
      then obtain q where q: "next_frame C ev ?mid = (q, sub')" "r = Some q"
        by (cases "next_frame C ev ?mid") auto
      show ?thesis
        using reads_frame [OF inbox one q(1)] Suc.prems(1) q(2) by (simp split: if_splits)
    qed
  qed
qed

lemma resume_reads:
  assumes "unat (sub_next_sequence sub) < 2 ^ 64 - 1" "resume_next C sub = (r, sub')"
  shows "reads_to C sub r sub'" "sub_cancelled sub' = sub_cancelled sub"
    "r = None \<Longrightarrow> sub_in_progress sub' = sub_in_progress sub \<and> sub_terminated sub' = sub_terminated sub"
    "r \<noteq> None \<Longrightarrow> \<not> sub_in_progress sub'"
proof -
  obtain q mid where loop: "next_loop C sub = (q, mid)" by fastforce
  have res: "r = q" "sub' = (if q = None then mid else end_next mid)"
    using assms(2) loop by (auto simp: resume_next_def split: option.splits)
  note reads = next_loop_reads [OF assms(1) loop]
  show "reads_to C sub r sub'" "sub_cancelled sub' = sub_cancelled sub"
    "r = None \<Longrightarrow> sub_in_progress sub' = sub_in_progress sub \<and> sub_terminated sub' = sub_terminated sub"
    "r \<noteq> None \<Longrightarrow> \<not> sub_in_progress sub'"
    using reads res by (auto simp: reads_to_def end_next_def)
qed

text \<open>The invariant of a run.\<close>

definition stream_inv :: "('e, 'n) stream_contract \<Rightarrow> u64 \<Rightarrow> ('e, 'n) stream_run \<Rightarrow> bool" where
  "stream_inv C g s \<longleftrightarrow>
     (\<exists>taken. sr_arrived s = taken @ sub_inbox (sr_sub s) \<and> map fr_event (sr_frames s) = delivered C taken) \<and>
     map (\<lambda>f. unat (fr_sequence f)) (sr_frames s) = [1..<1 + length (sr_frames s)] \<and>
     (\<forall>f\<in>set (sr_frames s). fr_generation f = g \<and> fr_version f = sc_version C) \<and>
     unat (sub_next_sequence (sr_sub s)) = 1 + length (sr_frames s) \<and>
     length (sr_frames s) \<le> length (sr_arrived s) - length (sub_inbox (sr_sub s)) \<and>
     sub_generation (sr_sub s) = g \<and> (sub_terminated (sr_sub s) \<longrightarrow> \<not> sub_in_progress (sr_sub s))"

lemma shown_at_most_one: "length (shown C x) \<le> 1"
  by (cases x) (auto split: sum.split option.split)

lemma delivered_le: "length (delivered C xs) \<le> length xs"
proof (induction xs)
  case (Cons x xs)
  then show ?case using shown_at_most_one [of C x] by simp
qed simp

lemma frames_of_le: "length (frames_of r) \<le> 1"
  by (auto simp: frames_of_def split: option.split sum.split)

lemma stream_inv_read:
  assumes inv: "stream_inv C g s" and reads: "reads_to C sub r sub'"
    and sub: "sub_inbox sub = sub_inbox (sr_sub s)" "sub_next_sequence sub = sub_next_sequence (sr_sub s)"
      "sub_generation sub = sub_generation (sr_sub s)"
    and idle: "sub_terminated sub' \<longrightarrow> \<not> sub_in_progress sub'"
  shows "stream_inv C g (s\<lparr> sr_sub := sub', sr_frames := sr_frames s @ frames_of r \<rparr>)"
proof -
  obtain old where old: "sr_arrived s = old @ sub_inbox (sr_sub s)" "map fr_event (sr_frames s) = delivered C old"
    using inv by (auto simp: stream_inv_def)
  obtain taken where t: "sub_inbox (sr_sub s) = taken @ sub_inbox sub'" "map fr_event (frames_of r) = delivered C taken"
    "\<forall>f\<in>set (frames_of r). fr_sequence f = sub_next_sequence (sr_sub s) \<and> fr_generation f = g \<and> fr_version f = sc_version C"
    "unat (sub_next_sequence sub') = unat (sub_next_sequence (sr_sub s)) + length (frames_of r)" "sub_generation sub' = g"
    using reads sub inv by (auto simp: reads_to_def stream_inv_def)
  let ?n = "length (sr_frames s)"
  have seq: "unat (sub_next_sequence (sr_sub s)) = 1 + ?n" using inv by (simp add: stream_inv_def)
  have "map (\<lambda>f. unat (fr_sequence f)) (frames_of r) = [1 + ?n..<1 + ?n + length (frames_of r)]"
    using t(3) seq frames_of_le [of r] by (cases "frames_of r") auto
  then have "map (\<lambda>f. unat (fr_sequence f)) (sr_frames s @ frames_of r) = [1..<1 + length (sr_frames s @ frames_of r)]"
    using inv upt_add_eq_append [of 1 "1 + ?n" "length (frames_of r)"]
    by (simp add: stream_inv_def del: upt_Suc)
  moreover have "length (sr_frames s @ frames_of r) \<le> length (sr_arrived s) - length (sub_inbox sub')"
  proof -
    have "length (sr_frames s) = length (delivered C old)" "length (frames_of r) = length (delivered C taken)"
      using old(2) t(2) by (metis length_map)+
    then show ?thesis using delivered_le [of C old] delivered_le [of C taken] old(1) t(1) by simp
  qed
  moreover have "sr_arrived s = (old @ taken) @ sub_inbox sub'"
    "map fr_event (sr_frames s @ frames_of r) = delivered C (old @ taken)"
    using old t(1,2) by simp_all
  ultimately show ?thesis
    using inv t(3-5) seq idle unfolding stream_inv_def by (auto intro!: exI [of _ "old @ taken"])
qed

lemma end_begin: "\<not> sub_in_progress sub \<Longrightarrow> end_next (sub\<lparr> sub_in_progress := True \<rparr>) = sub"
  by (cases sub) (simp add: end_next_def)

lemma next_event_cases:
  assumes "next_event C sub = (r, sub')"
  obtains (busy) e where "sub_in_progress sub" "r = Some (Err e)" "sub' = sub"
  | (over) "\<not> sub_in_progress sub" "sub_cancelled sub \<or> sub_terminated sub" "r = Some (Ok None)" "sub' = sub"
  | (reads) "\<not> sub_in_progress sub" "\<not> sub_cancelled sub" "\<not> sub_terminated sub"
      "resume_next C (sub\<lparr> sub_in_progress := True \<rparr>) = (r, sub')"
proof (cases "sub_in_progress sub")
  case True
  then obtain e where "next_event C sub = (Some (Err e), sub)" by (simp add: next_event_def begin_next_def)
  then show thesis using busy [OF True, of e] assms by simp
next
  case False
  show thesis
  proof (cases "sub_cancelled sub \<or> sub_terminated sub")
    case True
    then have "next_event C sub = (Some (Ok None), sub)"
      using False end_begin [of sub] by (simp add: next_event_def begin_next_def)
    then show thesis using over [OF False True] assms by simp
  next
    case live: False
    then have "next_event C sub = resume_next C (sub\<lparr> sub_in_progress := True \<rparr>)"
      using False by (simp add: next_event_def begin_next_def)
    then show thesis using reads [OF False] live assms by simp
  qed
qed

lemma stream_inv_step:
  assumes "stream_step C s s'" "stream_inv C g s" "length (sr_arrived s) < 2 ^ 64 - 2"
  shows "stream_inv C g s'"
proof -
  have bound: "unat (sub_next_sequence (sr_sub s)) < 2 ^ 64 - 1"
    using assms(2,3) by (auto simp: stream_inv_def)
  show ?thesis
    using assms(1)
  proof cases
    case (arrive r)
    then show ?thesis using assms(2) by (auto simp: stream_inv_def)
  next
    case (call r sub)
    from call(2) show ?thesis
    proof (cases rule: next_event_cases)
      case reads
      from bound have "unat (sub_next_sequence (sr_sub s\<lparr> sub_in_progress := True \<rparr>)) < 2 ^ 64 - 1" by simp
      note rd = resume_reads [OF this reads(4)]
      have "sub_terminated sub \<longrightarrow> \<not> sub_in_progress sub" using rd(3,4) reads(3) by (cases r) auto
      then show ?thesis unfolding call(1) using stream_inv_read [OF assms(2) rd(1)] by simp
    qed (use call assms(2) in \<open>auto simp: stream_inv_def frames_of_def\<close>)
  next
    case (resume r sub)
    note rd = resume_reads [OF bound resume(3)]
    have "\<not> sub_terminated (sr_sub s)" using assms(2) resume(2) by (auto simp: stream_inv_def)
    then have "sub_terminated sub \<longrightarrow> \<not> sub_in_progress sub" using rd(3,4) by (cases r) auto
    then show ?thesis unfolding resume(1) using stream_inv_read [OF assms(2) rd(1)] by simp
  next
    case cancel
    then show ?thesis using assms(2) by (auto simp: stream_inv_def cancel_internal_def)
  qed
qed

lemma arrived_mono: "stream_step C s s' \<Longrightarrow> length (sr_arrived s) \<le> length (sr_arrived s')"
  by (cases rule: stream_step.cases) auto

lemma stream_inv_steps:
  assumes "(stream_step C)\<^sup>*\<^sup>* s s'" "stream_inv C g s" "length (sr_arrived s') < 2 ^ 64 - 2"
  shows "stream_inv C g s'"
  using assms
proof (induction rule: rtranclp_induct)
  case (step t u)
  have "length (sr_arrived t) < 2 ^ 64 - 2" using arrived_mono [OF step(2)] step.prems(2) by simp
  then show ?case using stream_inv_step [OF step(2)] step.IH step.prems(1) by simp
qed simp

lemma stream_inv_opened: "stream_inv C g (opened g receiver)"
  by (simp add: stream_inv_def opened_def new_subscription_def)

lemma over_step:
  assumes "stream_step C s s'" "stream_inv C g s" "sub_cancelled (sr_sub s) \<or> sub_terminated (sr_sub s)"
  shows "sr_frames s' = sr_frames s \<and> (sub_cancelled (sr_sub s') \<or> sub_terminated (sr_sub s'))"
  using assms(1)
proof cases
  case (call r sub)
  from call(2) show ?thesis
    by (cases rule: next_event_cases) (use call(1) assms(3) in \<open>auto simp: frames_of_def\<close>)
next
  case (resume r sub)
  then have "sub_cancelled (sr_sub s)" using assms(2,3) by (auto simp: stream_inv_def)
  then obtain b where "next_loop C (sr_sub s) = (Some (Ok None), (sr_sub s)\<lparr> sub_signal := b \<rparr>)"
    using stopped [of "sr_sub s" C] by blast
  then have "r = Some (Ok None)" "sub_cancelled sub"
    using resume(3) \<open>sub_cancelled (sr_sub s)\<close> by (auto simp: resume_next_def end_next_def)
  then show ?thesis using resume(1) by (simp add: frames_of_def)
qed (use assms(3) in \<open>auto simp: cancel_internal_def\<close>)

section \<open>Properties\<close>

text \<open>
  C29: whatever the order of arrivals, reads, waits and cancellations, the frames returned by a
  subscription are exactly what the arrivals it has taken amount to, in their order and with nothing
  left out; they carry the numbers 1, 2, 3 and so on, and the generation of the subscription.  This is
  for fewer than 2^64 - 2 arrivals, the range of the sequence number.
\<close>

theorem stream_delivers_in_order:
  assumes "(stream_step C)\<^sup>*\<^sup>* (opened g receiver) s" "length (sr_arrived s) < 2 ^ 64 - 2"
  shows "\<exists>taken. sr_arrived s = taken @ sub_inbox (sr_sub s) \<and>
    map fr_event (sr_frames s) = delivered C taken \<and>
    map (\<lambda>f. unat (fr_sequence f)) (sr_frames s) = [1..<1 + length (sr_frames s)] \<and>
    (\<forall>f\<in>set (sr_frames s). fr_generation f = g \<and> fr_version f = sc_version C)"
  using stream_inv_steps [OF assms(1) stream_inv_opened assms(2)] by (auto simp: stream_inv_def)

definition demo_online :: "(bool, bool, bool) wallet_event recv list" where
  "demo_online = [RecvOk (EvTrackAsset True), RecvOk EvOnline]"

lemma demo_first_read:
  "next_event runtime_stream (new_subscription 1 demo_online) =
     (Some (Ok (Some \<lparr> fr_version = 1, fr_generation = 1, fr_sequence = 1, fr_event = ROnline \<rparr>)),
      (new_subscription 1 [])\<lparr> sub_next_sequence := 2 \<rparr>)"
  by (simp add: next_event_def begin_next_def new_subscription_def resume_next_def end_next_def demo_online_def
      next_loop.simps next_frame_def checked_add_def runtime_stream_def NATIVE_WALLET_RUNTIME_EVENT_VERSION_def)

theorem stream_delivers_in_order_witness:
  "\<exists>s. (stream_step runtime_stream)\<^sup>*\<^sup>* (opened 1 demo_online) s \<and> map fr_event (sr_frames s) = [ROnline] \<and>
     map (\<lambda>f. unat (fr_sequence f)) (sr_frames s) = [1]"
proof -
  let ?sub = "(new_subscription 1 [])\<lparr> sub_next_sequence := 2 \<rparr> :: (bool, bool, bool) wallet_event subscription"
  let ?f = "\<lparr> fr_version = 1, fr_generation = 1, fr_sequence = 1, fr_event = ROnline \<rparr>"
  let ?s = "(opened 1 demo_online)\<lparr> sr_sub := ?sub, sr_frames := [] @ frames_of (Some (Ok (Some ?f))) \<rparr>"
  have "stream_step runtime_stream (opened 1 demo_online) ?s"
    using call [of runtime_stream "opened 1 demo_online"] demo_first_read by (simp add: opened_def)
  then have run: "(stream_step runtime_stream)\<^sup>*\<^sup>* (opened 1 demo_online) ?s" by (rule r_into_rtranclp)
  have "map (\<lambda>f. unat (fr_sequence f)) (sr_frames ?s) = [1..<1 + length (sr_frames ?s)]"
    using stream_delivers_in_order [OF run] by (auto simp: opened_def demo_online_def)
  then show ?thesis using run by (intro exI [of _ ?s]) (simp add: frames_of_def)
qed

text \<open>
  C30: a subscription that was cancelled, or whose channel was reported closed, returns no frame ever
  again, and a read that was waiting when the subscription is cancelled returns at once, empty.
\<close>

theorem ended_stream_is_silent:
  assumes "(stream_step C)\<^sup>*\<^sup>* (opened g receiver) s" "(stream_step C)\<^sup>*\<^sup>* s s'"
    and "length (sr_arrived s') < 2 ^ 64 - 2" "sub_cancelled (sr_sub s) \<or> sub_terminated (sr_sub s)"
  shows "sr_frames s' = sr_frames s \<and>
    (\<exists>sub. resume_next C (cancel_internal (sr_sub s')) = (Some (Ok None), sub) \<and> \<not> sub_in_progress sub)"
proof -
  have "sr_frames s' = sr_frames s \<and> (sub_cancelled (sr_sub s') \<or> sub_terminated (sr_sub s'))"
    using assms(2,3)
  proof (induction rule: rtranclp_induct)
    case (step t u)
    have small: "length (sr_arrived t) < 2 ^ 64 - 2" using arrived_mono [OF step(2)] step.prems by simp
    have "(stream_step C)\<^sup>*\<^sup>* (opened g receiver) t" using assms(1) step(1) by (rule rtranclp_trans)
    then have "stream_inv C g t" using stream_inv_steps [OF _ stream_inv_opened small] by blast
    then show ?case using over_step [OF step(2)] step.IH [OF small] by simp
  qed (use assms(4) in simp)
  moreover have "sub_cancelled (cancel_internal (sr_sub s'))" by (simp add: cancel_internal_def)
  then obtain b where "next_loop C (cancel_internal (sr_sub s')) =
    (Some (Ok None), (cancel_internal (sr_sub s'))\<lparr> sub_signal := b \<rparr>)"
    using stopped by blast
  ultimately show ?thesis by (simp add: resume_next_def end_next_def)
qed

theorem ended_stream_is_silent_witness:
  "\<exists>sub. resume_next runtime_stream (cancel_internal (new_subscription 1 demo_online)) = (Some (Ok None), sub) \<and>
     \<not> sub_in_progress sub"
proof -
  let ?o = "opened 1 demo_online :: ((bool, bool, bool) wallet_event, runtime_event) stream_run"
  let ?s = "?o\<lparr> sr_sub := cancel_internal (sr_sub ?o) \<rparr>"
  have run: "(stream_step runtime_stream)\<^sup>*\<^sup>* ?o ?s"
    by (rule r_into_rtranclp, rule cancel)
  have small: "length (sr_arrived ?s) < 2 ^ 64 - 2" by (simp add: opened_def demo_online_def)
  have over: "sub_cancelled (sr_sub ?s) \<or> sub_terminated (sr_sub ?s)" by (simp add: cancel_internal_def)
  have "cancel_internal (sr_sub ?s) = cancel_internal (new_subscription 1 demo_online)"
    by (simp add: cancel_internal_def opened_def new_subscription_def)
  with ended_stream_is_silent [OF run rtranclp.rtrancl_refl small over] show ?thesis by simp
qed

text \<open>
  C31: a read returns.  The loop ends for every inbox, and it waits only when it was not cancelled and
  nothing that arrived amounts to a frame or an error; then it has taken the whole inbox.
\<close>

theorem read_returns:
  assumes "next_loop C sub = (r, sub')" "unat (sub_next_sequence sub) < 2 ^ 64 - 1"
  shows "r = None \<longleftrightarrow> \<not> sub_cancelled sub \<and> \<not> sub_signal sub \<and>
    (\<forall>x\<in>set (sub_inbox sub). \<exists>e. x = RecvOk e \<and> sc_convert C e = Ok None)"
  using assms
proof (induction "length (sub_inbox sub)" arbitrary: sub)
  case 0
  then show ?case
    by (cases "sub_cancelled sub \<or> sub_signal sub") (use stopped [of sub C] waits [of sub C] in auto)
next
  case (Suc m)
  show ?case
  proof (cases "sub_cancelled sub \<or> sub_signal sub")
    case True
    then show ?thesis using stopped [of sub C] Suc.prems(1) by auto
  next
    case go: False
    then obtain x rest where inbox: "sub_inbox sub = x # rest" using Suc.hyps(2) by (cases "sub_inbox sub") auto
    note run = takes [of sub x rest C] Suc.prems(1) go inbox
    show ?thesis
    proof (cases "\<exists>e. x = RecvOk e \<and> sc_convert C e = Ok None")
      case True
      then have "next_loop C (sub\<lparr> sub_inbox := rest \<rparr>) = (r, sub')" using run by auto
      then show ?thesis
        using Suc.hyps(1) [of "sub\<lparr> sub_inbox := rest \<rparr>"] Suc.hyps(2) Suc.prems(2) inbox True go by auto
    next
      case False
      then have "r \<noteq> None"
        using run by (cases x) (auto simp: apfst_def map_prod_def split: sum.splits option.splits prod.splits)
      then show ?thesis using False inbox by auto
    qed
  qed
qed

theorem read_returns_witness:
  "fst (next_loop runtime_stream (new_subscription 1 [RecvOk (EvTrackAsset True :: (bool, bool, bool) wallet_event)])) = None"
proof -
  let ?sub = "new_subscription 1 [RecvOk (EvTrackAsset True :: (bool, bool, bool) wallet_event)]"
  obtain r sub' where run: "next_loop runtime_stream ?sub = (r, sub')" by fastforce
  have "unat (sub_next_sequence ?sub) < 2 ^ 64 - 1" by (simp add: new_subscription_def)
  from read_returns [OF run this] show ?thesis using run by (simp add: new_subscription_def runtime_stream_def)
qed

end
