(* ===== verification/History.thy ===== *)
theory History
  imports Business_Events
begin

text \<open>
  The transaction history of \<open>wallet/history.rs\<close> with the page filter of \<open>models/wallet_dtos.rs\<close>.  The
  wallet storage, the address type, the byte encoding of data elements and the temporary files are
  parameters.  A stored transaction keeps its transfers; what else it holds is not looked at.
\<close>

section \<open>Filters\<close>

record history_page_filter =
  hf_page :: nat
  hf_limit :: "nat option"
  hf_asset_hash :: "string option"
  hf_address :: "string option"
  hf_min_topoheight :: "u64 option"
  hf_max_topoheight :: "u64 option"
  hf_accept_incoming :: bool
  hf_accept_outgoing :: bool
  hf_accept_coinbase :: bool
  hf_accept_burn :: bool
  hf_accept_blob :: bool
  hf_min_timestamp :: "u64 option"
  hf_max_timestamp :: "u64 option"

record ('k, 'h) transaction_filter_options =
  fo_address :: "'k option"
  fo_asset :: "'h option"
  fo_contract :: "'h option"
  fo_min_topoheight :: "u64 option"
  fo_max_topoheight :: "u64 option"
  fo_accept_incoming :: bool
  fo_accept_outgoing :: bool
  fo_accept_coinbase :: bool
  fo_accept_burn :: bool
  fo_accept_blob :: bool
  fo_min_timestamp :: "u64 option"
  fo_max_timestamp :: "u64 option"
  fo_skip :: "nat option"
  fo_limit :: "nat option"

record 'k exact_destination =
  xd_public_key :: 'k
  xd_serialized_data :: "u8 list"

record ('k, 'h) prepared_history_filter =
  pf_options :: "('k, 'h) transaction_filter_options"
  pf_exact_destination :: "'k exact_destination option"

section \<open>Upstream\<close>

datatype ('k, 'h, 'i, 'o, 'r) stored_transaction =
  StoredIncoming 'r "'i list"
| StoredOutgoing 'r "'o list"
| StoredOther 'r

record ('a, 'k, 'h, 'i, 'o, 'r, 'p, 's) history_api =
  hi_address :: "('a, 'k, 'h) address_api"
  hi_hashes :: "'h hash_api"
  hi_address_error :: "string \<Rightarrow> anyhow_error"
  hi_hash_error :: "string \<Rightarrow> anyhow_error"
  hi_to_bytes :: "'h data_element \<Rightarrow> u8 list"
  hi_text :: upstream_text
  hi_usize_max :: nat
  hi_wallet_key :: 'k
  hi_mainnet :: bool
  hi_incoming_data :: "'i \<Rightarrow> 'h data_element option"
  hi_outgoing_data :: "'o \<Rightarrow> 'h data_element option"
  hi_destination :: "'o \<Rightarrow> 'k"
  hi_count :: "'s \<Rightarrow> (nat, anyhow_error) result"
  hi_filtered :: "'s \<Rightarrow> ('k, 'h) transaction_filter_options
    \<Rightarrow> (('k, 'h, 'i, 'o, 'r) stored_transaction list, anyhow_error) result"
  hi_serializable :: "bool \<Rightarrow> ('k, 'h, 'i, 'o, 'r) stored_transaction \<Rightarrow> ('a, 'h, 'h plaintext_extra_data) upstream_entry"
  hi_transaction :: "'s \<Rightarrow> 'h \<Rightarrow> (('k, 'h, 'i, 'o, 'r) stored_transaction, anyhow_error) result"
  hi_pending :: "'s \<Rightarrow> 'p list"
  hi_pending_hash :: "'p \<Rightarrow> 'h"
  hi_pending_serializable :: "bool \<Rightarrow> 'p \<Rightarrow> ('a, 'h, 'h plaintext_extra_data) upstream_pending"

section \<open>Preparing a filter\<close>

definition exact_matches ::
  "('a, 'k, 'h, 'i, 'o, 'r, 'p, 's) history_api \<Rightarrow> 'k exact_destination \<Rightarrow> 'k \<Rightarrow> 'h data_element option \<Rightarrow> bool" where
  "exact_matches A d public_key data \<longleftrightarrow>
     public_key = xd_public_key d \<and>
     (case data of Some e \<Rightarrow> hi_to_bytes A e = xd_serialized_data d | None \<Rightarrow> False)"

definition exact_matches_wallet :: "'k exact_destination \<Rightarrow> 'k \<Rightarrow> bool" where
  "exact_matches_wallet d wallet_public_key \<longleftrightarrow> wallet_public_key = xd_public_key d"

definition checked_usize :: "('a, 'k, 'h, 'i, 'o, 'r, 'p, 's) history_api \<Rightarrow> nat \<Rightarrow> nat option" where
  "checked_usize A n = (if n \<le> hi_usize_max A then Some n else None)"

definition filter_destination ::
  "('a, 'k, 'h, 'i, 'o, 'r, 'p, 's) history_api \<Rightarrow> string option \<Rightarrow> ('k option \<times> 'k exact_destination option, anyhow_error) result" where
  "filter_destination A address =
     (case address of
        None \<Rightarrow> Ok (None, None)
      | Some s \<Rightarrow>
          and_then (map_err (\<lambda>e. AnyContext ''Invalid address'' (hi_address_error A e))
              (address_from_string (hi_address A) s)) (\<lambda>a.
            case extract_data (hi_address A) a of
              (payload, base) \<Rightarrow>
                let public_key = to_public_key (hi_address A) base in
                Ok (case payload of
                      Some data \<Rightarrow>
                        (None, Some \<lparr> xd_public_key = public_key, xd_serialized_data = hi_to_bytes A data \<rparr>)
                    | None \<Rightarrow> (Some public_key, None))))"

definition filter_skip :: "('a, 'k, 'h, 'i, 'o, 'r, 'p, 's) history_api \<Rightarrow> history_page_filter \<Rightarrow> (nat option, anyhow_error) result" where
  "filter_skip A f =
     (case hf_limit f of
        Some limit \<Rightarrow>
          map_ok Some (ok_or (checked_usize A ((hf_page f - 1) * limit)) (AnyOther ''Pagination offset is too large''))
      | None \<Rightarrow> Ok None)"

definition prepare_filter ::
  "('a, 'k, 'h, 'i, 'o, 'r, 'p, 's) history_api \<Rightarrow> history_page_filter \<Rightarrow> (('k, 'h) prepared_history_filter, anyhow_error) result" where
  "prepare_filter A f =
     and_then (ensure (hf_page f > 0) (AnyOther ''Page must be at least 1'')) (\<lambda>_.
     and_then (ensure (hf_limit f \<noteq> Some 0) (AnyOther ''Limit cannot be 0'')) (\<lambda>_.
     and_then (filter_destination A (hf_address f)) (\<lambda>(address, exact).
     and_then (case hf_asset_hash f of
                 Some s \<Rightarrow> map_ok Some (map_err (\<lambda>e. AnyContext ''Invalid asset'' (hi_hash_error A e)) (from_hex (hi_hashes A) s))
               | None \<Rightarrow> Ok None) (\<lambda>asset.
     and_then (filter_skip A f) (\<lambda>skip.
       Ok \<lparr> pf_options =
              \<lparr> fo_address = address, fo_asset = asset, fo_contract = None,
                fo_min_topoheight = hf_min_topoheight f,
                fo_max_topoheight = (if hf_max_topoheight f = Some u64_MAX then None else hf_max_topoheight f),
                fo_accept_incoming = hf_accept_incoming f, fo_accept_outgoing = hf_accept_outgoing f,
                fo_accept_coinbase = (hf_address f = None \<and> hf_accept_coinbase f),
                fo_accept_burn = (hf_address f = None \<and> hf_accept_burn f),
                fo_accept_blob = (hf_accept_blob f \<and> hf_address f = None \<and> hf_asset_hash f = None),
                fo_min_timestamp = hf_min_timestamp f, fo_max_timestamp = hf_max_timestamp f,
                fo_skip = skip, fo_limit = hf_limit f \<rparr>,
            pf_exact_destination = exact \<rparr>)))))"

section \<open>Pages\<close>

record filtered_pagination =
  pg_offset :: nat
  pg_limit :: "nat option"

definition pagination_prepare ::
  "('a, 'k, 'h, 'i, 'o, 'r, 'p, 's) history_api \<Rightarrow> ('k, 'h) transaction_filter_options
   \<Rightarrow> (filtered_pagination \<times> ('k, 'h) transaction_filter_options, anyhow_error) result" where
  "pagination_prepare A options =
     (let offset = unwrap_or (fo_skip options) 0; limit = fo_limit options in
      and_then (case limit of
          None \<Rightarrow> Ok None
        | Some n \<Rightarrow> map_ok Some (ok_or (checked_usize A (offset + n)) (AnyOther ''Pagination range is too large''))) (\<lambda>range.
        Ok (\<lparr> pg_offset = offset, pg_limit = limit \<rparr>, options\<lparr> fo_skip := None, fo_limit := range \<rparr>)))"

definition pagination_apply :: "filtered_pagination \<Rightarrow> 'v list \<Rightarrow> 'v list" where
  "pagination_apply p vs =
     (case pg_limit p of Some limit \<Rightarrow> take limit (drop (pg_offset p) vs) | None \<Rightarrow> vs)"

fun retain_exact ::
  "('a, 'k, 'h, 'i, 'o, 'r, 'p, 's) history_api \<Rightarrow> 'k exact_destination \<Rightarrow> ('k, 'h, 'i, 'o, 'r) stored_transaction
   \<Rightarrow> ('k, 'h, 'i, 'o, 'r) stored_transaction option" where
  "retain_exact A d (StoredIncoming r ts) =
     (if exact_matches_wallet d (hi_wallet_key A)
      then (let kept = filter (\<lambda>t. exact_matches A d (hi_wallet_key A) (hi_incoming_data A t)) ts in
            if kept = [] then None else Some (StoredIncoming r kept))
      else None)"
| "retain_exact A d (StoredOutgoing r ts) =
     (let kept = filter (\<lambda>t. exact_matches A d (hi_destination A t) (hi_outgoing_data A t)) ts in
      if kept = [] then None else Some (StoredOutgoing r kept))"
| "retain_exact A d (StoredOther r) = None"

definition apply_exact_integrated_destination ::
  "('a, 'k, 'h, 'i, 'o, 'r, 'p, 's) history_api \<Rightarrow> 'k exact_destination
   \<Rightarrow> ('k, 'h, 'i, 'o, 'r) stored_transaction list \<Rightarrow> ('k, 'h, 'i, 'o, 'r) stored_transaction list" where
  "apply_exact_integrated_destination A d ts = List.map_filter (retain_exact A d) ts"

definition classify_history_error ::
  "('a, 'k, 'h, 'i, 'o, 'r, 'p, 's) history_api \<Rightarrow> native_xelis_error_code \<Rightarrow> string \<Rightarrow> anyhow_error \<Rightarrow> native_xelis_error" where
  "classify_history_error A fallback_code fallback_kind e = from_wallet_operation (hi_text A) e fallback_code fallback_kind"

text \<open>The part the listing and the CSV export share; they differ in the kinds of their errors.\<close>

definition select_history ::
  "('a, 'k, 'h, 'i, 'o, 'r, 'p, 's) history_api \<Rightarrow> string \<Rightarrow> string \<Rightarrow> history_page_filter \<Rightarrow> 's
   \<Rightarrow> (('k, 'h, 'i, 'o, 'r) stored_transaction list, native_xelis_error) result" where
  "select_history A invalid_kind read_kind f st =
     and_then (map_err (classify_history_error A InvalidInput invalid_kind) (prepare_filter A f)) (\<lambda>p.
     and_then (map_err (classify_history_error A InvalidInput invalid_kind) (pagination_prepare A (pf_options p)))
       (\<lambda>(pagination, options).
         let options = (if pf_exact_destination p \<noteq> None then options\<lparr> fo_limit := None \<rparr> else options) in
         and_then (map_err (classify_history_error A Storage read_kind) (hi_filtered A st options)) (\<lambda>transactions.
           let transactions = (case pf_exact_destination p of
               Some d \<Rightarrow> apply_exact_integrated_destination A d transactions
             | None \<Rightarrow> transactions) in
           Ok (pagination_apply pagination transactions))))"

section \<open>Operations\<close>

definition get_history_count ::
  "('a, 'k, 'h, 'i, 'o, 'r, 'p, 's) history_api \<Rightarrow> 's \<Rightarrow> (nat, native_xelis_error) result" where
  "get_history_count A st =
     map_err (classify_history_error A Storage ''WALLET_HISTORY_COUNT_READ_FAILED'') (hi_count A st)"

definition history ::
  "('a, 'k, 'h, 'i, 'o, 'r, 'p, 's) history_api \<Rightarrow> history_page_filter \<Rightarrow> extra_data_disclosure \<Rightarrow> 's
   \<Rightarrow> (native_transaction_entry list, native_xelis_error) result" where
  "history A f disclosure st =
     and_then (select_history A ''WALLET_HISTORY_FILTER_INVALID'' ''WALLET_HISTORY_READ_FAILED'' f st) (\<lambda>transactions.
       collect_results (\<lambda>t.
         map_err (classify_history_error A Serialization ''WALLET_HISTORY_EXTRA_DATA_SERIALIZATION_FAILED'')
           (transaction_entry (hi_hashes A) (address_to_string (hi_address A)) (from_disclosure disclosure)
              (hi_serializable A (hi_mainnet A) t))) transactions)"

definition get_pending_transactions ::
  "('a, 'k, 'h, 'i, 'o, 'r, 'p, 's) history_api \<Rightarrow> extra_data_disclosure \<Rightarrow> 's
   \<Rightarrow> (native_pending_transaction list, native_xelis_error) result" where
  "get_pending_transactions A disclosure st =
     collect_results (\<lambda>t.
       map_err (classify_history_error A Serialization ''WALLET_PENDING_EXTRA_DATA_SERIALIZATION_FAILED'')
         (pending_transaction (hi_hashes A) (address_to_string (hi_address A)) (from_disclosure disclosure)
            (hi_pending_serializable A (hi_mainnet A) t))) (hi_pending A st)"

definition history_hash ::
  "('a, 'k, 'h, 'i, 'o, 'r, 'p, 's) history_api \<Rightarrow> string \<Rightarrow> ('h, native_xelis_error) result" where
  "history_hash A hash =
     map_err (\<lambda>e. classify_history_error A InvalidInput ''WALLET_TRANSACTION_HASH_INVALID'' (hi_hash_error A e))
       (from_hex (hi_hashes A) hash)"

definition get_transaction_by_hash ::
  "('a, 'k, 'h, 'i, 'o, 'r, 'p, 's) history_api \<Rightarrow> string \<Rightarrow> extra_data_disclosure \<Rightarrow> 's
   \<Rightarrow> (native_transaction_entry, native_xelis_error) result" where
  "get_transaction_by_hash A hash disclosure st =
     and_then (history_hash A hash) (\<lambda>h.
     and_then (map_err (classify_history_error A NotFound ''WALLET_TRANSACTION_NOT_FOUND'') (hi_transaction A st h)) (\<lambda>t.
       map_err (classify_history_error A Serialization ''WALLET_TRANSACTION_EXTRA_DATA_SERIALIZATION_FAILED'')
         (transaction_entry (hi_hashes A) (address_to_string (hi_address A)) (from_disclosure disclosure)
            (hi_serializable A (hi_mainnet A) t))))"

definition get_pending_transaction_by_hash ::
  "('a, 'k, 'h, 'i, 'o, 'r, 'p, 's) history_api \<Rightarrow> string \<Rightarrow> extra_data_disclosure \<Rightarrow> 's
   \<Rightarrow> (native_pending_transaction, native_xelis_error) result" where
  "get_pending_transaction_by_hash A hash disclosure st =
     and_then (history_hash A hash) (\<lambda>h.
     and_then (ok_or (find (\<lambda>t. hi_pending_hash A t = h) (hi_pending A st))
         (xelis_wallet_flutter_error NotFound ''WALLET_PENDING_TRANSACTION_NOT_FOUND''
            ''Pending transaction was not found in wallet storage'')) (\<lambda>t.
       map_err (classify_history_error A Serialization ''WALLET_PENDING_TRANSACTION_EXTRA_DATA_SERIALIZATION_FAILED'')
         (pending_transaction (hi_hashes A) (address_to_string (hi_address A)) (from_disclosure disclosure)
            (hi_pending_serializable A (hi_mainnet A) t))))"

section \<open>CSV export\<close>

record ('x, 't, 'f) csv_host =
  cs_parent :: "string \<Rightarrow> string option"
  cs_new_temporary :: "string \<Rightarrow> 'f \<Rightarrow> ('t, string) result \<times> 'f"
  cs_export :: "'x list \<Rightarrow> 't \<Rightarrow> 'f \<Rightarrow> (unit, anyhow_error) result \<times> 'f"
  cs_sync :: "'t \<Rightarrow> 'f \<Rightarrow> (unit, string) result \<times> 'f"
  cs_persist :: "'t \<Rightarrow> string \<Rightarrow> 'f \<Rightarrow> (unit, string) result \<times> 'f"
  cs_discard :: "'t \<Rightarrow> 'f \<Rightarrow> 'f"
  cs_export_buffer :: "'x list \<Rightarrow> (u8 list, anyhow_error) result"
  cs_from_utf8 :: "u8 list \<Rightarrow> (string, string) result"

definition ensure_transactions_to_export :: "nat \<Rightarrow> (unit, native_xelis_error) result" where
  "ensure_transactions_to_export transaction_count =
     (if transaction_count = 0
      then Err (xelis_wallet_flutter_error NotFound ''WALLET_HISTORY_CSV_EMPTY''
        ''No matching transactions are available for CSV export'')
      else Ok ())"

definition csv_path_error :: "string \<Rightarrow> string \<Rightarrow> string \<Rightarrow> string \<Rightarrow> native_xelis_error" where
  "csv_path_error destination native_kind action e =
     xelis_wallet_flutter_error Storage native_kind (action @ ''; path='' @ destination @ '': '' @ e)"

definition create_temporary_csv_file ::
  "('x, 't, 'f) csv_host \<Rightarrow> string \<Rightarrow> 'f \<Rightarrow> ('t, native_xelis_error) result \<times> 'f" where
  "create_temporary_csv_file V destination fs =
     (let directory = (case cs_parent V destination of Some d \<Rightarrow> if d = [] then ''.'' else d | None \<Rightarrow> ''.'') in
      case cs_new_temporary V directory fs of
        (r, fs) \<Rightarrow>
          (map_err (csv_path_error destination ''WALLET_HISTORY_CSV_TEMP_FILE_CREATE_FAILED''
             ''Unable to create the temporary CSV file'') r, fs))"

text \<open>A temporary file that is not persisted is deleted when it is dropped.\<close>

definition persist_csv_file ::
  "('x, 't, 'f) csv_host \<Rightarrow> 't \<Rightarrow> string \<Rightarrow> 'f \<Rightarrow> (unit, native_xelis_error) result \<times> 'f" where
  "persist_csv_file V temporary destination fs =
     (case cs_sync V temporary fs of
        (Inl e, fs) \<Rightarrow>
          (Err (csv_path_error destination ''WALLET_HISTORY_CSV_SYNC_FAILED'' ''Unable to sync the temporary CSV file'' e),
           cs_discard V temporary fs)
      | (Inr _, fs) \<Rightarrow>
          (case cs_persist V temporary destination fs of
             (Inl e, fs) \<Rightarrow>
               (Err (csv_path_error destination ''WALLET_HISTORY_CSV_REPLACE_FAILED''
                  ''Unable to atomically replace the CSV file'' e), cs_discard V temporary fs)
           | (Inr _, fs) \<Rightarrow> (Ok (), fs)))"

definition csv_transactions ::
  "('a, 'k, 'h, 'i, 'o, 'r, 'p, 's) history_api \<Rightarrow> history_page_filter \<Rightarrow> 's
   \<Rightarrow> (('k, 'h, 'i, 'o, 'r) stored_transaction list, native_xelis_error) result" where
  "csv_transactions A f st =
     and_then (select_history A ''WALLET_HISTORY_CSV_FILTER_INVALID'' ''WALLET_HISTORY_CSV_READ_FAILED'' f st) (\<lambda>transactions.
     and_then (ensure_transactions_to_export (length transactions)) (\<lambda>_. Ok transactions))"

definition csv_serialization_error ::
  "('a, 'k, 'h, 'i, 'o, 'r, 'p, 's) history_api \<Rightarrow> anyhow_error \<Rightarrow> native_xelis_error" where
  "csv_serialization_error A = classify_history_error A Serialization ''WALLET_HISTORY_CSV_SERIALIZATION_FAILED''"

definition export_csv_transactions ::
  "('a, 'k, 'h, 'i, 'o, 'r, 'p, 's) history_api \<Rightarrow> (('k, 'h, 'i, 'o, 'r) stored_transaction, 't, 'f) csv_host
   \<Rightarrow> history_page_filter \<Rightarrow> 's \<Rightarrow> 't \<Rightarrow> 'f \<Rightarrow> (unit, native_xelis_error) result \<times> 'f" where
  "export_csv_transactions A V f st temporary fs =
     (case csv_transactions A f st of
        Inl e \<Rightarrow> (Err e, fs)
      | Inr transactions \<Rightarrow>
          (case cs_export V transactions temporary fs of (r, fs) \<Rightarrow> (map_err (csv_serialization_error A) r, fs)))"

definition export_transactions_to_csv_file ::
  "bool \<Rightarrow> ('a, 'k, 'h, 'i, 'o, 'r, 'p, 's) history_api \<Rightarrow> (('k, 'h, 'i, 'o, 'r) stored_transaction, 't, 'f) csv_host
   \<Rightarrow> string \<Rightarrow> history_page_filter \<Rightarrow> 's \<Rightarrow> 'f \<Rightarrow> (unit, native_xelis_error) result \<times> 'f" where
  "export_transactions_to_csv_file web A V file_path f st fs =
     (if web
      then (Err (xelis_wallet_flutter_error Unsupported ''WALLET_HISTORY_CSV_FILE_EXPORT_UNSUPPORTED''
        ''Native CSV file export is unavailable on Web; convert the history to CSV and use a browser download''), fs)
      else (case create_temporary_csv_file V file_path fs of
        (Inl e, fs) \<Rightarrow> (Err e, fs)
      | (Inr temporary, fs) \<Rightarrow>
          (case export_csv_transactions A V f st temporary fs of
             (Inl e, fs) \<Rightarrow> (Err e, cs_discard V temporary fs)
           | (Inr _, fs) \<Rightarrow> persist_csv_file V temporary file_path fs)))"

definition convert_transactions_to_csv ::
  "('a, 'k, 'h, 'i, 'o, 'r, 'p, 's) history_api \<Rightarrow> (('k, 'h, 'i, 'o, 'r) stored_transaction, 't, 'f) csv_host
   \<Rightarrow> history_page_filter \<Rightarrow> 's \<Rightarrow> (string, native_xelis_error) result" where
  "convert_transactions_to_csv A V f st =
     and_then (csv_transactions A f st) (\<lambda>transactions.
     and_then (map_err (csv_serialization_error A) (cs_export_buffer V transactions)) (\<lambda>buffer.
       map_err (\<lambda>e. xelis_wallet_flutter_error Serialization ''WALLET_HISTORY_CSV_ENCODING_FAILED''
         (''Unable to convert the CSV export to UTF-8: '' @ e)) (cs_from_utf8 V buffer)))"

section \<open>Pages of the matching history\<close>

text \<open>
  What the storage documents of its filter, with the skip left out: the transactions that match, and a
  limit that cuts them.
\<close>

definition limit_law ::
  "('a, 'k, 'h, 'i, 'o, 'r, 'p, 's) history_api \<Rightarrow> 's \<Rightarrow> ('k, 'h) transaction_filter_options
   \<Rightarrow> ('k, 'h, 'i, 'o, 'r) stored_transaction list \<Rightarrow> bool" where
  "limit_law A st options stored \<longleftrightarrow>
     (\<forall>l. hi_filtered A st (options\<lparr> fo_skip := None, fo_limit := l \<rparr>) =
        Ok (case l of None \<Rightarrow> stored | Some n \<Rightarrow> take n stored))"

definition history_matches ::
  "('a, 'k, 'h, 'i, 'o, 'r, 'p, 's) history_api \<Rightarrow> ('k, 'h) prepared_history_filter
   \<Rightarrow> ('k, 'h, 'i, 'o, 'r) stored_transaction list \<Rightarrow> ('k, 'h, 'i, 'o, 'r) stored_transaction list" where
  "history_matches A p stored =
     (case pf_exact_destination p of None \<Rightarrow> stored | Some d \<Rightarrow> apply_exact_integrated_destination A d stored)"

lemma select_page:
  assumes prep: "prepare_filter A f = Ok p" and limit: "hf_limit f = Some n"
    and law: "limit_law A st (pf_options p) stored" and fits: "hf_page f * n \<le> hi_usize_max A"
  shows "select_history A k1 k2 f st = Ok (take n (drop ((hf_page f - 1) * n) (history_matches A p stored)))"
proof -
  let ?o = "(hf_page f - 1) * n"
  have page: "hf_page f > 0" and skip: "fo_skip (pf_options p) = Some ?o" "fo_limit (pf_options p) = Some n"
    using prep limit by (auto simp: prepare_filter_def filter_skip_def ensure_def checked_usize_def result_simps split: if_splits)
  have range: "?o + n = hf_page f * n" using page by (cases "hf_page f") simp_all
  have pag: "pagination_prepare A (pf_options p) =
    Ok (\<lparr> pg_offset = ?o, pg_limit = Some n \<rparr>, (pf_options p)\<lparr> fo_skip := None, fo_limit := Some (?o + n) \<rparr>)"
    using skip fits range by (simp add: pagination_prepare_def checked_usize_def Let_def)
  show ?thesis
  proof (cases "pf_exact_destination p")
    case None
    have "hi_filtered A st ((pf_options p)\<lparr> fo_skip := None, fo_limit := Some (?o + n) \<rparr>) = Ok (take (?o + n) stored)"
      using law unfolding limit_law_def by simp
    then show ?thesis
      using prep pag None by (simp add: select_history_def pagination_apply_def history_matches_def drop_take)
  next
    case (Some d)
    have "hi_filtered A st ((pf_options p)\<lparr> fo_skip := None, fo_limit := None \<rparr>) = Ok stored"
      using law unfolding limit_law_def by simp
    then show ?thesis
      using prep pag Some by (simp add: select_history_def pagination_apply_def history_matches_def Let_def)
  qed
qed

lemma prepare_page:
  assumes "prepare_filter A (f\<lparr> hf_page := 1 \<rparr>) = Ok p" "hf_limit f = Some n" "i * n \<le> hi_usize_max A"
  shows "prepare_filter A (f\<lparr> hf_page := Suc i \<rparr>) =
    Ok (p\<lparr> pf_options := (pf_options p)\<lparr> fo_skip := Some (i * n) \<rparr> \<rparr>)"
  using assms
  by (auto simp: prepare_filter_def filter_skip_def ensure_def checked_usize_def result_simps split: if_splits prod.splits)

lemma limit_law_skip: "limit_law A st (o'\<lparr> fo_skip := k \<rparr>) stored = limit_law A st o' stored"
  by (simp add: limit_law_def)

lemma concat_pages: "concat (map (\<lambda>i. take n (drop (i * n) xs)) [0..<m]) = take (m * n) xs"
proof (induction m)
  case (Suc m)
  have "take (m * n) xs @ take n (drop (m * n) xs) = take (m * n + n) xs" by (simp add: take_add)
  then show ?case using Suc by (simp add: add.commute)
qed simp

lemma map_filter_concat:
  assumes "\<And>t. g t = (case h t of None \<Rightarrow> [] | Some t' \<Rightarrow> k t')"
  shows "concat (map k (List.map_filter h ts)) = concat (map g ts)"
  by (induction ts) (auto simp: map_filter_simps assms split: option.split)

fun outgoing_transfers :: "('k, 'h, 'i, 'o, 'r) stored_transaction \<Rightarrow> 'o list" where
  "outgoing_transfers (StoredOutgoing r ts) = ts"
| "outgoing_transfers _ = []"

fun incoming_transfers :: "('k, 'h, 'i, 'o, 'r) stored_transaction \<Rightarrow> 'i list" where
  "incoming_transfers (StoredIncoming r ts) = ts"
| "incoming_transfers _ = []"

lemma retained_outgoing:
  "(case retain_exact A d t of None \<Rightarrow> [] | Some t' \<Rightarrow> outgoing_transfers t') =
   filter (\<lambda>x. exact_matches A d (hi_destination A x) (hi_outgoing_data A x)) (outgoing_transfers t)"
  by (cases t) (simp_all add: Let_def)

lemma retained_incoming:
  "(case retain_exact A d t of None \<Rightarrow> [] | Some t' \<Rightarrow> incoming_transfers t') =
   filter (\<lambda>x. exact_matches A d (hi_wallet_key A) (hi_incoming_data A x)) (incoming_transfers t)"
  by (cases t) (auto simp: Let_def exact_matches_def exact_matches_wallet_def)

lemma retained_some:
  "retain_exact A d t = Some t' \<Longrightarrow> outgoing_transfers t' \<noteq> [] \<or> incoming_transfers t' \<noteq> []"
  by (cases t) (auto simp: Let_def split: if_splits)

text \<open>Only a successful replacement changes the named files.\<close>

definition csv_laws :: "('x, 't, 'f) csv_host \<Rightarrow> ('f \<Rightarrow> string \<Rightarrow> 'b) \<Rightarrow> bool" where
  "csv_laws V content \<longleftrightarrow>
     (\<forall>d fs. content (snd (cs_new_temporary V d fs)) = content fs) \<and>
     (\<forall>xs t fs. content (snd (cs_export V xs t fs)) = content fs) \<and>
     (\<forall>t fs. content (snd (cs_sync V t fs)) = content fs) \<and>
     (\<forall>t fs. content (cs_discard V t fs) = content fs) \<and>
     (\<forall>t path fs r fs'. cs_persist V t path fs = (r, fs') \<longrightarrow>
        (\<forall>q. q \<noteq> path \<or> \<not> is_ok r \<longrightarrow> content fs' q = content fs q))"

lemma csv_law_results:
  assumes "csv_laws V content"
  shows "cs_new_temporary V d fs = (r1, fs') \<Longrightarrow> content fs' = content fs"
    and "cs_export V xs t fs = (r2, fs') \<Longrightarrow> content fs' = content fs"
    and "cs_sync V t fs = (r3, fs') \<Longrightarrow> content fs' = content fs"
    and "content (cs_discard V t fs) = content fs"
    and "cs_persist V t path fs = (r4, fs') \<Longrightarrow> q \<noteq> path \<or> \<not> is_ok r4 \<Longrightarrow> content fs' q = content fs q"
  using assms unfolding csv_laws_def by (metis snd_conv)+

lemma export_keeps_files:
  "csv_laws V content \<Longrightarrow> export_csv_transactions A V f st t fs = (r, fs') \<Longrightarrow> content fs' = content fs"
  by (auto simp: export_csv_transactions_def dest: csv_law_results(2) split: sum.splits prod.splits)

lemma persist_keeps_files:
  assumes laws: "csv_laws V content" and run: "persist_csv_file V t path fs = (r, fs')"
    and other: "q \<noteq> path \<or> \<not> is_ok r"
  shows "content fs' q = content fs q"
proof -
  obtain r1 f1 where sync: "cs_sync V t fs = (r1, f1)" by fastforce
  obtain r2 f2 where persist: "cs_persist V t path f1 = (r2, f2)" by fastforce
  have "content f1 = content fs" by (rule csv_law_results(3) [OF laws sync])
  moreover have "(r1 \<noteq> Ok () \<and> fs' = cs_discard V t f1) \<or> (\<not> is_ok r2 \<and> fs' = cs_discard V t f2) \<or>
    (fs' = f2 \<and> is_ok r2 \<and> is_ok r)"
    using run sync persist by (auto simp: persist_csv_file_def split: sum.splits)
  ultimately show ?thesis
    using csv_law_results(4) [OF laws] csv_law_results(5) [OF laws persist, of q] other by auto
qed

lemma temporary_keeps_files:
  "csv_laws V content \<Longrightarrow> create_temporary_csv_file V path fs = (r, fs') \<Longrightarrow> content fs' = content fs"
  by (auto simp: create_temporary_csv_file_def Let_def dest: csv_law_results(1) split: prod.splits)

section \<open>A concrete history\<close>

type_synonym demo_transaction = "(unit, bool, bool data_element option, bool data_element option, nat) stored_transaction"

definition demo_history_api ::
  "(bool \<times> bool data_element option, unit, bool, bool data_element option, bool data_element option, nat, unit,
    demo_transaction list) history_api" where
  "demo_history_api =
     \<lparr> hi_address = demo_address_api, hi_hashes = demo_hash_api, hi_address_error = AnyOther, hi_hash_error = AnyOther,
       hi_to_bytes = (\<lambda>e. if e = DValue (DBool True) then [1] else [0]), hi_text = demo_upstream_text,
       hi_usize_max = 65535, hi_wallet_key = (), hi_mainnet = True,
       hi_incoming_data = (\<lambda>t. t), hi_outgoing_data = (\<lambda>t. t), hi_destination = (\<lambda>t. ()),
       hi_count = (\<lambda>st. Ok (length st)),
       hi_filtered = (\<lambda>st options. Ok (case fo_limit options of None \<Rightarrow> st | Some n \<Rightarrow> take n st)),
       hi_serializable = (\<lambda>m t. UpstreamEntry True 0 0 (ECoinbase 0)),
       hi_transaction = (\<lambda>st h. Err (AnyOther ''missing'')), hi_pending = (\<lambda>st. []), hi_pending_hash = (\<lambda>t. True),
       hi_pending_serializable = (\<lambda>m t. UpstreamPending True 0 (ECoinbase 0)) \<rparr>"

definition demo_filter :: history_page_filter where
  "demo_filter =
     \<lparr> hf_page = 1, hf_limit = Some 2, hf_asset_hash = None, hf_address = Some ''mi'', hf_min_topoheight = None,
       hf_max_topoheight = None, hf_accept_incoming = True, hf_accept_outgoing = True, hf_accept_coinbase = True,
       hf_accept_burn = True, hf_accept_blob = True, hf_min_timestamp = None, hf_max_timestamp = None \<rparr>"

definition demo_stored :: "demo_transaction list" where
  "demo_stored =
     [StoredOutgoing 1 [Some (DValue (DBool True))], StoredOther 2, StoredOutgoing 3 [None],
      StoredOutgoing 4 [Some (DValue (DBool True)), None], StoredIncoming 5 [Some (DValue (DBool True))]]"

definition demo_csv_host :: "(demo_transaction, unit, string \<Rightarrow> nat) csv_host" where
  "demo_csv_host =
     \<lparr> cs_parent = (\<lambda>p. None), cs_new_temporary = (\<lambda>d fs. (Ok (), fs)), cs_export = (\<lambda>ts t fs. (Ok (), fs)),
       cs_sync = (\<lambda>t fs. (Ok (), fs)), cs_persist = (\<lambda>t path fs. (Ok (), fs(path := 1))), cs_discard = (\<lambda>t fs. fs),
       cs_export_buffer = (\<lambda>ts. Ok []), cs_from_utf8 = (\<lambda>b. Ok []) \<rparr>"

section \<open>Properties\<close>

text \<open>
  C32: the pages of the history are what they promise.  For a filter with a page size, the first so many
  pages put together are the first so many of the matching transactions, in their order, none twice and
  none left out, also when the filter names an integrated address, which the storage cannot filter by.
\<close>

theorem history_pages_exact:
  assumes "prepare_filter A (f\<lparr> hf_page := 1 \<rparr>) = Ok p" "hf_limit f = Some n"
    and "limit_law A st (pf_options p) stored" "m * n \<le> hi_usize_max A"
  shows "\<exists>pages. length pages = m \<and>
    (\<forall>i<m. select_history A k1 k2 (f\<lparr> hf_page := Suc i \<rparr>) st = Ok (pages ! i)) \<and>
    concat pages = take (m * n) (history_matches A p stored)"
proof -
  let ?page = "\<lambda>i. take n (drop (i * n) (history_matches A p stored))"
  have "select_history A k1 k2 (f\<lparr> hf_page := Suc i \<rparr>) st = Ok (?page i)" if "i < m" for i
  proof -
    have "Suc i * n \<le> m * n" using that by (intro mult_le_mono1) simp
    then have fits: "Suc i * n \<le> hi_usize_max A" "i * n \<le> hi_usize_max A" using assms(4) by simp_all
    let ?p = "p\<lparr> pf_options := (pf_options p)\<lparr> fo_skip := Some (i * n) \<rparr> \<rparr>"
    have "prepare_filter A (f\<lparr> hf_page := Suc i \<rparr>) = Ok ?p" by (rule prepare_page [OF assms(1,2) fits(2)])
    from select_page [OF this, of n st stored k1 k2] show ?thesis
      using assms(2,3) fits(1) by (simp add: limit_law_skip history_matches_def)
  qed
  then show ?thesis
    using concat_pages [of n "history_matches A p stored" m] by (intro exI [of _ "map ?page [0..<m]"]) simp
qed

theorem history_pages_exact_witness:
  "\<exists>first second. select_history demo_history_api [] [] (demo_filter\<lparr> hf_page := Suc 0 \<rparr>) demo_stored = Ok first \<and>
     select_history demo_history_api [] [] (demo_filter\<lparr> hf_page := Suc 1 \<rparr>) demo_stored = Ok second \<and>
     first @ second = [StoredOutgoing 1 [Some (DValue (DBool True))], StoredOutgoing 4 [Some (DValue (DBool True))],
       StoredIncoming 5 [Some (DValue (DBool True))]]"
proof -
  have "\<exists>p. prepare_filter demo_history_api (demo_filter\<lparr> hf_page := 1 \<rparr>) = Ok p \<and>
      pf_exact_destination p = Some \<lparr> xd_public_key = (), xd_serialized_data = [1] \<rparr>"
    by (simp add: prepare_filter_def ensure_def filter_destination_def filter_skip_def checked_usize_def
        demo_filter_def demo_history_api_def demo_address_api_def Let_def)
  then obtain p where p: "prepare_filter demo_history_api (demo_filter\<lparr> hf_page := 1 \<rparr>) = Ok p"
    "pf_exact_destination p = Some \<lparr> xd_public_key = (), xd_serialized_data = [1] \<rparr>" by blast
  have law: "limit_law demo_history_api demo_stored (pf_options p) demo_stored"
    by (simp add: limit_law_def demo_history_api_def split: option.split)
  have limit: "hf_limit demo_filter = Some 2" by (simp add: demo_filter_def)
  have fits: "2 * 2 \<le> hi_usize_max demo_history_api" by (simp add: demo_history_api_def)
  have matches: "history_matches demo_history_api p demo_stored =
      [StoredOutgoing 1 [Some (DValue (DBool True))], StoredOutgoing 4 [Some (DValue (DBool True))],
       StoredIncoming 5 [Some (DValue (DBool True))]]"
    by (simp add: history_matches_def p(2) apply_exact_integrated_destination_def demo_stored_def map_filter_simps
        exact_matches_def exact_matches_wallet_def demo_history_api_def Let_def)
  obtain pages where pages: "length pages = 2"
    "\<forall>i<2. select_history demo_history_api [] [] (demo_filter\<lparr> hf_page := Suc i \<rparr>) demo_stored = Ok (pages ! i)"
    "concat pages = history_matches demo_history_api p demo_stored"
    using history_pages_exact [OF p(1) limit law fits, of "[]" "[]"] by (auto simp: matches)
  obtain a b where "pages = [a, b]" using pages(1) by (auto simp: length_Suc_conv numeral_2_eq_2)
  then show ?thesis using pages(2,3) matches by (auto simp: less_2_cases_iff)
qed

text \<open>
  C33: filtering by an integrated address is exact.  For a filter whose address parses to an address with
  data, the outgoing transfers kept are those to its public key whose data serializes to the very bytes of
  the address's data, the incoming ones those with such data when it is the wallet's own public key, all
  in their order, and no transaction is kept without a transfer.
\<close>

theorem integrated_history_exact:
  assumes "prepare_filter A f = Ok p" "hf_address f = Some s"
    and "address_from_string (hi_address A) s = Ok a" "extract_data (hi_address A) a = (Some data, base)"
  shows "\<exists>d. pf_exact_destination p = Some d \<and>
   concat (map outgoing_transfers (apply_exact_integrated_destination A d ts)) =
     filter (\<lambda>x. hi_destination A x = to_public_key (hi_address A) base \<and>
         map_option (hi_to_bytes A) (hi_outgoing_data A x) = Some (hi_to_bytes A data))
       (concat (map outgoing_transfers ts)) \<and>
   concat (map incoming_transfers (apply_exact_integrated_destination A d ts)) =
     filter (\<lambda>x. hi_wallet_key A = to_public_key (hi_address A) base \<and>
         map_option (hi_to_bytes A) (hi_incoming_data A x) = Some (hi_to_bytes A data))
       (concat (map incoming_transfers ts)) \<and>
   list_all (\<lambda>t. 0 < length (outgoing_transfers t) + length (incoming_transfers t)) (apply_exact_integrated_destination A d ts)"
proof -
  let ?d = "\<lparr> xd_public_key = to_public_key (hi_address A) base, xd_serialized_data = hi_to_bytes A data \<rparr>"
  have "pf_exact_destination p = Some ?d"
    using assms by (auto simp: prepare_filter_def filter_destination_def result_simps)
  moreover have match: "exact_matches A ?d k v \<longleftrightarrow>
      k = to_public_key (hi_address A) base \<and> map_option (hi_to_bytes A) v = Some (hi_to_bytes A data)" for k v
    by (cases v) (simp_all add: exact_matches_def)
  moreover have "list_all (\<lambda>t. 0 < length (outgoing_transfers t) + length (incoming_transfers t)) (List.map_filter (retain_exact A ?d) ts)"
    by (induction ts) (auto simp: map_filter_simps dest: retained_some split: option.split)
  ultimately show ?thesis
    by (intro exI [of _ ?d])
      (simp add: apply_exact_integrated_destination_def filter_concat map_filter_concat [OF retained_outgoing [symmetric]]
        map_filter_concat [OF retained_incoming [symmetric]] comp_def)
qed

theorem integrated_history_exact_witness:
  "\<exists>d. concat (map outgoing_transfers (apply_exact_integrated_destination demo_history_api d demo_stored)) =
     [Some (DValue (DBool True)), Some (DValue (DBool True))]"
proof -
  obtain p where p: "prepare_filter demo_history_api demo_filter = Ok p"
    by (simp add: prepare_filter_def demo_filter_def demo_history_api_def filter_destination_def demo_address_api_def
        filter_skip_def checked_usize_def ensure_def)
  have a: "hf_address demo_filter = Some ''mi''" by (simp add: demo_filter_def)
  have x: "address_from_string (hi_address demo_history_api) ''mi'' = Ok (True, Some (DValue (DBool True)))"
    "extract_data (hi_address demo_history_api) (True, Some (DValue (DBool True))) = (Some (DValue (DBool True)), (True, None))"
    by (simp_all add: demo_history_api_def demo_address_api_def)
  from integrated_history_exact [OF p a x, of demo_stored] show ?thesis
    by (auto simp: demo_stored_def demo_history_api_def demo_address_api_def)
qed

text \<open>
  C34: exporting the history to a file is atomic.  Whatever step fails, every named file is as it was,
  and a successful export changes the named destination only.
\<close>

theorem csv_export_atomic:
  assumes "csv_laws V content" "export_transactions_to_csv_file web A V path f st fs = (r, fs')"
    and "q \<noteq> path \<or> \<not> is_ok r"
  shows "content fs' q = content fs q"
proof (cases web)
  case True
  then show ?thesis using assms(2) by (auto simp: export_transactions_to_csv_file_def)
next
  case False
  obtain r1 f1 where temp: "create_temporary_csv_file V path fs = (r1, f1)" by fastforce
  note kept = temporary_keeps_files [OF assms(1) temp]
  show ?thesis
  proof (cases r1)
    case (Inl e)
    then show ?thesis using assms(2) False temp kept by (simp add: export_transactions_to_csv_file_def)
  next
    case (Inr t)
    obtain r2 f2 where export: "export_csv_transactions A V f st t f1 = (r2, f2)" by fastforce
    note kept2 = export_keeps_files [OF assms(1) export]
    show ?thesis
    proof (cases r2)
      case (Inl e)
      then show ?thesis
        using assms(2) False temp Inr export kept kept2 csv_law_results(4) [OF assms(1)]
        by (auto simp: export_transactions_to_csv_file_def)
    next
      case (Inr u)
      then have "persist_csv_file V t path f2 = (r, fs')"
        using assms(2) False temp \<open>r1 = Inr t\<close> export by (simp add: export_transactions_to_csv_file_def)
      from persist_keeps_files [OF assms(1) this assms(3)] show ?thesis using kept kept2 by simp
    qed
  qed
qed

theorem csv_export_atomic_witness:
  "snd (export_transactions_to_csv_file False demo_history_api demo_csv_host ''out'' demo_filter [] (\<lambda>q. 0)) ''out'' = 0"
proof -
  have laws: "csv_laws demo_csv_host (\<lambda>fs. fs)" by (auto simp: csv_laws_def demo_csv_host_def)
  obtain r fs where run: "export_transactions_to_csv_file False demo_history_api demo_csv_host ''out'' demo_filter [] (\<lambda>q. 0) = (r, fs)"
    by fastforce
  have "\<not> is_ok (csv_transactions demo_history_api demo_filter [])"
    by (simp add: csv_transactions_def select_history_def prepare_filter_def ensure_def filter_destination_def filter_skip_def
        checked_usize_def pagination_prepare_def pagination_apply_def apply_exact_integrated_destination_def map_filter_simps
        ensure_transactions_to_export_def demo_filter_def demo_history_api_def demo_address_api_def Let_def)
  then have "\<not> is_ok r"
    using run by (cases "csv_transactions demo_history_api demo_filter []")
      (auto simp: export_transactions_to_csv_file_def create_temporary_csv_file_def export_csv_transactions_def demo_csv_host_def Let_def)
  from csv_export_atomic [OF laws run, of "''out''"] this show ?thesis using run by simp
qed

end
