(* ===== verification/Table_Cache.thy ===== *)
theory Table_Cache
  imports Error_Classification
begin

text \<open>
  The precomputed tables of \<open>precomputed_tables.rs\<close> and their application-wide cache of
  \<open>wallet/runtime/table_cache.rs\<close>.  A table is shared by reference: a handle names the cell that holds it, the
  cache and the wallets hold handles, and an upgrade replaces the content of the cell.  The three sizes the
  upstream library fixes, and the reading or generating of tables, are parameters.
\<close>

section \<open>Table types\<close>

record l1_sizes =
  L1_LOW :: nat
  L1_MEDIUM :: nat
  L1_FULL :: nat

datatype precomputed_table_type = L1Low | L1Medium | L1Full | L1Custom nat

fun to_l1_size :: "l1_sizes \<Rightarrow> precomputed_table_type \<Rightarrow> (nat, anyhow_error) result" where
  "to_l1_size L L1Low = Ok (L1_LOW L)"
| "to_l1_size L L1Medium = Ok (L1_MEDIUM L)"
| "to_l1_size L L1Full = Ok (L1_FULL L)"
| "to_l1_size L (L1Custom n) =
     (if n < 16 \<or> n \<ge> 33
      then Err (AnyOther (''Invalid custom L1 size: '' @ decimal_of_nat n @ '' (must be 16..33)''))
      else Ok n)"

fun table_type_name :: "precomputed_table_type \<Rightarrow> string" where
  "table_type_name L1Low = ''l1Low''"
| "table_type_name L1Medium = ''l1Medium''"
| "table_type_name L1Full = ''l1Full''"
| "table_type_name (L1Custom n) = ''custom('' @ decimal_of_nat n @ '')''"

fun table_type_index :: "precomputed_table_type \<Rightarrow> u32" where
  "table_type_index L1Low = 0"
| "table_type_index L1Medium = 1"
| "table_type_index L1Full = 2"
| "table_type_index (L1Custom _) = 3"

definition precomputed_table_type_from_l1 :: "l1_sizes \<Rightarrow> nat \<Rightarrow> precomputed_table_type" where
  "precomputed_table_type_from_l1 L n =
     (if n = L1_LOW L then L1Low else if n = L1_MEDIUM L then L1Medium
      else if n = L1_FULL L then L1Full else L1Custom n)"

definition table_type_error :: "upstream_text \<Rightarrow> anyhow_error \<Rightarrow> native_xelis_error" where
  "table_type_error up e = xelis_wallet_flutter_error InvalidInput ''PRECOMPUTED_TABLE_TYPE_INVALID'' (anyhow_text up e)"

definition are_precomputed_tables_available ::
  "upstream_text \<Rightarrow> l1_sizes \<Rightarrow> (string option \<Rightarrow> nat \<Rightarrow> (bool, anyhow_error) result) \<Rightarrow> string \<Rightarrow> precomputed_table_type
   \<Rightarrow> (bool, native_xelis_error) result" where
  "are_precomputed_tables_available up L has_tables path ty =
     and_then (map_err (table_type_error up) (to_l1_size L ty)) (\<lambda>n.
       map_err (\<lambda>e. from_wallet_operation up e Storage ''PRECOMPUTED_TABLES_CHECK_FAILED'') (has_tables (Some path) n))"

section \<open>The cache\<close>

record cached_tables =
  ct_l1_size :: nat
  ct_tables :: nat

text \<open>The cells, the cache, and the owners of handles other than the cache with the size they asked for.\<close>

record 't table_world =
  tw_cell :: "nat \<Rightarrow> 't option"
  tw_poisoned :: "nat \<Rightarrow> bool"
  tw_cache :: "cached_tables option"
  tw_owners :: "(nat \<times> nat) list"

definition strong_count :: "'t table_world \<Rightarrow> nat \<Rightarrow> nat" where
  "strong_count w h =
     (case tw_cache w of Some e \<Rightarrow> if ct_tables e = h then 1 else 0 | None \<Rightarrow> 0) +
     length (filter (\<lambda>(o', _). o' = h) (tw_owners w))"

definition current_l1 :: "'t table_world \<Rightarrow> nat option" where
  "current_l1 w = map_option ct_l1_size (tw_cache w)"

definition clear_if_unused :: "'t table_world \<Rightarrow> bool \<times> 't table_world" where
  "clear_if_unused w =
     (if (case tw_cache w of Some e \<Rightarrow> strong_count w (ct_tables e) > 1 | None \<Rightarrow> False) then (False, w)
      else (True, w\<lparr> tw_cache := None \<rparr>))"

definition finalized_error :: "nat \<Rightarrow> nat \<Rightarrow> anyhow_error" where
  "finalized_error cached requested =
     AnyOther (''Precomputed tables are already finalized at L1 '' @ decimal_of_nat cached @
       ''; refusing a second upgrade to L1 '' @ decimal_of_nat requested)"

definition get_or_require_load :: "l1_sizes \<Rightarrow> nat \<Rightarrow> 't table_world \<Rightarrow> (nat option, anyhow_error) result" where
  "get_or_require_load L requested_l1 w =
     (case tw_cache w of
        None \<Rightarrow> Ok None
      | Some e \<Rightarrow>
          if ct_l1_size e \<ge> requested_l1 then Ok (Some (ct_tables e))
          else if ct_l1_size e = L1_LOW L then Ok None
          else Err (finalized_error (ct_l1_size e) requested_l1))"

text \<open>
  Installing tables that were loaded into a cell of their own.  The handle of that cell is dropped
  unless it becomes the cached one.
\<close>

definition drop_cell :: "nat \<Rightarrow> 't table_world \<Rightarrow> 't table_world" where
  "drop_cell h w = w\<lparr> tw_cell := (tw_cell w)(h := None) \<rparr>"

definition install ::
  "l1_sizes \<Rightarrow> nat \<Rightarrow> nat \<Rightarrow> 't table_world \<Rightarrow> (nat, anyhow_error) result \<times> 't table_world" where
  "install L l1_size loaded w =
     (case tw_cache w of
        None \<Rightarrow> (Ok loaded, w\<lparr> tw_cache := Some \<lparr> ct_l1_size = l1_size, ct_tables = loaded \<rparr> \<rparr>)
      | Some e \<Rightarrow>
          if ct_l1_size e \<ge> l1_size then (Ok (ct_tables e), drop_cell loaded w)
          else if ct_l1_size e \<noteq> L1_LOW L then (Err (finalized_error (ct_l1_size e) l1_size), drop_cell loaded w)
          else if strong_count w loaded \<noteq> 0
          then (Err (AnyOther ''Loaded precomputed tables are unexpectedly shared''), w)
          else if tw_poisoned w loaded
          then (Err (AnyOther ''Loaded precomputed tables lock is poisoned''), drop_cell loaded w)
          else if tw_poisoned w (ct_tables e)
          then (Err (AnyOther ''Application precomputed tables lock is poisoned''), drop_cell loaded w)
          else (Ok (ct_tables e),
            drop_cell loaded (w\<lparr> tw_cell := (tw_cell w)(ct_tables e := tw_cell w loaded),
               tw_cache := Some (e\<lparr> ct_l1_size := l1_size \<rparr>) \<rparr>)))"

definition clear_cached_tables :: "'t table_world \<Rightarrow> 't table_world" where
  "clear_cached_tables w = snd (clear_if_unused w)"

section \<open>Loading\<close>

text \<open>
  Loading gives tables in a fresh cell.  It runs under the load lock, which other requests wait for; a
  request that may reuse the cache looks at it before and after it waits.
\<close>

datatype table_request =
  TIdle
| TAsked nat bool
| TWaiting nat bool
| TLoading nat
| TGot nat nat
| TFailed anyhow_error

record 't table_system =
  ts_world :: "'t table_world"
  ts_lock :: "nat option"
  ts_task :: "nat \<Rightarrow> table_request"

definition put_request :: "nat \<Rightarrow> table_request \<Rightarrow> 't table_system \<Rightarrow> 't table_system" where
  "put_request i r c = c\<lparr> ts_task := (ts_task c)(i := r) \<rparr>"

text \<open>The answer \<open>Ok handle\<close> is a new owner of the handle.\<close>

definition answer_request ::
  "nat \<Rightarrow> nat \<Rightarrow> (nat, anyhow_error) result \<Rightarrow> 't table_system \<Rightarrow> 't table_system" where
  "answer_request i requested r c =
     (case r of
        Inl e \<Rightarrow> put_request i (TFailed e) c
      | Inr h \<Rightarrow> put_request i (TGot h requested)
          (c\<lparr> ts_world := (ts_world c)\<lparr> tw_owners := (h, requested) # tw_owners (ts_world c) \<rparr> \<rparr>))"

definition look_request ::
  "l1_sizes \<Rightarrow> nat \<Rightarrow> nat \<Rightarrow> bool \<Rightarrow> table_request \<Rightarrow> 't table_system \<Rightarrow> 't table_system" where
  "look_request L i requested reuse later c =
     (if reuse
      then (case get_or_require_load L requested (ts_world c) of
              Inl e \<Rightarrow> answer_request i requested (Err e) c
            | Inr (Some h) \<Rightarrow> answer_request i requested (Ok h) c
            | Inr None \<Rightarrow> put_request i later c)
      else put_request i later c)"

definition enter_request :: "l1_sizes \<Rightarrow> nat \<Rightarrow> nat \<Rightarrow> bool \<Rightarrow> 't table_system \<Rightarrow> 't table_system" where
  "enter_request L i requested reuse c =
     (let c' = look_request L i requested reuse (TLoading requested) c in
      if ts_task c' i = TLoading requested then c'\<lparr> ts_lock := Some i \<rparr> else c')"

definition loaded_request ::
  "l1_sizes \<Rightarrow> nat \<Rightarrow> nat \<Rightarrow> (nat \<times> 't, anyhow_error) result \<Rightarrow> 't table_system \<Rightarrow> 't table_system" where
  "loaded_request L i requested r c =
     (case r of
        Inl e \<Rightarrow> answer_request i requested (Err e) (c\<lparr> ts_lock := None \<rparr>)
      | Inr (fresh, t) \<Rightarrow>
          (case install L requested fresh ((ts_world c)\<lparr> tw_cell := (tw_cell (ts_world c))(fresh \<mapsto> t) \<rparr>) of
             (q, w) \<Rightarrow> answer_request i requested q (c\<lparr> ts_world := w, ts_lock := None \<rparr>)))"

definition fresh_cell :: "nat \<Rightarrow> 't table_world \<Rightarrow> bool" where
  "fresh_cell h w \<longleftrightarrow> tw_cell w h = None \<and> strong_count w h = 0"

inductive table_step :: "l1_sizes \<Rightarrow> ('t \<Rightarrow> nat) \<Rightarrow> 't table_system \<Rightarrow> 't table_system \<Rightarrow> bool" for L size_of where
  ask: "ts_task c i = TIdle \<Longrightarrow> table_step L size_of c (put_request i (TAsked requested reuse) c)"
| look: "ts_task c i = TAsked requested reuse \<Longrightarrow>
    table_step L size_of c (look_request L i requested reuse (TWaiting requested reuse) c)"
| enter: "ts_task c i = TWaiting requested reuse \<Longrightarrow> ts_lock c = None \<Longrightarrow>
    table_step L size_of c (enter_request L i requested reuse c)"
| load_failed: "ts_task c i = TLoading requested \<Longrightarrow>
    table_step L size_of c (loaded_request L i requested (Err e) c)"
| load_done: "ts_task c i = TLoading requested \<Longrightarrow> fresh_cell fresh (ts_world c) \<Longrightarrow> size_of t = requested \<Longrightarrow>
    table_step L size_of c (loaded_request L i requested (Ok (fresh, t)) c)"
| release: "tw_owners (ts_world c) = xs @ own # ys \<Longrightarrow>
    table_step L size_of c (c\<lparr> ts_world := (ts_world c)\<lparr> tw_owners := xs @ ys \<rparr> \<rparr>)"
| clear: "table_step L size_of c (c\<lparr> ts_world := clear_cached_tables (ts_world c) \<rparr>)"

definition no_tables :: "(nat \<Rightarrow> bool) \<Rightarrow> 't table_system" where
  "no_tables poisoned =
     \<lparr> ts_world = \<lparr> tw_cell = Map.empty, tw_poisoned = poisoned, tw_cache = None, tw_owners = [] \<rparr>,
       ts_lock = None, ts_task = (\<lambda>_. TIdle) \<rparr>"

text \<open>Every owner shares the cached cell, whose content has the size the cache says and the owners asked for.\<close>

definition table_inv :: "('t \<Rightarrow> nat) \<Rightarrow> 't table_world \<Rightarrow> bool" where
  "table_inv size_of w \<longleftrightarrow>
     (case tw_cache w of
        None \<Rightarrow> tw_owners w = []
      | Some e \<Rightarrow>
          (\<exists>t. tw_cell w (ct_tables e) = Some t \<and> size_of t = ct_l1_size e) \<and>
          (\<forall>h requested. (h, requested) \<in> set (tw_owners w) \<longrightarrow> h = ct_tables e \<and> requested \<le> ct_l1_size e))"

section \<open>Facts\<close>

lemma owners_count: "(h, requested) \<in> set (tw_owners w) \<Longrightarrow> 0 < length (filter (\<lambda>(o', _). o' = h) (tw_owners w))"
  by (auto simp: filter_empty_conv)

lemma cached_count:
  assumes "tw_cache w = Some e" "tw_owners w = own # rest" "table_inv size_of w"
  shows "strong_count w (ct_tables e) > 1"
  using assms by (cases own) (auto simp: strong_count_def table_inv_def)

lemma table_inv_clear: "table_inv size_of w \<Longrightarrow> table_inv size_of (clear_cached_tables w)"
proof (cases "tw_cache w")
  case (Some e)
  assume inv: "table_inv size_of w"
  then show ?thesis
    using Some cached_count [OF Some _ inv]
    by (cases "tw_owners w") (auto simp: clear_cached_tables_def clear_if_unused_def table_inv_def)
qed (simp add: clear_cached_tables_def clear_if_unused_def table_inv_def)

lemma table_inv_found:
  assumes "table_inv size_of w" "get_or_require_load L requested w = Ok (Some h)"
  shows "table_inv size_of (w\<lparr> tw_owners := (h, requested) # tw_owners w \<rparr>)"
  using assms by (auto simp: table_inv_def get_or_require_load_def split: option.splits if_splits)

lemma table_inv_installed:
  assumes inv: "table_inv size_of w" and fresh: "fresh_cell loaded w" and t: "size_of t = requested"
    and run: "install L requested loaded (w\<lparr> tw_cell := (tw_cell w)(loaded \<mapsto> t) \<rparr>) = (r, w')"
  shows "table_inv size_of w' \<and> (\<forall>h. r = Ok h \<longrightarrow> table_inv size_of (w'\<lparr> tw_owners := (h, requested) # tw_owners w' \<rparr>))"
proof (cases "tw_cache w")
  case None
  then show ?thesis using inv t run by (auto simp: install_def table_inv_def)
next
  case (Some e)
  have other: "ct_tables e \<noteq> loaded" using fresh Some by (auto simp: fresh_cell_def strong_count_def)
  show ?thesis
    using inv t run Some other
    by (force simp: install_def table_inv_def drop_cell_def split: if_splits)
qed

fun holds_load_lock :: "table_request \<Rightarrow> bool" where
  "holds_load_lock (TLoading n) = True"
| "holds_load_lock _ = False"

definition table_system_inv :: "('t \<Rightarrow> nat) \<Rightarrow> 't table_system \<Rightarrow> bool" where
  "table_system_inv size_of c \<longleftrightarrow>
     table_inv size_of (ts_world c) \<and> (\<forall>i. holds_load_lock (ts_task c i) \<longleftrightarrow> ts_lock c = Some i)"

lemma table_system_inv_at:
  "table_system_inv size_of c \<Longrightarrow> holds_load_lock (ts_task c i) \<longleftrightarrow> ts_lock c = Some i"
  by (simp add: table_system_inv_def)

lemma table_system_inv_put:
  assumes "table_system_inv size_of c" "\<not> holds_load_lock (ts_task c i)" "\<not> holds_load_lock r"
  shows "table_system_inv size_of (put_request i r c)"
  using assms table_system_inv_at [OF assms(1), of i] by (auto simp: table_system_inv_def put_request_def)

lemma table_system_inv_answer:
  assumes "\<forall>j. j \<noteq> i \<longrightarrow> (holds_load_lock (ts_task c j) \<longleftrightarrow> ts_lock c = Some j)" "ts_lock c \<noteq> Some i"
    and "table_inv size_of (ts_world c)"
    and "\<And>h. r = Ok h \<Longrightarrow> table_inv size_of ((ts_world c)\<lparr> tw_owners := (h, requested) # tw_owners (ts_world c) \<rparr>)"
  shows "table_system_inv size_of (answer_request i requested r c)"
  using assms by (cases r) (auto simp: table_system_inv_def answer_request_def put_request_def)

lemma table_system_inv_look:
  assumes inv: "table_system_inv size_of c" and task: "\<not> holds_load_lock (ts_task c i)" and later: "\<not> holds_load_lock later"
  shows "table_system_inv size_of (look_request L i requested reuse later c)"
proof -
  note at = table_system_inv_at [OF inv]
  have answered: "table_system_inv size_of (answer_request i requested r c)"
    if "\<And>h. r = Ok h \<Longrightarrow> get_or_require_load L requested (ts_world c) = Ok (Some h)" for r
    using inv task at that by (intro table_system_inv_answer) (auto simp: table_system_inv_def intro: table_inv_found)
  show ?thesis
    using answered table_system_inv_put [OF inv task later]
    by (auto simp: look_request_def split: sum.split option.split)
qed

lemma table_system_inv_enter:
  assumes inv: "table_system_inv size_of c" and task: "ts_task c i = TWaiting requested reuse" and free: "ts_lock c = None"
  shows "table_system_inv size_of (enter_request L i requested reuse c)"
proof (cases "look_request L i requested reuse (TLoading requested) c = put_request i (TLoading requested) c")
  case True
  then show ?thesis
    using inv free by (auto simp: enter_request_def table_system_inv_def put_request_def)
next
  case False
  then have eq: "look_request L i requested reuse (TLoading requested) c = look_request L i requested reuse (TWaiting requested reuse) c"
    and not: "ts_task (look_request L i requested reuse (TLoading requested) c) i \<noteq> TLoading requested"
    by (auto simp: look_request_def answer_request_def put_request_def split: sum.splits option.splits if_splits)
  show ?thesis
    using table_system_inv_look [OF inv, of i "TWaiting requested reuse" L requested reuse] task not
    by (simp add: enter_request_def eq)
qed

lemma table_system_inv_loaded:
  assumes inv: "table_system_inv size_of c" and task: "ts_task c i = TLoading requested"
    and fresh: "\<And>h t. r = Ok (h, t) \<Longrightarrow> fresh_cell h (ts_world c) \<and> size_of t = requested"
  shows "table_system_inv size_of (loaded_request L i requested r c)"
proof -
  have lock: "ts_lock c = Some i" using table_system_inv_at [OF inv, of i] task by simp
  then have others: "\<forall>j. j \<noteq> i \<longrightarrow> \<not> holds_load_lock (ts_task c j)" using table_system_inv_at [OF inv] by auto
  show ?thesis
  proof (cases r)
    case (Inl e)
    then show ?thesis
      using inv others lock
      by (auto simp: loaded_request_def table_system_inv_def answer_request_def put_request_def)
  next
    case (Inr ft)
    obtain h t where ft: "ft = (h, t)" by fastforce
    obtain q w where run: "install L requested h ((ts_world c)\<lparr> tw_cell := (tw_cell (ts_world c))(h \<mapsto> t) \<rparr>) = (q, w)"
      by fastforce
    have "table_inv size_of (ts_world c)" using inv by (simp add: table_system_inv_def)
    from table_inv_installed [OF this _ _ run] fresh [of h t] Inr ft
    have "table_inv size_of w \<and> (\<forall>h. q = Ok h \<longrightarrow> table_inv size_of (w\<lparr> tw_owners := (h, requested) # tw_owners w \<rparr>))"
      by simp
    then show ?thesis
      using Inr ft run others by (simp add: loaded_request_def table_system_inv_answer)
  qed
qed

lemma table_system_inv_step:
  assumes "table_step L size_of c c'" "table_system_inv size_of c"
  shows "table_system_inv size_of c'"
  using assms
proof cases
  case (ask i requested reuse)
  then show ?thesis using table_system_inv_put [OF assms(2), of i] by simp
next
  case (look i requested reuse)
  then show ?thesis using table_system_inv_look [OF assms(2), of i] by simp
next
  case (enter i requested reuse)
  then show ?thesis using table_system_inv_enter [OF assms(2)] by simp
next
  case (load_failed i requested e)
  then show ?thesis using table_system_inv_loaded [OF assms(2), of i requested "Err e"] by simp
next
  case (load_done i requested fresh t)
  then show ?thesis using table_system_inv_loaded [OF assms(2), of i requested "Ok (fresh, t)"] by simp
next
  case (release xs own ys)
  then show ?thesis
    using assms(2) by (auto simp: table_system_inv_def table_inv_def split: option.splits)
next
  case clear
  then show ?thesis using assms(2) table_inv_clear by (auto simp: table_system_inv_def)
qed

lemma table_system_inv_steps:
  assumes "(table_step L size_of)\<^sup>*\<^sup>* (no_tables poisoned) c"
  shows "table_system_inv size_of c"
  using assms
proof (induction rule: rtranclp_induct)
  case base
  then show ?case by (simp add: table_system_inv_def table_inv_def no_tables_def)
qed (rule table_system_inv_step)

text \<open>
  A first request that loads small tables, and a second one that loads larger ones while the first still
  uses its own.
\<close>

definition demo_sizes :: l1_sizes where
  "demo_sizes = \<lparr> L1_LOW = 13, L1_MEDIUM = 18, L1_FULL = 26 \<rparr>"

definition demo_loading :: "nat table_system" where
  "demo_loading =
     enter_request demo_sizes 1 26 True (look_request demo_sizes 1 26 True (TWaiting 26 True) (put_request 1 (TAsked 26 True)
       (loaded_request demo_sizes 0 13 (Ok (0, 13)) (enter_request demo_sizes 0 13 True
         (look_request demo_sizes 0 13 True (TWaiting 13 True) (put_request 0 (TAsked 13 True)
           (no_tables (\<lambda>_. False))))))))"

lemmas table_run_simps =
  demo_loading_def demo_sizes_def no_tables_def put_request_def look_request_def get_or_require_load_def
  enter_request_def loaded_request_def install_def answer_request_def fresh_cell_def strong_count_def

lemma demo_loading_reachable: "(table_step demo_sizes id)\<^sup>*\<^sup>* (no_tables (\<lambda>_. False)) demo_loading"
  unfolding demo_loading_def
  apply (rule rtranclp.rtrancl_into_rtrancl [where b = "look_request demo_sizes 1 26 True (TWaiting 26 True) _"])
   apply (rule rtranclp.rtrancl_into_rtrancl [where b = "put_request 1 (TAsked 26 True) _"])
    apply (rule rtranclp.rtrancl_into_rtrancl [where b = "loaded_request demo_sizes 0 13 (Ok (0, 13)) _"])
     apply (rule rtranclp.rtrancl_into_rtrancl [where b = "enter_request demo_sizes 0 13 True _"])
      apply (rule rtranclp.rtrancl_into_rtrancl [where b = "look_request demo_sizes 0 13 True (TWaiting 13 True) _"])
       apply (rule rtranclp.rtrancl_into_rtrancl [where b = "put_request 0 (TAsked 13 True) _"])
        apply (rule r_into_rtranclp, rule table_step.ask, simp add: table_run_simps)
       apply (rule table_step.look, simp add: table_run_simps)
      apply (rule table_step.enter; simp add: table_run_simps)
     apply (rule table_step.load_done; simp add: table_run_simps)
    apply (rule table_step.ask, simp add: table_run_simps)
   apply (rule table_step.look, simp add: table_run_simps)
  apply (rule table_step.enter; simp add: table_run_simps)
  done

section \<open>Properties\<close>

text \<open>
  C37: however the requests for tables interleave with each other, with wallets being dropped and with
  clearing, tables are loaded or generated by one request at a time, from the first request on, and all
  wallets share the cell the cache names, whose content is what the cache says it is and at least as large
  as every wallet asked for.
\<close>

theorem wallets_share_sufficient_tables:
  assumes "(table_step L size_of)\<^sup>*\<^sup>* (no_tables poisoned) c"
  shows "(\<forall>i j. holds_load_lock (ts_task c i) \<longrightarrow> holds_load_lock (ts_task c j) \<longrightarrow> i = j) \<and>
    (\<forall>h requested. (h, requested) \<in> set (tw_owners (ts_world c)) \<longrightarrow>
      (\<exists>e t. tw_cache (ts_world c) = Some e \<and> h = ct_tables e \<and> tw_cell (ts_world c) h = Some t \<and>
        size_of t = ct_l1_size e \<and> requested \<le> size_of t))"
proof (intro conjI allI impI)
  have inv: "table_system_inv size_of c" by (rule table_system_inv_steps [OF assms])
  show "i = j" if "holds_load_lock (ts_task c i)" "holds_load_lock (ts_task c j)" for i j
    using that table_system_inv_at [OF inv] by simp
  show "\<exists>e t. tw_cache (ts_world c) = Some e \<and> h = ct_tables e \<and> tw_cell (ts_world c) h = Some t \<and>
      size_of t = ct_l1_size e \<and> requested \<le> size_of t"
    if "(h, requested) \<in> set (tw_owners (ts_world c))" for h requested
  proof -
    have "table_inv size_of (ts_world c)" using inv by (simp add: table_system_inv_def)
    then show ?thesis using that by (cases "tw_cache (ts_world c)") (auto simp: table_inv_def)
  qed
qed

theorem wallets_share_sufficient_tables_witness:
  "holds_load_lock (ts_task demo_loading 1) \<and> \<not> holds_load_lock (ts_task demo_loading 0) \<and>
   (\<exists>e. tw_cache (ts_world demo_loading) = Some e \<and> 0 = ct_tables e \<and> 13 \<le> ct_l1_size e)"
proof -
  note c = wallets_share_sufficient_tables [OF demo_loading_reachable]
  have "holds_load_lock (ts_task demo_loading 1)" by (simp add: table_run_simps)
  moreover from this have "\<not> holds_load_lock (ts_task demo_loading 0)" using c by (metis zero_neq_one)
  moreover have "(0, 13) \<in> set (tw_owners (ts_world demo_loading))" by (simp add: table_run_simps)
  then have "\<exists>e. tw_cache (ts_world demo_loading) = Some e \<and> 0 = ct_tables e \<and> 13 \<le> ct_l1_size e"
    using c by fastforce
  ultimately show ?thesis by blast
qed

text \<open>
  The table type of a size is the type with that size: asking for the type that was reported gives
  the same size again, for the three sizes of the library and for every custom size in 16..32.
\<close>

theorem table_type_roundtrip:
  "to_l1_size L ty = Ok n \<Longrightarrow> to_l1_size L (precomputed_table_type_from_l1 L n) = Ok n"
  by (cases ty) (auto simp: precomputed_table_type_from_l1_def split: if_splits)

theorem table_type_roundtrip_witness:
  "to_l1_size \<lparr> L1_LOW = 13, L1_MEDIUM = 18, L1_FULL = 26 \<rparr>
     (precomputed_table_type_from_l1 \<lparr> L1_LOW = 13, L1_MEDIUM = 18, L1_FULL = 26 \<rparr> 32) = Ok 32"
  by (rule table_type_roundtrip [where ty = "L1Custom 32"]) simp

end
