(* ===== verification/Connection.thy ===== *)
theory Connection
  imports Address Error_Classification
begin

text \<open>
  Connecting a wallet to a daemon and taking it offline: the attempts of \<open>wallet.rs\<close> and the
  connection part of \<open>wallet/runtime.rs\<close>.

  A call of \<open>online_mode\<close> owns one connection attempt and spawns one worker for it; calls of
  \<open>offline_mode\<close> and \<open>close\<close> cancel the current attempt.  Calls and workers advance in
  steps that end where the code awaits something or where another thread can see the difference, and a
  step that has to wait gives no result.  An attempt has the number of the call it belongs to, which also
  names the daemon connection (the \<open>DaemonAPI\<close>) of the attempt.

  The answers of the daemon and of the upstream wallet are an argument of each step.  The upstream wallet
  has at most one network handler.  Going offline removes it, whatever the answer is, as
  \<open>offline_mode\<close> notes; a forced disconnect closes the socket.
\<close>

section \<open>Requests and answers\<close>

datatype native_wallet_reconnect_policy = ApplicationManaged | UpstreamManagedExperimental

record native_wallet_connection_options =
  timeout_millis :: u64
  reconnect_policy :: native_wallet_reconnect_policy

record url =
  url_scheme :: string
  url_has_host :: bool
  url_username :: string
  url_password :: "string option"
  url_path :: string
  url_query :: "string option"
  url_fragment :: "string option"

record daemon_host =
  sanitize_ws_address :: "string \<Rightarrow> string"
  parse_url :: "string \<Rightarrow> url option"
  dh_text :: upstream_text
  dh_network :: network

record upstream_answers =
  ans_connect :: "(unit, anyhow_error) result"
  ans_info :: "(network, anyhow_error) result"
  ans_online :: "(unit, wallet_error) result"
  ans_offline :: "(unit, wallet_error) result"

section \<open>Helpers\<close>

definition invalid_daemon_address :: native_xelis_error where
  "invalid_daemon_address =
     xelis_wallet_flutter_error InvalidInput ''DAEMON_ADDRESS_INVALID''
       ''Daemon address must be an HTTP or WebSocket origin, or host[:port], without credentials, path, query, or fragment''"

definition is_origin :: "url \<Rightarrow> bool" where
  "is_origin u \<longleftrightarrow> url_has_host u \<and> url_username u = [] \<and> url_password u = None \<and>
     (url_path u = [] \<or> url_path u = ''/'') \<and> url_query u = None \<and> url_fragment u = None"

definition daemon_rpc_endpoint :: "daemon_host \<Rightarrow> string \<Rightarrow> (string, native_xelis_error) result" where
  "daemon_rpc_endpoint D daemon_address =
     (let normalized_address = sanitize_ws_address D daemon_address in
      case parse_url D normalized_address of
        None \<Rightarrow> Err invalid_daemon_address
      | Some u \<Rightarrow>
          if (url_scheme u = ''ws'' \<or> url_scheme u = ''wss'') \<and> is_origin u
          then Ok (normalized_address @ ''/json_rpc'')
          else Err invalid_daemon_address)"

definition ensure_daemon_network :: "daemon_host \<Rightarrow> network \<Rightarrow> (unit, native_xelis_error) result" where
  "ensure_daemon_network D daemon_network =
     (if dh_network D = daemon_network then Ok ()
      else Err (from_wallet_error (dh_text D) (WNetworkError NetNetworkMismatch)))"

fun normalize_offline_mode_result :: "upstream_text \<Rightarrow> (unit, wallet_error) result \<Rightarrow> (unit, native_xelis_error) result" where
  "normalize_offline_mode_result up (Inr _) = Ok ()"
| "normalize_offline_mode_result up (Inl WNotOnlineMode) = Ok ()"
| "normalize_offline_mode_result up (Inl (WNetworkError NetNotRunning)) = Ok ()"
| "normalize_offline_mode_result up (Inl (WNetworkError (NetDaemonAPIError _))) = Ok ()"
| "normalize_offline_mode_result up (Inl e) = Err (from_wallet_error up e)"

definition network_connect_timeout :: native_xelis_error where
  "network_connect_timeout =
     xelis_wallet_flutter_error Network ''NETWORK_CONNECT_TIMEOUT''
       ''Native wallet connection exceeded its configured caller limit''"

definition network_connect_worker_failed :: native_xelis_error where
  "network_connect_worker_failed =
     xelis_wallet_flutter_error Internal ''NETWORK_CONNECT_WORKER_FAILED''
       ''Native wallet connection worker stopped before acknowledgement''"

definition network_connect_cancelled :: native_xelis_error where
  "network_connect_cancelled =
     xelis_wallet_flutter_error Cancelled ''NETWORK_CONNECT_CANCELLED''
       ''Native wallet connection was cancelled before activation''"

definition network_connect_in_progress :: native_xelis_error where
  "network_connect_in_progress =
     xelis_wallet_flutter_error OperationInProgress ''NETWORK_CONNECT_IN_PROGRESS''
       ''A native wallet connection attempt is already in progress''"

definition network_timeout_invalid :: native_xelis_error where
  "network_timeout_invalid =
     xelis_wallet_flutter_error InvalidInput ''NETWORK_TIMEOUT_INVALID'' ''Connection timeout must be positive''"

section \<open>State\<close>

text \<open>A one-shot acknowledgement: not decided, sent, or its sender was dropped.\<close>

datatype ack = AckPending | AckSent | AckDropped

text \<open>
  Where the worker of an attempt stands, up to the drop of its guard (\<open>WComplete\<close>, \<open>WClear\<close>)
  with the error it then sends, if any.
\<close>

datatype worker =
  WNone
| WConnect
| WConnected
| WInfo
| WActivate
| WInstall
| WInstalled
| WUndo
| WUndoOffline
| WSendOk
| WAcks
| WFinal
| WRollback
| WRollbackOffline
| WComplete "native_xelis_error option"
| WClear "native_xelis_error option"
| WSend native_xelis_error
| WDone

record attempt =
  at_address :: string
  at_policy :: native_wallet_reconnect_policy
  at_cancelled :: bool
  at_completed :: bool
  at_activation :: bool
  at_api :: bool
  at_open :: bool
  at_reconnect :: bool
  at_result :: "(unit, native_xelis_error) result option"
  at_receiver :: bool
  at_accepted :: ack
  at_finalized :: ack
  at_worker :: worker

definition new_attempt :: "string \<Rightarrow> native_wallet_reconnect_policy \<Rightarrow> attempt" where
  "new_attempt daemon_address policy =
     \<lparr> at_address = daemon_address, at_policy = policy, at_cancelled = False, at_completed = False,
       at_activation = False, at_api = False, at_open = False, at_reconnect = False, at_result = None,
       at_receiver = True, at_accepted = AckPending, at_finalized = AckPending, at_worker = WNone \<rparr>"

text \<open>Where \<open>cancel_connection_attempt\<close> stands; the number is the attempt it found.\<close>

datatype canceller = KRequest bool | KCancel nat | KDisconnect nat | KBarrier nat | KWait nat | KDone

text \<open>Where \<open>online_mode\<close> stands after it acquired its attempt.\<close>

datatype caller =
  COnlineCheck
| CStale
| CStaleDisconnect nat
| CStaleOffline
| CSpawn
| CWait
| CAccepted
| CLock
| CJoin
| CJoinOk
| CCancel canceller
| CComplete native_xelis_error
| CClear native_xelis_error
| CReturned "(unit, native_xelis_error) result"

datatype stop_kind = StopOffline | StopClose

text \<open>Where \<open>offline_mode\<close> and \<open>close\<close> stand.\<close>

datatype stopper =
  SCancel canceller
| STake
| SDisconnect nat
| SOffline
| SReturned "(unit, native_xelis_error) result"

text \<open>
  A call in progress or returned.  A stop carries the number of calls there were when it read the current
  attempt; no step depends on it.
\<close>

datatype call =
  Refused native_xelis_error
| Online caller
| Stop stop_kind nat stopper

record conn =
  cn_count :: nat
  cn_call :: "nat \<Rightarrow> call"
  cn_attempt :: "nat \<Rightarrow> attempt"
  cn_current :: "nat option"
  cn_closed :: bool
  cn_active :: "nat option"
  cn_active_lock :: bool
  cn_online :: "nat option"

definition put_attempt :: "nat \<Rightarrow> attempt \<Rightarrow> conn \<Rightarrow> conn" where
  "put_attempt a x c = c\<lparr> cn_attempt := (cn_attempt c)(a := x) \<rparr>"

definition put_call :: "nat \<Rightarrow> call \<Rightarrow> conn \<Rightarrow> conn" where
  "put_call i k c = c\<lparr> cn_call := (cn_call c)(i := k) \<rparr>"

definition put_worker :: "nat \<Rightarrow> worker \<Rightarrow> conn \<Rightarrow> conn" where
  "put_worker a w c = put_attempt a ((cn_attempt c a)\<lparr> at_worker := w \<rparr>) c"

definition set_offline :: "conn \<Rightarrow> conn" where
  "set_offline c = c\<lparr> cn_online := None \<rparr>"

section \<open>Attempts\<close>

definition attempt_cancel :: "nat \<Rightarrow> conn \<Rightarrow> conn" where
  "attempt_cancel a c = put_attempt a ((cn_attempt c a)\<lparr> at_cancelled := True \<rparr>) c"

definition attempt_complete :: "nat \<Rightarrow> conn \<Rightarrow> conn" where
  "attempt_complete a c = put_attempt a ((cn_attempt c a)\<lparr> at_completed := True \<rparr>) c"

text \<open>The second half of dropping the guard.\<close>

definition clear_current :: "nat \<Rightarrow> conn \<Rightarrow> conn" where
  "clear_current a c = (if cn_current c = Some a then c\<lparr> cn_current := None \<rparr> else c)"

definition disconnect_daemon_api :: "nat \<Rightarrow> conn \<Rightarrow> conn" where
  "disconnect_daemon_api a c = put_attempt a ((cn_attempt c a)\<lparr> at_open := False \<rparr>) c"

text \<open>No automatic reconnection any more, and a forced disconnect.\<close>

definition stop_api :: "nat \<Rightarrow> conn \<Rightarrow> conn" where
  "stop_api a c = put_attempt a ((cn_attempt c a)\<lparr> at_reconnect := False, at_open := False \<rparr>) c"

fun cancel_current :: "bool \<Rightarrow> conn \<Rightarrow> nat option \<times> conn" where
  "cancel_current terminal c = (cn_current c, c\<lparr> cn_closed := (cn_closed c \<or> terminal) \<rparr>)"

fun cancel_connection_attempt :: "canceller \<Rightarrow> conn \<Rightarrow> (canceller \<times> conn) option" where
  "cancel_connection_attempt (KRequest terminal) c =
     (case cancel_current terminal c of
        (None, c) \<Rightarrow> Some (KDone, c)
      | (Some a, c) \<Rightarrow> Some (KCancel a, c))"
| "cancel_connection_attempt (KCancel a) c = Some (KDisconnect a, attempt_cancel a c)"
| "cancel_connection_attempt (KDisconnect a) c =
     Some (KBarrier a, if at_api (cn_attempt c a) then stop_api a c else c)"
| "cancel_connection_attempt (KBarrier a) c =
     (if at_activation (cn_attempt c a) then None else Some (KWait a, c))"
| "cancel_connection_attempt (KWait a) c =
     (if at_completed (cn_attempt c a) then Some (KDone, c) else None)"
| "cancel_connection_attempt KDone c = None"

section \<open>The worker\<close>

definition worker_fail :: "nat \<Rightarrow> native_xelis_error \<Rightarrow> conn \<Rightarrow> conn" where
  "worker_fail a e c = put_worker a (WComplete (Some e)) (disconnect_daemon_api a c)"

definition worker_connect :: "daemon_host \<Rightarrow> upstream_answers \<Rightarrow> nat \<Rightarrow> conn \<Rightarrow> conn" where
  "worker_connect D ans a c =
     (let x = cn_attempt c a in
      case and_then (daemon_rpc_endpoint D (at_address x)) (\<lambda>_.
             map_err (\<lambda>e. from_wallet_operation (dh_text D) e Network ''DAEMON_CONNECT_FAILED'') (ans_connect ans)) of
        Inl e \<Rightarrow> put_worker a (WComplete (Some e)) c
      | Inr _ \<Rightarrow> put_attempt a (x\<lparr> at_api := True, at_open := True, at_reconnect := True, at_worker := WConnected \<rparr>) c)"

definition worker_connected :: "nat \<Rightarrow> conn \<Rightarrow> conn" where
  "worker_connected a c =
     (let x = cn_attempt c a;
          c = (if at_policy x = ApplicationManaged then put_attempt a (x\<lparr> at_reconnect := False \<rparr>) c else c) in
      if at_cancelled x then worker_fail a network_connect_cancelled c else put_worker a WInfo c)"

definition worker_info :: "daemon_host \<Rightarrow> upstream_answers \<Rightarrow> nat \<Rightarrow> conn \<Rightarrow> conn" where
  "worker_info D ans a c =
     (case and_then (map_err (\<lambda>e. from_wallet_operation (dh_text D) e Network ''DAEMON_INFO_PREFLIGHT_FAILED'') (ans_info ans))
             (ensure_daemon_network D) of
        Inl e \<Rightarrow> worker_fail a e c
      | Inr _ \<Rightarrow>
          if at_cancelled (cn_attempt c a) then worker_fail a network_connect_cancelled c
          else put_worker a WActivate c)"

definition worker_activate :: "nat \<Rightarrow> conn \<Rightarrow> conn" where
  "worker_activate a c =
     (let x = cn_attempt c a in
      if at_cancelled x then worker_fail a network_connect_cancelled c
      else put_attempt a (x\<lparr> at_activation := True, at_worker := WInstall \<rparr>) c)"

definition release_activation :: "nat \<Rightarrow> conn \<Rightarrow> conn" where
  "release_activation a c = put_attempt a ((cn_attempt c a)\<lparr> at_activation := False \<rparr>) c"

definition worker_install :: "daemon_host \<Rightarrow> upstream_answers \<Rightarrow> nat \<Rightarrow> conn \<Rightarrow> conn" where
  "worker_install D ans a c =
     (case ans_online ans of
        Inl e \<Rightarrow> release_activation a (worker_fail a (from_wallet_error (dh_text D) e) c)
      | Inr _ \<Rightarrow> put_worker a WInstalled (c\<lparr> cn_online := Some a \<rparr>))"

definition worker_installed :: "nat \<Rightarrow> conn \<Rightarrow> conn" where
  "worker_installed a c =
     (if at_cancelled (cn_attempt c a) then put_worker a WUndo c
      else release_activation a (put_worker a WSendOk c))"

definition worker_send_ok :: "nat \<Rightarrow> conn \<Rightarrow> conn" where
  "worker_send_ok a c =
     (let x = cn_attempt c a in
      if at_receiver x then put_attempt a (x\<lparr> at_result := Some (Ok ()), at_worker := WAcks \<rparr>) c
      else put_worker a WRollback c)"

text \<open>Both acknowledgements, in order; none while the one waited for is not decided.\<close>

fun await_connection_acknowledgements :: "ack \<Rightarrow> ack \<Rightarrow> bool option" where
  "await_connection_acknowledgements AckPending _ = None"
| "await_connection_acknowledgements AckDropped _ = Some False"
| "await_connection_acknowledgements AckSent AckPending = None"
| "await_connection_acknowledgements AckSent AckDropped = Some False"
| "await_connection_acknowledgements AckSent AckSent = Some True"

definition worker_acks :: "nat \<Rightarrow> conn \<Rightarrow> conn option" where
  "worker_acks a c =
     (let x = cn_attempt c a in
      case await_connection_acknowledgements (at_accepted x) (at_finalized x) of
        None \<Rightarrow> None
      | Some True \<Rightarrow> Some (put_worker a WFinal c)
      | Some False \<Rightarrow> Some (put_worker a WRollback c))"

definition worker_final :: "nat \<Rightarrow> conn \<Rightarrow> conn" where
  "worker_final a c =
     put_worker a (if at_cancelled (cn_attempt c a) then WRollback else WComplete None) c"

definition worker_send_err :: "nat \<Rightarrow> native_xelis_error \<Rightarrow> conn \<Rightarrow> conn" where
  "worker_send_err a e c =
     (let x = cn_attempt c a in
      put_attempt a (x\<lparr> at_result := (if at_receiver x then Some (Err e) else at_result x), at_worker := WDone \<rparr>) c)"

definition worker_step :: "daemon_host \<Rightarrow> upstream_answers \<Rightarrow> nat \<Rightarrow> conn \<Rightarrow> conn option" where
  "worker_step D ans a c =
     (case at_worker (cn_attempt c a) of
        WNone \<Rightarrow> None
      | WConnect \<Rightarrow> Some (worker_connect D ans a c)
      | WConnected \<Rightarrow> Some (worker_connected a c)
      | WInfo \<Rightarrow> Some (worker_info D ans a c)
      | WActivate \<Rightarrow> Some (worker_activate a c)
      | WInstall \<Rightarrow> Some (worker_install D ans a c)
      | WInstalled \<Rightarrow> Some (worker_installed a c)
      | WUndo \<Rightarrow> Some (put_worker a WUndoOffline (stop_api a c))
      | WUndoOffline \<Rightarrow>
          Some (release_activation a (put_worker a (WComplete (Some network_connect_cancelled)) (set_offline c)))
      | WSendOk \<Rightarrow> Some (worker_send_ok a c)
      | WAcks \<Rightarrow> worker_acks a c
      | WFinal \<Rightarrow> Some (worker_final a c)
      | WRollback \<Rightarrow> Some (put_worker a WRollbackOffline (stop_api a c))
      | WRollbackOffline \<Rightarrow> Some (put_worker a (WComplete None) (set_offline c))
      | WComplete e \<Rightarrow> Some (put_worker a (WClear e) (attempt_complete a c))
      | WClear e \<Rightarrow> Some (put_worker a (case e of Some e \<Rightarrow> WSend e | None \<Rightarrow> WDone) (clear_current a c))
      | WSend e \<Rightarrow> Some (worker_send_err a e c)
      | WDone \<Rightarrow> None)"

section \<open>Going online\<close>

definition put_caller :: "nat \<Rightarrow> caller \<Rightarrow> conn \<Rightarrow> conn" where
  "put_caller i p c = put_call i (Online p) c"

definition online_check :: "daemon_host \<Rightarrow> nat \<Rightarrow> conn \<Rightarrow> conn" where
  "online_check D i c =
     put_caller i (if cn_online c \<noteq> None then CComplete (from_wallet_error (dh_text D) WAlreadyOnlineMode) else CStale) c"

definition take_stale :: "nat \<Rightarrow> conn \<Rightarrow> conn option" where
  "take_stale i c =
     (if cn_active_lock c then None
      else case cn_active c of
        None \<Rightarrow> Some (put_caller i CSpawn c)
      | Some b \<Rightarrow> Some (put_caller i (CStaleDisconnect b) (c\<lparr> cn_active := None, cn_active_lock := True \<rparr>)))"

definition stale_offline :: "daemon_host \<Rightarrow> upstream_answers \<Rightarrow> nat \<Rightarrow> conn \<Rightarrow> conn" where
  "stale_offline D ans i c =
     put_caller i
       (case normalize_offline_mode_result (dh_text D) (ans_offline ans) of Inl e \<Rightarrow> CComplete e | Inr _ \<Rightarrow> CSpawn)
       (set_offline (c\<lparr> cn_active_lock := False \<rparr>))"

definition spawn_worker :: "nat \<Rightarrow> conn \<Rightarrow> conn" where
  "spawn_worker i c =
     (if at_cancelled (cn_attempt c i) then put_caller i (CComplete network_connect_cancelled) c
      else put_caller i CWait (put_worker i WConnect c))"

definition receive_result :: "nat \<Rightarrow> conn \<Rightarrow> conn option" where
  "receive_result i c =
     (let x = cn_attempt c i in
      case at_result x of
        None \<Rightarrow> None
      | Some (Inl e) \<Rightarrow> Some (put_caller i (CReturned (Err e)) c)
      | Some (Inr _) \<Rightarrow>
          if at_worker x = WAcks
          then Some (put_caller i CAccepted (put_attempt i (x\<lparr> at_accepted := AckSent \<rparr>) c))
          else Some (put_caller i (CReturned (Err network_connect_worker_failed)) c))"

definition drop_finalized :: "nat \<Rightarrow> conn \<Rightarrow> conn" where
  "drop_finalized i c = put_caller i CJoin (put_attempt i ((cn_attempt c i)\<lparr> at_finalized := AckDropped \<rparr>) c)"

definition accepted_check :: "nat \<Rightarrow> conn \<Rightarrow> conn" where
  "accepted_check i c = (if at_cancelled (cn_attempt c i) then drop_finalized i c else put_caller i CLock c)"

definition publish_connection :: "nat \<Rightarrow> conn \<Rightarrow> conn option" where
  "publish_connection i c =
     (let x = cn_attempt c i in
      if cn_active_lock c then None
      else if at_cancelled x then Some (drop_finalized i c)
      else if at_worker x = WAcks
      then Some (put_caller i CJoinOk (put_attempt i (x\<lparr> at_finalized := AckSent \<rparr>) (c\<lparr> cn_active := Some i \<rparr>)))
      else Some (put_caller i (CReturned (Err network_connect_worker_failed)) (c\<lparr> cn_active := Some i \<rparr>)))"

text \<open>Waiting for the attempt to complete.\<close>

definition join_worker :: "nat \<Rightarrow> (unit, native_xelis_error) result \<Rightarrow> conn \<Rightarrow> conn option" where
  "join_worker i r c = (if at_completed (cn_attempt c i) then Some (put_caller i (CReturned r) c) else None)"

definition timeout_cancel :: "nat \<Rightarrow> canceller \<Rightarrow> conn \<Rightarrow> conn option" where
  "timeout_cancel i k c =
     (if k = KDone then Some (put_caller i (CReturned (Err network_connect_timeout)) c)
      else map_option (\<lambda>(k, c). put_caller i (CCancel k) c) (cancel_connection_attempt k c))"

definition online_mode_step :: "daemon_host \<Rightarrow> upstream_answers \<Rightarrow> nat \<Rightarrow> caller \<Rightarrow> conn \<Rightarrow> conn option" where
  "online_mode_step D ans i p c =
     (case p of
        COnlineCheck \<Rightarrow> Some (online_check D i c)
      | CStale \<Rightarrow> take_stale i c
      | CStaleDisconnect b \<Rightarrow> Some (put_caller i CStaleOffline (stop_api b c))
      | CStaleOffline \<Rightarrow> Some (stale_offline D ans i c)
      | CSpawn \<Rightarrow> Some (spawn_worker i c)
      | CWait \<Rightarrow> receive_result i c
      | CAccepted \<Rightarrow> Some (accepted_check i c)
      | CLock \<Rightarrow> publish_connection i c
      | CJoin \<Rightarrow> join_worker i (Err network_connect_cancelled) c
      | CJoinOk \<Rightarrow> join_worker i (if at_cancelled (cn_attempt c i) then Err network_connect_cancelled else Ok ()) c
      | CCancel k \<Rightarrow> timeout_cancel i k c
      | CComplete e \<Rightarrow> Some (put_caller i (CClear e) (attempt_complete i c))
      | CClear e \<Rightarrow> Some (put_caller i (CReturned (Err e)) (clear_current i c))
      | CReturned r \<Rightarrow> None)"

text \<open>
  The timeout of the caller.  It can also win when the result has just been delivered; the receiver of
  the result and both acknowledgements are dropped before the attempt is cancelled.
\<close>

definition complete_connection_timeout :: "nat \<Rightarrow> conn \<Rightarrow> conn" where
  "complete_connection_timeout i c =
     put_caller i (CCancel (KRequest False))
       (put_attempt i ((cn_attempt c i)\<lparr> at_receiver := False, at_accepted := AckDropped, at_finalized := AckDropped \<rparr>) c)"

section \<open>Going offline and closing\<close>

definition put_stop :: "nat \<Rightarrow> stop_kind \<Rightarrow> nat \<Rightarrow> stopper \<Rightarrow> conn \<Rightarrow> conn" where
  "put_stop i kind n p c = put_call i (Stop kind n p) c"

definition stop_cancel :: "nat \<Rightarrow> stop_kind \<Rightarrow> nat \<Rightarrow> canceller \<Rightarrow> conn \<Rightarrow> conn option" where
  "stop_cancel i kind n k c =
     (if k = KDone then Some (put_stop i kind n STake c)
      else map_option (\<lambda>(k', c'). put_stop i kind (case k of KRequest _ \<Rightarrow> cn_count c | _ \<Rightarrow> n) (SCancel k') c')
        (cancel_connection_attempt k c))"

definition take_active :: "nat \<Rightarrow> stop_kind \<Rightarrow> nat \<Rightarrow> conn \<Rightarrow> conn option" where
  "take_active i kind n c =
     (if cn_active_lock c then None
      else Some (put_stop i kind n (case cn_active c of None \<Rightarrow> SOffline | Some b \<Rightarrow> SDisconnect b) (c\<lparr> cn_active := None \<rparr>)))"

definition stop_offline :: "daemon_host \<Rightarrow> upstream_answers \<Rightarrow> nat \<Rightarrow> stop_kind \<Rightarrow> nat \<Rightarrow> conn \<Rightarrow> conn" where
  "stop_offline D ans i kind n c =
     put_stop i kind n
       (SReturned (case kind of
          StopOffline \<Rightarrow> normalize_offline_mode_result (dh_text D) (ans_offline ans)
        | StopClose \<Rightarrow> Ok ()))
       (set_offline c)"

definition stop_step ::
  "daemon_host \<Rightarrow> upstream_answers \<Rightarrow> nat \<Rightarrow> stop_kind \<Rightarrow> nat \<Rightarrow> stopper \<Rightarrow> conn \<Rightarrow> conn option" where
  "stop_step D ans i kind n p c =
     (case p of
        SCancel k \<Rightarrow> stop_cancel i kind n k c
      | STake \<Rightarrow> take_active i kind n c
      | SDisconnect b \<Rightarrow> Some (put_stop i kind n SOffline (stop_api b c))
      | SOffline \<Rightarrow> Some (stop_offline D ans i kind n c)
      | SReturned r \<Rightarrow> None)"

definition call_step :: "daemon_host \<Rightarrow> upstream_answers \<Rightarrow> nat \<Rightarrow> conn \<Rightarrow> conn option" where
  "call_step D ans i c =
     (case cn_call c i of
        Refused e \<Rightarrow> None
      | Online p \<Rightarrow> online_mode_step D ans i p c
      | Stop kind n p \<Rightarrow> stop_step D ans i kind n p c)"

section \<open>New calls\<close>

definition add_call :: "call \<Rightarrow> conn \<Rightarrow> conn" where
  "add_call k c = (put_call (cn_count c) k c)\<lparr> cn_count := Suc (cn_count c) \<rparr>"

text \<open>\<open>ConnectionAttemptGuard::acquire\<close> for the next call.\<close>

definition acquire_attempt :: "string \<Rightarrow> native_wallet_reconnect_policy \<Rightarrow> conn \<Rightarrow> (conn, native_xelis_error) result" where
  "acquire_attempt daemon_address policy c =
     (if cn_closed c then Err network_connect_cancelled
      else if cn_current c \<noteq> None then Err network_connect_in_progress
      else Ok (put_attempt (cn_count c) (new_attempt daemon_address policy) (c\<lparr> cn_current := Some (cn_count c) \<rparr>)))"

definition online_mode :: "string \<Rightarrow> native_wallet_connection_options \<Rightarrow> conn \<Rightarrow> conn" where
  "online_mode daemon_address options c =
     (if timeout_millis options = 0 then add_call (Refused network_timeout_invalid) c
      else case acquire_attempt daemon_address (reconnect_policy options) c of
        Inl e \<Rightarrow> add_call (Refused e) c
      | Inr c \<Rightarrow> add_call (Online COnlineCheck) c)"

definition stop_wallet :: "stop_kind \<Rightarrow> conn \<Rightarrow> conn" where
  "stop_wallet kind c = add_call (Stop kind (cn_count c) (SCancel (KRequest (kind = StopClose)))) c"

fun call_returned :: "call \<Rightarrow> bool" where
  "call_returned (Refused e) = True"
| "call_returned (Online p) = (case p of CReturned r \<Rightarrow> True | _ \<Rightarrow> False)"
| "call_returned (Stop kind n p) = (case p of SReturned r \<Rightarrow> True | _ \<Rightarrow> False)"

text \<open>Dropping the wallet object; workers hold the upstream wallet on their own.\<close>

definition drop_wallet :: "conn \<Rightarrow> conn" where
  "drop_wallet c =
     (case cancel_current True c of
        (None, c) \<Rightarrow> c
      | (Some a, c) \<Rightarrow> attempt_cancel a c)"

text \<open>
  What can begin: a call, the drop of the wallet object when no call is in progress, and the end of the
  network handler after a failure of the connection.
\<close>

inductive conn_start :: "conn \<Rightarrow> conn \<Rightarrow> bool" where
  begin_online: "conn_start c (online_mode daemon_address options c)"
| begin_stop: "conn_start c (stop_wallet kind c)"
| begin_drop: "(\<forall>i < cn_count c. call_returned (cn_call c i)) \<Longrightarrow> conn_start c (drop_wallet c)"
| handler_ended: "conn_start c (set_offline c)"

text \<open>What goes on: the workers, the calls and their timeouts.\<close>

inductive conn_work :: "daemon_host \<Rightarrow> conn \<Rightarrow> conn \<Rightarrow> bool" for D where
  work_worker: "a < cn_count c \<Longrightarrow> worker_step D ans a c = Some c' \<Longrightarrow> conn_work D c c'"
| work_call: "i < cn_count c \<Longrightarrow> call_step D ans i c = Some c' \<Longrightarrow> conn_work D c c'"
| work_timeout: "i < cn_count c \<Longrightarrow> cn_call c i = Online CWait \<Longrightarrow>
    conn_work D c (complete_connection_timeout i c)"

definition conn_step :: "daemon_host \<Rightarrow> conn \<Rightarrow> conn \<Rightarrow> bool" where
  "conn_step D c c' \<longleftrightarrow> conn_start c c' \<or> conn_work D c c'"

definition no_connection :: conn where
  "no_connection =
     \<lparr> cn_count = 0, cn_call = (\<lambda>_. Refused network_timeout_invalid),
       cn_attempt = (\<lambda>_. new_attempt [] ApplicationManaged), cn_current = None, cn_closed = False,
       cn_active = None, cn_active_lock = False, cn_online = None \<rparr>"

end
