(* ===== verification/Connection_Invariant.thy ===== *)
theory Connection_Invariant
  imports Connection
begin

text \<open>
  The invariant of the connection lifecycle, that workers keep it, and that cancelling and disconnecting
  keep it.  It says which phase of a worker goes with which phase of its caller, that the attempt that is
  not complete is the current one, who owns the network handler and the open sockets, and what a stop has
  waited for.
\<close>

section \<open>Attempts and their owners\<close>

fun worker_over :: "worker \<Rightarrow> bool" where
  "worker_over (WClear e) = True"
| "worker_over (WSend e) = True"
| "worker_over WDone = True"
| "worker_over _ = False"

text \<open>The worker is past the point where a connection that is kept would be complete.\<close>

fun worker_kept :: "worker \<Rightarrow> bool" where
  "worker_kept (WComplete e) = (e = None)"
| "worker_kept (WClear e) = (e = None)"
| "worker_kept WDone = True"
| "worker_kept _ = False"

fun in_activation :: "worker \<Rightarrow> bool" where
  "in_activation w \<longleftrightarrow> w \<in> {WInstall, WInstalled, WUndo, WUndoOffline}"

fun may_be_open :: "worker \<Rightarrow> bool" where
  "may_be_open w \<longleftrightarrow>
     w \<in> {WConnected, WInfo, WActivate, WInstall, WInstalled, WUndo, WSendOk, WAcks, WFinal, WRollback}"

fun has_handler :: "worker \<Rightarrow> bool" where
  "has_handler w \<longleftrightarrow> w \<in> {WInstalled, WUndo, WUndoOffline, WSendOk, WAcks, WFinal, WRollback, WRollbackOffline}"

fun acknowledged :: "worker \<Rightarrow> bool" where
  "acknowledged w \<longleftrightarrow>
     w \<in> {WAcks, WFinal, WRollback, WRollbackOffline, WComplete None, WClear None, WDone}"

text \<open>What the phase of \<open>online_mode\<close> says about its attempt.\<close>

fun phase_ok :: "caller \<Rightarrow> attempt \<Rightarrow> bool" where
  "phase_ok (CClear e) x \<longleftrightarrow> at_worker x = WNone \<and> at_completed x \<and> at_finalized x = AckPending"
| "phase_ok CWait x \<longleftrightarrow>
     at_worker x \<notin> {WNone, WFinal, WRollback, WRollbackOffline, WComplete None, WClear None} \<and>
     at_accepted x = AckPending \<and> at_finalized x = AckPending \<and> at_receiver x \<and>
     (at_completed x \<longleftrightarrow> worker_over (at_worker x)) \<and>
     (at_worker x = WAcks \<longrightarrow> at_result x = Some (Ok ())) \<and>
     (at_worker x = WDone \<longrightarrow> (\<exists>e. at_result x = Some (Err e))) \<and>
     (at_worker x \<noteq> WAcks \<longrightarrow> at_worker x \<noteq> WDone \<longrightarrow> at_result x = None)"
| "phase_ok CAccepted x \<longleftrightarrow>
     at_worker x = WAcks \<and> at_accepted x = AckSent \<and> at_finalized x = AckPending \<and> \<not> at_completed x"
| "phase_ok CLock x \<longleftrightarrow>
     at_worker x = WAcks \<and> at_accepted x = AckSent \<and> at_finalized x = AckPending \<and> \<not> at_completed x"
| "phase_ok CJoin x \<longleftrightarrow>
     acknowledged (at_worker x) \<and> at_worker x \<noteq> WFinal \<and> at_accepted x = AckSent \<and> at_finalized x = AckDropped \<and>
     (at_completed x \<longleftrightarrow> worker_over (at_worker x))"
| "phase_ok CJoinOk x \<longleftrightarrow>
     acknowledged (at_worker x) \<and> at_accepted x = AckSent \<and> at_finalized x = AckSent \<and>
     (at_completed x \<longleftrightarrow> worker_over (at_worker x))"
| "phase_ok (CCancel k) x \<longleftrightarrow>
     at_worker x \<noteq> WNone \<and> at_worker x \<noteq> WFinal \<and> at_accepted x = AckDropped \<and> at_finalized x = AckDropped \<and>
     \<not> at_receiver x \<and> (at_completed x \<longleftrightarrow> worker_over (at_worker x))"
| "phase_ok (CReturned r) x \<longleftrightarrow>
     at_completed x \<and> (at_worker x = WNone \<or> worker_over (at_worker x)) \<and>
     (at_finalized x = AckSent \<longrightarrow> acknowledged (at_worker x)) \<and> (r = Ok () \<longrightarrow> at_finalized x = AckSent)"
| "phase_ok _ x \<longleftrightarrow> at_worker x = WNone \<and> \<not> at_completed x \<and> at_finalized x = AckPending \<and>
     at_accepted x = AckPending \<and> at_receiver x \<and> at_result x = None"

definition attempt_ok :: "caller \<Rightarrow> attempt \<Rightarrow> bool" where
  "attempt_ok p x \<longleftrightarrow>
     phase_ok p x \<and>
     (at_activation x \<longleftrightarrow> in_activation (at_worker x)) \<and>
     (at_open x \<longrightarrow> may_be_open (at_worker x) \<or> worker_kept (at_worker x) \<and> at_finalized x = AckSent)"

text \<open>The attempt is not behind its guard any more.\<close>

definition guard_dropped :: "caller \<Rightarrow> attempt \<Rightarrow> bool" where
  "guard_dropped p x \<longleftrightarrow>
     (case at_worker x of WNone \<Rightarrow> (case p of CReturned r \<Rightarrow> True | _ \<Rightarrow> False) | WSend e \<Rightarrow> True | WDone \<Rightarrow> True | _ \<Rightarrow> False)"

section \<open>What a worker changes\<close>

lemma put_attempt_sel [simp]:
  "cn_attempt (put_attempt a x c) = (cn_attempt c)(a := x)" "cn_call (put_attempt a x c) = cn_call c"
  "cn_count (put_attempt a x c) = cn_count c" "cn_current (put_attempt a x c) = cn_current c"
  "cn_closed (put_attempt a x c) = cn_closed c" "cn_active (put_attempt a x c) = cn_active c"
  "cn_active_lock (put_attempt a x c) = cn_active_lock c" "cn_online (put_attempt a x c) = cn_online c"
  by (simp_all add: put_attempt_def)

lemma put_call_sel [simp]:
  "cn_attempt (put_call i k c) = cn_attempt c" "cn_call (put_call i k c) = (cn_call c)(i := k)"
  "cn_count (put_call i k c) = cn_count c" "cn_current (put_call i k c) = cn_current c"
  "cn_closed (put_call i k c) = cn_closed c" "cn_active (put_call i k c) = cn_active c"
  "cn_active_lock (put_call i k c) = cn_active_lock c" "cn_online (put_call i k c) = cn_online c"
  by (simp_all add: put_call_def)

lemma set_offline_sel [simp]:
  "cn_attempt (set_offline c) = cn_attempt c" "cn_call (set_offline c) = cn_call c"
  "cn_count (set_offline c) = cn_count c" "cn_current (set_offline c) = cn_current c"
  "cn_closed (set_offline c) = cn_closed c" "cn_active (set_offline c) = cn_active c"
  "cn_active_lock (set_offline c) = cn_active_lock c" "cn_online (set_offline c) = None"
  by (simp_all add: set_offline_def)

lemma clear_current_sel [simp]:
  "cn_attempt (clear_current a c) = cn_attempt c" "cn_call (clear_current a c) = cn_call c"
  "cn_count (clear_current a c) = cn_count c"
  "cn_current (clear_current a c) = (if cn_current c = Some a then None else cn_current c)"
  "cn_closed (clear_current a c) = cn_closed c" "cn_active (clear_current a c) = cn_active c"
  "cn_active_lock (clear_current a c) = cn_active_lock c" "cn_online (clear_current a c) = cn_online c"
  by (simp_all add: clear_current_def)

lemmas put_simps = put_worker_def put_caller_def put_stop_def

lemmas worker_simps =
  worker_connect_def worker_connected_def worker_info_def worker_activate_def worker_install_def
  worker_installed_def worker_send_ok_def worker_acks_def worker_final_def worker_send_err_def worker_fail_def
  release_activation_def disconnect_daemon_api_def stop_api_def attempt_complete_def attempt_cancel_def
  put_simps

text \<open>
  The attempt after a step of its worker: its next phase, and whether the socket may be open, the
  activation lock is held, the attempt is complete and which result was delivered.
\<close>

inductive next_worker :: "attempt \<Rightarrow> worker \<Rightarrow> worker \<Rightarrow> bool" for x where
  "next_worker x WConnect WConnected"
| "next_worker x WConnect (WComplete (Some e))"
| "next_worker x WConnected WInfo"
| "next_worker x WConnected (WComplete (Some e))"
| "next_worker x WInfo WActivate"
| "next_worker x WInfo (WComplete (Some e))"
| "next_worker x WActivate WInstall"
| "next_worker x WActivate (WComplete (Some e))"
| "next_worker x WInstall WInstalled"
| "next_worker x WInstall (WComplete (Some e))"
| "next_worker x WInstalled WUndo"
| "next_worker x WInstalled WSendOk"
| "next_worker x WUndo WUndoOffline"
| "next_worker x WUndoOffline (WComplete (Some e))"
| "at_receiver x \<Longrightarrow> next_worker x WSendOk WAcks"
| "\<not> at_receiver x \<Longrightarrow> next_worker x WSendOk WRollback"
| "at_accepted x = AckSent \<Longrightarrow> at_finalized x = AckSent \<Longrightarrow> next_worker x WAcks WFinal"
| "at_accepted x = AckDropped \<or> at_accepted x = AckSent \<and> at_finalized x = AckDropped \<Longrightarrow> next_worker x WAcks WRollback"
| "at_cancelled x \<Longrightarrow> next_worker x WFinal WRollback"
| "\<not> at_cancelled x \<Longrightarrow> next_worker x WFinal (WComplete None)"
| "next_worker x WRollback WRollbackOffline"
| "next_worker x WRollbackOffline (WComplete None)"
| "next_worker x (WComplete e) (WClear e)"
| "next_worker x (WClear (Some e')) (WSend e')"
| "next_worker x (WClear None) WDone"
| "next_worker x (WSend e') WDone"

lemma acknowledgements:
  "await_connection_acknowledgements u v = Some b \<longleftrightarrow>
     (if b then u = AckSent \<and> v = AckSent else u = AckDropped \<or> u = AckSent \<and> v = AckDropped)"
  by (cases u; cases v) auto

definition worker_move :: "attempt \<Rightarrow> attempt \<Rightarrow> bool" where
  "worker_move x x' \<longleftrightarrow>
     next_worker x (at_worker x) (at_worker x') \<and>
     at_receiver x' = at_receiver x \<and> at_accepted x' = at_accepted x \<and> at_finalized x' = at_finalized x \<and>
     at_cancelled x' = at_cancelled x \<and>
     at_completed x' = (at_completed x \<or> (\<exists>e. at_worker x = WComplete e)) \<and>
     at_activation x' =
       (if at_worker x = WActivate then at_worker x' = WInstall
        else if at_worker x = WInstall then at_worker x' = WInstalled
        else if at_worker x = WInstalled then at_worker x' = WUndo
        else if at_worker x = WUndoOffline then False else at_activation x) \<and>
     (at_open x' \<longrightarrow> at_worker x' = WConnected \<or> at_open x \<and> at_worker x' \<notin> {WUndoOffline, WRollbackOffline} \<and>
        ((\<exists>e. at_worker x' = WComplete (Some e)) \<longrightarrow> at_worker x \<in> {WConnect, WUndoOffline})) \<and>
     at_result x' =
       (case at_worker x of
          WSendOk \<Rightarrow> if at_receiver x then Some (Ok ()) else at_result x
        | WSend e \<Rightarrow> if at_receiver x then Some (Err e) else at_result x
        | _ \<Rightarrow> at_result x)"

lemma worker_moves:
  assumes "worker_step D ans a c = Some c'" "at_activation (cn_attempt c a) = in_activation (at_worker (cn_attempt c a))"
  shows "worker_move (cn_attempt c a) (cn_attempt c' a)"
  using assms
  by (cases "at_worker (cn_attempt c a)")
    (auto simp: worker_step_def worker_simps worker_move_def Let_def acknowledgements intro: next_worker.intros
       split: sum.splits option.splits if_splits bool.splits)

lemma move_phase_ok:
  assumes "worker_move x x'" "phase_ok p x"
  shows "phase_ok p x'"
proof -
  have n: "next_worker x (at_worker x) (at_worker x')" using assms(1) by (simp add: worker_move_def)
  show ?thesis
    using n assms by (cases rule: next_worker.cases; cases p) (simp_all add: worker_move_def)
qed

lemma move_attempt_ok:
  assumes "worker_move x x'" "attempt_ok p x"
  shows "attempt_ok p x'"
proof -
  have n: "next_worker x (at_worker x) (at_worker x')" using assms(1) by (simp add: worker_move_def)
  have "at_activation x' \<longleftrightarrow> in_activation (at_worker x')"
    using n assms by (cases rule: next_worker.cases) (simp_all add: worker_move_def attempt_ok_def)
  moreover have "at_open x' \<longrightarrow> may_be_open (at_worker x') \<or> worker_kept (at_worker x') \<and> at_finalized x' = AckSent"
    using n assms by (cases rule: next_worker.cases; cases p) (auto simp: worker_move_def attempt_ok_def)
  ultimately show ?thesis using move_phase_ok [OF assms(1)] assms(2) by (simp add: attempt_ok_def)
qed

definition worker_effect :: "nat \<Rightarrow> conn \<Rightarrow> conn \<Rightarrow> bool" where
  "worker_effect a c c' \<longleftrightarrow>
     (\<forall>i. i \<noteq> a \<longrightarrow> cn_attempt c' i = cn_attempt c i) \<and> cn_call c' = cn_call c \<and> cn_count c' = cn_count c \<and>
     cn_closed c' = cn_closed c \<and> cn_active c' = cn_active c \<and> cn_active_lock c' = cn_active_lock c \<and>
     cn_current c' =
       (if cn_current c = Some a \<and> (\<exists>e. at_worker (cn_attempt c a) = WClear e) then None else cn_current c) \<and>
     (cn_online c' = cn_online c \<and> at_worker (cn_attempt c' a) \<noteq> WInstalled \<and>
          at_worker (cn_attempt c a) \<notin> {WUndoOffline, WRollbackOffline} \<or>
        cn_online c' = None \<or> cn_online c' = Some a \<and> at_worker (cn_attempt c' a) = WInstalled)"

lemma worker_effects:
  assumes "worker_step D ans a c = Some c'"
  shows "worker_effect a c c'"
  using assms
  by (cases "at_worker (cn_attempt c a)")
    (auto simp: worker_step_def worker_simps worker_effect_def Let_def split: sum.splits option.splits if_splits bool.splits)

lemma phase_over: "phase_ok p x \<Longrightarrow> worker_over (at_worker x) \<Longrightarrow> at_completed x"
  by (cases p) auto

lemma phase_not_over:
  "phase_ok p x \<Longrightarrow> at_worker x \<noteq> WNone \<Longrightarrow> \<not> worker_over (at_worker x) \<Longrightarrow> \<not> at_completed x"
  by (cases p) auto

lemma phase_sent: "phase_ok p x \<Longrightarrow> at_finalized x = AckSent \<Longrightarrow> acknowledged (at_worker x)"
  by (cases p) auto

lemma phase_final: "phase_ok p x \<Longrightarrow> at_worker x = WFinal \<Longrightarrow> at_finalized x = AckSent"
  by (cases p) auto

section \<open>The invariant\<close>

definition over :: "conn \<Rightarrow> nat \<Rightarrow> bool" where
  "over c a \<longleftrightarrow> (\<forall>p. cn_call c a = Online p \<longrightarrow> at_completed (cn_attempt c a))"

definition online_call :: "conn \<Rightarrow> nat \<Rightarrow> bool" where
  "online_call c a \<longleftrightarrow> a < cn_count c \<and> (\<exists>p. cn_call c a = Online p)"

fun target :: "canceller \<Rightarrow> nat option" where
  "target (KCancel b) = Some b"
| "target (KDisconnect b) = Some b"
| "target (KBarrier b) = Some b"
| "target (KWait b) = Some b"
| "target _ = None"

fun asked :: "canceller \<Rightarrow> bool" where
  "asked (KRequest t) = False"
| "asked _ = True"

text \<open>Attempts that a cancellation in progress has still to wait for are its target.\<close>

definition cancel_ok :: "conn \<Rightarrow> nat \<Rightarrow> canceller \<Rightarrow> bool" where
  "cancel_ok c a k \<longleftrightarrow> asked k \<longrightarrow> target k \<noteq> Some a \<longrightarrow> over c a"

definition attempts_inv :: "conn \<Rightarrow> bool" where
  "attempts_inv c \<longleftrightarrow>
     (\<forall>i < cn_count c. \<forall>p. cn_call c i = Online p \<longrightarrow> attempt_ok p (cn_attempt c i))"

definition current_inv :: "conn \<Rightarrow> bool" where
  "current_inv c \<longleftrightarrow>
     (\<forall>i < cn_count c. over c i \<or> cn_current c = Some i) \<and>
     (\<forall>i. cn_current c = Some i \<longrightarrow> i < cn_count c \<and> (\<exists>p. cn_call c i = Online p \<and> \<not> guard_dropped p (cn_attempt c i)))"

definition handler_inv :: "conn \<Rightarrow> bool" where
  "handler_inv c \<longleftrightarrow>
     (\<forall>a. cn_online c = Some a \<longrightarrow> online_call c a \<and>
        (has_handler (at_worker (cn_attempt c a)) \<or>
         worker_kept (at_worker (cn_attempt c a)) \<and> at_finalized (cn_attempt c a) = AckSent))"

text \<open>An attempt that found the wallet offline and nothing active keeps it so until it connects itself.\<close>

definition exclusive_inv :: "conn \<Rightarrow> bool" where
  "exclusive_inv c \<longleftrightarrow>
     (\<forall>i < cn_count c. \<forall>p. cn_call c i = Online p \<longrightarrow> \<not> at_completed (cn_attempt c i) \<longrightarrow>
        p \<noteq> COnlineCheck \<longrightarrow> (\<forall>e. p \<noteq> CComplete e) \<longrightarrow>
        (\<forall>a. cn_online c = Some a \<longrightarrow> a = i) \<and>
        (p \<noteq> CStale \<longrightarrow> (\<forall>a. cn_active c = Some a \<longrightarrow> a = i)))"

definition active_inv :: "conn \<Rightarrow> bool" where
  "active_inv c \<longleftrightarrow>
     (\<forall>a. cn_active c = Some a \<longrightarrow> online_call c a \<and> at_finalized (cn_attempt c a) = AckSent)"

definition going_offline :: "conn \<Rightarrow> bool" where
  "going_offline c \<longleftrightarrow>
     (\<exists>j < cn_count c. \<exists>kind n p. cn_call c j = Stop kind n p \<and> (p = SOffline \<or> (\<exists>b. p = SDisconnect b)))"

definition disconnecting :: "conn \<Rightarrow> nat \<Rightarrow> bool" where
  "disconnecting c a \<longleftrightarrow>
     (\<exists>j < cn_count c. (\<exists>kind n. cn_call c j = Stop kind n (SDisconnect a)) \<or> cn_call c j = Online (CStaleDisconnect a))"

definition owned_inv :: "conn \<Rightarrow> bool" where
  "owned_inv c \<longleftrightarrow>
     (\<forall>a. online_call c a \<longrightarrow> at_finalized (cn_attempt c a) = AckSent \<longrightarrow>
        (cn_online c = Some a \<longrightarrow> cn_active c = Some a \<or> going_offline c) \<and>
        (at_open (cn_attempt c a) \<longrightarrow> cn_active c = Some a \<or> disconnecting c a))"

definition lock_inv :: "conn \<Rightarrow> bool" where
  "lock_inv c \<longleftrightarrow>
     (cn_active_lock c \<longleftrightarrow>
        (\<exists>i < cn_count c. cn_call c i = Online CStaleOffline \<or> (\<exists>b. cn_call c i = Online (CStaleDisconnect b))))"

fun stop_asked :: "stopper \<Rightarrow> bool" where
  "stop_asked (SCancel k) = asked k"
| "stop_asked _ = True"

fun stop_ok :: "conn \<Rightarrow> nat \<Rightarrow> stopper \<Rightarrow> bool" where
  "stop_ok c a (SCancel k) \<longleftrightarrow> cancel_ok c a k"
| "stop_ok c a STake \<longleftrightarrow> over c a"
| "stop_ok c a (SReturned r) \<longleftrightarrow> over c a \<and> cn_active c \<noteq> Some a \<and> cn_online c \<noteq> Some a"
| "stop_ok c a _ \<longleftrightarrow> over c a \<and> cn_active c \<noteq> Some a"

definition stops_inv :: "conn \<Rightarrow> bool" where
  "stops_inv c \<longleftrightarrow>
     (\<forall>j < cn_count c. \<forall>kind n p. cn_call c j = Stop kind n p \<longrightarrow>
        j \<le> n \<and> n \<le> cn_count c \<and> (\<forall>a < n. stop_ok c a p) \<and>
        (kind = StopClose \<longrightarrow> stop_asked p \<longrightarrow> cn_closed c \<and> (\<forall>a < cn_count c. n \<le> a \<longrightarrow> \<not> online_call c a)) \<and>
        (\<forall>k. p = SCancel k \<longrightarrow> (k = KRequest (kind = StopClose) \<or> asked k) \<and> (\<forall>b. target k = Some b \<longrightarrow> online_call c b)))"

definition timeouts_inv :: "conn \<Rightarrow> bool" where
  "timeouts_inv c \<longleftrightarrow>
     (\<forall>i < cn_count c. \<forall>k. cn_call c i = Online (CCancel k) \<longrightarrow>
        cancel_ok c i k \<and> (\<forall>b. target k = Some b \<longrightarrow> online_call c b))"

definition idle_inv :: "conn \<Rightarrow> bool" where
  "idle_inv c \<longleftrightarrow> (\<forall>i. \<not> online_call c i \<longrightarrow> at_worker (cn_attempt c i) = WNone)"

definition conn_inv :: "conn \<Rightarrow> bool" where
  "conn_inv c \<longleftrightarrow> idle_inv c \<and> attempts_inv c \<and> current_inv c \<and> handler_inv c \<and> exclusive_inv c \<and> active_inv c \<and>
     owned_inv c \<and> lock_inv c \<and> stops_inv c \<and> timeouts_inv c"

lemma conn_inv_attempt:
  "conn_inv c \<Longrightarrow> i < cn_count c \<Longrightarrow> cn_call c i = Online p \<Longrightarrow> attempt_ok p (cn_attempt c i)"
  by (simp add: conn_inv_def attempts_inv_def)

lemma one_attempt:
  assumes "conn_inv c" "i < cn_count c" "j < cn_count c" "\<not> over c i" "\<not> over c j"
  shows "i = j"
proof -
  have "cn_current c = Some i" "cn_current c = Some j" using assms by (auto simp: conn_inv_def current_inv_def)
  then show ?thesis by simp
qed

section \<open>Workers keep the invariant\<close>

text \<open>A worker belongs to a call, and neither its phase nor its effect depends on anything else.\<close>

definition worker_turn :: "nat \<Rightarrow> caller \<Rightarrow> conn \<Rightarrow> conn \<Rightarrow> bool" where
  "worker_turn a p c c' \<longleftrightarrow>
     a < cn_count c \<and> cn_call c a = Online p \<and> attempt_ok p (cn_attempt c a) \<and> attempt_ok p (cn_attempt c' a) \<and>
     worker_move (cn_attempt c a) (cn_attempt c' a) \<and> worker_effect a c c'"

lemma worker_turn_frame:
  assumes "worker_turn a p c c'"
  shows "cn_call c' = cn_call c" "cn_count c' = cn_count c" "cn_closed c' = cn_closed c" "cn_active c' = cn_active c"
    "cn_active_lock c' = cn_active_lock c" "i \<noteq> a \<Longrightarrow> cn_attempt c' i = cn_attempt c i"
    "at_finalized (cn_attempt c' i) = at_finalized (cn_attempt c i)"
    "at_completed (cn_attempt c i) \<Longrightarrow> at_completed (cn_attempt c' i)"
    "over c i \<Longrightarrow> over c' i" "online_call c' = online_call c" "going_offline c' = going_offline c"
    "disconnecting c' = disconnecting c"
proof -
  show "cn_call c' = cn_call c" "cn_count c' = cn_count c" "cn_closed c' = cn_closed c" "cn_active c' = cn_active c"
    "cn_active_lock c' = cn_active_lock c" "i \<noteq> a \<Longrightarrow> cn_attempt c' i = cn_attempt c i"
    using assms by (simp_all add: worker_turn_def worker_effect_def)
  then show "at_finalized (cn_attempt c' i) = at_finalized (cn_attempt c i)"
    "at_completed (cn_attempt c i) \<Longrightarrow> at_completed (cn_attempt c' i)"
    using assms by (cases "i = a"; simp add: worker_turn_def worker_move_def)+
  then show "over c i \<Longrightarrow> over c' i" using \<open>cn_call c' = cn_call c\<close> by (simp add: over_def)
  show "online_call c' = online_call c" "going_offline c' = going_offline c" "disconnecting c' = disconnecting c"
    using \<open>cn_call c' = cn_call c\<close> \<open>cn_count c' = cn_count c\<close>
    by (simp_all add: fun_eq_iff online_call_def going_offline_def disconnecting_def)
qed

lemma worker_turn_attempts:
  assumes "worker_turn a p c c'" "attempts_inv c"
  shows "attempts_inv c'"
  unfolding attempts_inv_def
proof (intro allI impI)
  fix i q
  assume "i < cn_count c'" "cn_call c' i = Online q"
  then show "attempt_ok q (cn_attempt c' i)"
    using assms by (cases "i = a") (auto simp: worker_turn_frame [OF assms(1)] worker_turn_def attempts_inv_def)
qed

lemma worker_turn_current:
  assumes t: "worker_turn a p c c'" and inv: "current_inv c"
  shows "current_inv c'"
  unfolding current_inv_def
proof (intro conjI allI impI)
  note n = worker_turn_frame [OF t]
  have ok: "attempt_ok p (cn_attempt c a)" and call: "cn_call c a = Online p"
    and m: "worker_move (cn_attempt c a) (cn_attempt c' a)"
    and cur: "cn_current c' =
       (if cn_current c = Some a \<and> (\<exists>e. at_worker (cn_attempt c a) = WClear e) then None else cn_current c)"
    using t by (simp_all add: worker_turn_def worker_effect_def)
  {
    fix i
    assume "i < cn_count c'"
    then have "over c i \<or> cn_current c = Some i" using inv by (simp add: current_inv_def n)
    moreover have "over c a" if "at_worker (cn_attempt c a) = WClear e" for e
      using ok that phase_over [of p "cn_attempt c a"] by (simp add: attempt_ok_def over_def)
    ultimately show "over c' i \<or> cn_current c' = Some i" using cur n(9) by auto
  }
  fix i
  assume i: "cn_current c' = Some i"
  then have ci: "cn_current c = Some i" using cur by (simp split: if_splits)
  then show "i < cn_count c'" using inv by (simp add: current_inv_def n)
  from ci inv obtain q where q: "cn_call c i = Online q" "\<not> guard_dropped q (cn_attempt c i)"
    by (auto simp: current_inv_def)
  have "\<not> guard_dropped q (cn_attempt c' i)"
  proof (cases "i = a")
    case True
    have "next_worker (cn_attempt c a) (at_worker (cn_attempt c a)) (at_worker (cn_attempt c' a))"
      using m by (simp add: worker_move_def)
    then show ?thesis
      using True q i cur ci call by cases (auto simp: guard_dropped_def)
  qed (use q n in simp)
  then show "\<exists>p. cn_call c' i = Online p \<and> \<not> guard_dropped p (cn_attempt c' i)" using q n by auto
qed

lemma worker_turn_online:
  assumes "worker_turn a p c c'"
  shows "cn_online c' = None \<or>
    cn_online c' = Some a \<and> at_worker (cn_attempt c a) = WInstall \<and> at_worker (cn_attempt c' a) = WInstalled \<or>
    cn_online c' = cn_online c \<and> at_worker (cn_attempt c a) \<notin> {WUndoOffline, WRollbackOffline}"
proof -
  have "next_worker (cn_attempt c a) (at_worker (cn_attempt c a)) (at_worker (cn_attempt c' a))"
    using assms by (simp add: worker_turn_def worker_move_def)
  then have "at_worker (cn_attempt c' a) = WInstalled \<Longrightarrow> at_worker (cn_attempt c a) = WInstall" by cases simp_all
  then show ?thesis using assms by (auto simp: worker_turn_def worker_effect_def)
qed

lemma worker_turn_handler:
  assumes t: "worker_turn a p c c'" and inv: "handler_inv c"
  shows "handler_inv c'"
  unfolding handler_inv_def
proof (intro allI impI)
  note n = worker_turn_frame [OF t]
  fix b
  assume b: "cn_online c' = Some b"
  have a: "online_call c a" using t by (auto simp: worker_turn_def online_call_def)
  from worker_turn_online [OF t] b consider
      "b = a" "at_worker (cn_attempt c' a) = WInstalled"
    | "cn_online c = Some b" "at_worker (cn_attempt c a) \<notin> {WUndoOffline, WRollbackOffline}" by auto
  then show "online_call c' b \<and> (has_handler (at_worker (cn_attempt c' b)) \<or>
      worker_kept (at_worker (cn_attempt c' b)) \<and> at_finalized (cn_attempt c' b) = AckSent)"
  proof cases
    case 1
    then show ?thesis using a by (simp add: n)
  next
    case 2
    then have h: "online_call c b" "has_handler (at_worker (cn_attempt c b)) \<or>
        worker_kept (at_worker (cn_attempt c b)) \<and> at_finalized (cn_attempt c b) = AckSent"
      using inv by (auto simp: handler_inv_def)
    show ?thesis
    proof (cases "b = a")
      case True
      have "next_worker (cn_attempt c a) (at_worker (cn_attempt c a)) (at_worker (cn_attempt c' a))"
        and ok: "phase_ok p (cn_attempt c a)"
        using t by (simp_all add: worker_turn_def worker_move_def attempt_ok_def)
      then show ?thesis
        using True h 2(2) phase_final [OF ok] by cases (simp_all add: n)
    qed (use h n in simp)
  qed
qed

lemma worker_turn_incomplete:
  assumes "worker_turn a p c c'" "\<not> worker_over (at_worker (cn_attempt c a))"
  shows "\<not> over c a" "a < cn_count c"
proof -
  have "at_worker (cn_attempt c a) \<noteq> WNone"
  proof
    assume "at_worker (cn_attempt c a) = WNone"
    moreover have "next_worker (cn_attempt c a) (at_worker (cn_attempt c a)) (at_worker (cn_attempt c' a))"
      using assms(1) by (simp add: worker_turn_def worker_move_def)
    ultimately show False by (auto elim: next_worker.cases)
  qed
  then show "\<not> over c a" "a < cn_count c"
    using assms phase_not_over [of p "cn_attempt c a"] by (auto simp: worker_turn_def over_def attempt_ok_def)
qed

lemma worker_turn_exclusive:
  assumes t: "worker_turn a p c c'" and inv: "conn_inv c"
  shows "exclusive_inv c'"
  unfolding exclusive_inv_def
proof (intro allI impI)
  note n = worker_turn_frame [OF t]
  fix i q
  assume i: "i < cn_count c'" "cn_call c' i = Online q" "\<not> at_completed (cn_attempt c' i)" "q \<noteq> COnlineCheck"
    "\<forall>e. q \<noteq> CComplete e"
  then have j: "i < cn_count c" "cn_call c i = Online q" "\<not> at_completed (cn_attempt c i)" using n by auto
  then have ex: "(\<forall>b. cn_online c = Some b \<longrightarrow> b = i) \<and> (q \<noteq> CStale \<longrightarrow> (\<forall>b. cn_active c = Some b \<longrightarrow> b = i))"
    using inv i by (auto simp: conn_inv_def exclusive_inv_def)
  have "a = i" if "at_worker (cn_attempt c a) = WInstall"
    using that j worker_turn_incomplete [OF t] one_attempt [OF inv, of a i] by (auto simp: over_def)
  then show "(\<forall>b. cn_online c' = Some b \<longrightarrow> b = i) \<and> (q \<noteq> CStale \<longrightarrow> (\<forall>b. cn_active c' = Some b \<longrightarrow> b = i))"
    using ex worker_turn_online [OF t] by (auto simp: n)
qed

lemma worker_turn_owned:
  assumes t: "worker_turn a p c c'" and inv: "owned_inv c"
  shows "owned_inv c'"
  unfolding owned_inv_def
proof (intro allI impI)
  note n = worker_turn_frame [OF t]
  fix b
  assume "online_call c' b" and sent: "at_finalized (cn_attempt c' b) = AckSent"
  then have own: "(cn_online c = Some b \<longrightarrow> cn_active c = Some b \<or> going_offline c) \<and>
      (at_open (cn_attempt c b) \<longrightarrow> cn_active c = Some b \<or> disconnecting c b)"
    using inv by (simp add: owned_inv_def n)
  have m: "worker_move (cn_attempt c a) (cn_attempt c' a)" and ok: "phase_ok p (cn_attempt c a)"
    using t by (simp_all add: worker_turn_def attempt_ok_def)
  have late: "acknowledged (at_worker (cn_attempt c a))" if "b = a"
    using that sent phase_sent [OF ok] by (simp add: n)
  have nw: "next_worker (cn_attempt c a) (at_worker (cn_attempt c a)) (at_worker (cn_attempt c' a))"
    using m by (simp add: worker_move_def)
  have "cn_online c = Some b" if "cn_online c' = Some b"
    using that worker_turn_online [OF t] late by auto
  moreover have "at_open (cn_attempt c b)" if "at_open (cn_attempt c' b)"
  proof (cases "b = a")
    case True
    from nw late [OF True] have "at_worker (cn_attempt c' a) \<noteq> WConnected" by cases simp_all
    then show ?thesis using that m True by (simp add: worker_move_def)
  qed (use that n in simp)
  ultimately show "(cn_online c' = Some b \<longrightarrow> cn_active c' = Some b \<or> going_offline c') \<and>
      (at_open (cn_attempt c' b) \<longrightarrow> cn_active c' = Some b \<or> disconnecting c' b)"
    using own by (simp add: n)
qed

lemma worker_turn_cancel: "worker_turn a p c c' \<Longrightarrow> cancel_ok c i k \<Longrightarrow> cancel_ok c' i k"
  using worker_turn_frame(9) by (auto simp: cancel_ok_def)

lemma worker_turn_stop:
  assumes t: "worker_turn a p c c'" and ok: "stop_ok c i q"
  shows "stop_ok c' i q"
proof -
  note n = worker_turn_frame [OF t]
  have "cn_online c' \<noteq> Some i" if "over c i" "cn_online c \<noteq> Some i"
    using that worker_turn_online [OF t] worker_turn_incomplete(1) [OF t] by auto
  then show ?thesis using ok worker_turn_cancel [OF t] n(9) by (cases q) (auto simp: n(4))
qed

lemma worker_turn_stops:
  assumes t: "worker_turn a p c c'" and inv: "stops_inv c"
  shows "stops_inv c'"
  using inv worker_turn_stop [OF t] by (fastforce simp: stops_inv_def worker_turn_frame [OF t])

lemma worker_inv:
  assumes step: "worker_step D ans a c = Some c'" and inv: "conn_inv c"
  shows "conn_inv c'"
proof -
  have "online_call c a" using inv step by (auto simp: conn_inv_def idle_inv_def worker_step_def)
  then obtain p where a: "a < cn_count c" and call: "cn_call c a = Online p" by (auto simp: online_call_def)
  have ok: "attempt_ok p (cn_attempt c a)" by (rule conn_inv_attempt [OF inv a call])
  have m: "worker_move (cn_attempt c a) (cn_attempt c' a)"
    by (rule worker_moves [OF step]) (use ok in \<open>simp add: attempt_ok_def\<close>)
  have t: "worker_turn a p c c'"
    unfolding worker_turn_def using a call ok m move_attempt_ok [OF m ok] worker_effects [OF step] by blast
  note n = worker_turn_frame [OF t]
  have "at_worker (cn_attempt c' i) = WNone" if "\<not> online_call c' i" for i
    using that inv \<open>online_call c a\<close> by (cases "i = a") (auto simp: conn_inv_def idle_inv_def n)
  then have "idle_inv c'" by (simp add: idle_inv_def)
  moreover have "active_inv c'" using inv by (simp add: conn_inv_def active_inv_def n)
  moreover have "lock_inv c'" using inv by (simp add: conn_inv_def lock_inv_def n)
  moreover have "timeouts_inv c'"
    using inv worker_turn_cancel [OF t] by (simp add: conn_inv_def timeouts_inv_def n)
  ultimately show ?thesis
    using inv worker_turn_attempts [OF t] worker_turn_current [OF t] worker_turn_handler [OF t]
      worker_turn_exclusive [OF t inv] worker_turn_owned [OF t] worker_turn_stops [OF t]
    by (simp add: conn_inv_def)
qed

section \<open>Cancelling and disconnecting keep it\<close>

text \<open>Cancelling an attempt, stopping a socket and closing the wallet touch nothing else the invariant needs.\<close>

definition attempt_tweak :: "attempt \<Rightarrow> attempt \<Rightarrow> bool" where
  "attempt_tweak x x' \<longleftrightarrow>
     at_completed x' = at_completed x \<and> at_activation x' = at_activation x \<and> (at_open x' \<longrightarrow> at_open x) \<and>
     at_result x' = at_result x \<and> at_receiver x' = at_receiver x \<and> at_accepted x' = at_accepted x \<and>
     at_finalized x' = at_finalized x \<and> at_worker x' = at_worker x"

definition tweak :: "conn \<Rightarrow> conn \<Rightarrow> bool" where
  "tweak c c' \<longleftrightarrow>
     cn_count c' = cn_count c \<and> cn_call c' = cn_call c \<and> cn_current c' = cn_current c \<and>
     (cn_closed c \<longrightarrow> cn_closed c') \<and> cn_active c' = cn_active c \<and> cn_active_lock c' = cn_active_lock c \<and>
     cn_online c' = cn_online c \<and> (\<forall>i. attempt_tweak (cn_attempt c i) (cn_attempt c' i))"

lemma attempt_tweak_refl [simp]: "attempt_tweak x x"
  by (simp add: attempt_tweak_def)

lemma tweak_refl [simp]: "tweak c c"
  by (simp add: tweak_def)

lemma tweak_cancel [simp]: "tweak c (attempt_cancel a c)"
  by (simp add: tweak_def attempt_tweak_def attempt_cancel_def)

lemma tweak_stop [simp]: "tweak c (stop_api a c)"
  by (simp add: tweak_def attempt_tweak_def stop_api_def)

lemma tweak_phase: "attempt_tweak x x' \<Longrightarrow> phase_ok p x' = phase_ok p x"
  by (cases p) (simp_all add: attempt_tweak_def)

lemma tweak_attempt_ok: "attempt_tweak x x' \<Longrightarrow> attempt_ok p x \<Longrightarrow> attempt_ok p x'"
  unfolding attempt_ok_def tweak_phase unfolding attempt_tweak_def by metis

lemma tweak_frame:
  assumes "tweak c c'"
  shows "cn_count c' = cn_count c" "cn_call c' = cn_call c" "cn_current c' = cn_current c" "cn_active c' = cn_active c"
    "cn_active_lock c' = cn_active_lock c" "cn_online c' = cn_online c"
    "at_worker (cn_attempt c' i) = at_worker (cn_attempt c i)"
    "at_completed (cn_attempt c' i) = at_completed (cn_attempt c i)"
    "at_finalized (cn_attempt c' i) = at_finalized (cn_attempt c i)"
    "at_activation (cn_attempt c' i) = at_activation (cn_attempt c i)"
    "at_result (cn_attempt c' i) = at_result (cn_attempt c i)"
    "over c' i = over c i" "online_call c' i = online_call c i" "going_offline c' = going_offline c"
    "disconnecting c' i = disconnecting c i" "cancel_ok c' i k = cancel_ok c i k" "stop_ok c' i q = stop_ok c i q"
    "guard_dropped r (cn_attempt c' i) = guard_dropped r (cn_attempt c i)"
proof -
  show "cn_count c' = cn_count c" "cn_call c' = cn_call c" "cn_current c' = cn_current c" "cn_active c' = cn_active c"
    "cn_active_lock c' = cn_active_lock c" "cn_online c' = cn_online c"
    "at_worker (cn_attempt c' i) = at_worker (cn_attempt c i)"
    "at_finalized (cn_attempt c' i) = at_finalized (cn_attempt c i)"
    "at_activation (cn_attempt c' i) = at_activation (cn_attempt c i)"
    "at_result (cn_attempt c' i) = at_result (cn_attempt c i)"
    using assms by (simp_all add: tweak_def attempt_tweak_def)
  have comp: "at_completed (cn_attempt c' j) = at_completed (cn_attempt c j)" for j
    using assms by (simp add: tweak_def attempt_tweak_def)
  then show "at_completed (cn_attempt c' i) = at_completed (cn_attempt c i)" .
  have over: "over c' j = over c j" for j using assms comp by (simp add: over_def tweak_def)
  then show "over c' i = over c i" .
  show "online_call c' i = online_call c i" "going_offline c' = going_offline c" "disconnecting c' i = disconnecting c i"
    using assms by (simp_all add: tweak_def online_call_def going_offline_def disconnecting_def)
  show cancel: "cancel_ok c' i k = cancel_ok c i k" for k by (simp add: cancel_ok_def over)
  show "stop_ok c' i q = stop_ok c i q" using assms by (cases q) (simp_all add: cancel over tweak_def)
  show "guard_dropped r (cn_attempt c' i) = guard_dropped r (cn_attempt c i)"
    using assms by (simp add: guard_dropped_def tweak_def attempt_tweak_def)
qed

lemma tweak_inv:
  assumes t: "tweak c c'" and inv: "conn_inv c"
  shows "conn_inv c'"
proof -
  note n = tweak_frame [OF t]
  have tw: "attempt_tweak (cn_attempt c i) (cn_attempt c' i)" for i using t by (simp add: tweak_def)
  have opn: "at_open (cn_attempt c' i) \<Longrightarrow> at_open (cn_attempt c i)" for i using tw [of i] by (simp add: attempt_tweak_def)
  have cl: "cn_closed c \<Longrightarrow> cn_closed c'" using t by (simp add: tweak_def)
  have "attempts_inv c'"
    unfolding attempts_inv_def n using inv tweak_attempt_ok [OF tw] by (simp add: conn_inv_def attempts_inv_def)
  moreover have "owned_inv c'"
    unfolding owned_inv_def n using inv opn unfolding conn_inv_def owned_inv_def by blast
  moreover have "stops_inv c'"
    unfolding stops_inv_def n using inv cl unfolding conn_inv_def stops_inv_def by blast
  moreover have "idle_inv c'" "current_inv c'" "handler_inv c'"
    unfolding idle_inv_def current_inv_def handler_inv_def n
    using inv unfolding conn_inv_def idle_inv_def current_inv_def handler_inv_def by blast+
  moreover have "exclusive_inv c'" "active_inv c'" "lock_inv c'" "timeouts_inv c'"
    unfolding exclusive_inv_def active_inv_def lock_inv_def timeouts_inv_def n
    using inv unfolding conn_inv_def exclusive_inv_def active_inv_def lock_inv_def timeouts_inv_def by blast+
  ultimately show ?thesis unfolding conn_inv_def by blast
qed

lemma cancel_step_tweak:
  assumes "cancel_connection_attempt k c = Some (k', c')"
  shows "tweak c c'"
proof (cases k)
  case (KRequest t)
  then show ?thesis using assms by (auto simp: tweak_def split: option.splits)
qed (use assms in \<open>auto split: if_splits\<close>)

text \<open>A step of a cancellation: it goes on to wait for the attempts it has not seen the end of.\<close>

lemma cancel_step_ok:
  assumes inv: "conn_inv c" and step: "cancel_connection_attempt k c = Some (k', c')" and a: "a < cn_count c" "cancel_ok c a k"
  shows "cancel_ok c' a k'"
proof -
  note n = tweak_frame [OF cancel_step_tweak [OF step]]
  have cur: "over c a \<or> cn_current c = Some a" using inv a(1) by (simp add: conn_inv_def current_inv_def)
  have "asked k' \<longrightarrow> target k' \<noteq> Some a \<longrightarrow> over c a"
  proof (cases k)
    case (KRequest t)
    then show ?thesis using step cur by (auto split: option.splits)
  next
    case (KWait b)
    then show ?thesis using step a(2) by (auto simp: cancel_ok_def over_def split: if_splits)
  qed (use step a(2) in \<open>auto simp: cancel_ok_def split: if_splits\<close>)
  then show ?thesis by (simp add: cancel_ok_def n)
qed

lemma cancel_step_target:
  assumes "conn_inv c" "cancel_connection_attempt k c = Some (k', c')" "target k' = Some b"
  shows "target k = Some b \<or> cn_current c = Some b \<and> online_call c b"
  using assms by (cases k) (auto simp: conn_inv_def current_inv_def online_call_def split: option.splits if_splits)

lemma cancel_step_asked: "cancel_connection_attempt k c = Some (k', c') \<Longrightarrow> asked k'"
  by (cases k) (auto split: option.splits if_splits)

end
