(* ===== verification/Connection_Online.thy ===== *)
theory Connection_Online
  imports Connection_Invariant
begin

text \<open>
  Every step of a call of \<open>online_mode\<close>, its timeout included, keeps the invariant of the connection
  lifecycle.
\<close>

section \<open>Going online keeps it\<close>

fun stale_phase :: "caller \<Rightarrow> bool" where
  "stale_phase (CStaleDisconnect b) = True"
| "stale_phase CStaleOffline = True"
| "stale_phase _ = False"

text \<open>
  A step of \<open>online_mode\<close>: its own phase and attempt, and what it may do to the current attempt, the
  active connection, its lock and the handler.
\<close>

definition caller_turn :: "nat \<Rightarrow> caller \<Rightarrow> caller \<Rightarrow> conn \<Rightarrow> conn \<Rightarrow> bool" where
  "caller_turn i p p' c c' \<longleftrightarrow>
     i < cn_count c \<and> cn_call c i = Online p \<and>
     cn_count c' = cn_count c \<and> cn_call c' = (cn_call c)(i := Online p') \<and> cn_closed c' = cn_closed c \<and>
     (\<forall>j. j \<noteq> i \<longrightarrow> cn_attempt c' j = cn_attempt c j) \<and>
     attempt_ok p' (cn_attempt c' i) \<and>
     (at_open (cn_attempt c' i) \<longrightarrow> at_open (cn_attempt c i)) \<and>
     (at_completed (cn_attempt c i) \<longrightarrow> at_completed (cn_attempt c' i)) \<and>
     (at_worker (cn_attempt c i) = WNone \<or> at_worker (cn_attempt c' i) = at_worker (cn_attempt c i)) \<and>
     (at_finalized (cn_attempt c i) = AckSent \<longrightarrow> at_finalized (cn_attempt c' i) = AckSent) \<and>
     (at_finalized (cn_attempt c' i) = AckSent \<longrightarrow> at_finalized (cn_attempt c i) = AckSent \<or> cn_active c' = Some i) \<and>
     (cn_current c' = cn_current c \<or> cn_current c = Some i \<and> cn_current c' = None \<and> at_completed (cn_attempt c' i)) \<and>
     (guard_dropped p' (cn_attempt c' i) \<longrightarrow> cn_current c' \<noteq> Some i) \<and>
     (cn_online c' = cn_online c \<or> cn_online c' = None) \<and>
     (cn_active c' = cn_active c \<or>
        cn_active c' = None \<and> cn_online c' = None \<and> (\<exists>b. cn_active c = Some b \<and> p' = CStaleDisconnect b) \<or>
        cn_active c' = Some i \<and> (\<forall>b. cn_active c = Some b \<longrightarrow> b = i) \<and>
          at_finalized (cn_attempt c' i) = AckSent \<and> \<not> over c i) \<and>
     (cn_active_lock c' \<longleftrightarrow> stale_phase p' \<or> \<not> stale_phase p \<and> cn_active_lock c) \<and>
     (stale_phase p \<longrightarrow> \<not> over c i) \<and>
     (\<forall>b. p = CStaleDisconnect b \<longrightarrow> p' = p \<or> \<not> at_open (cn_attempt c' b)) \<and>
     (\<not> at_completed (cn_attempt c' i) \<longrightarrow> p' \<noteq> COnlineCheck \<longrightarrow> (\<forall>e. p' \<noteq> CComplete e) \<longrightarrow>
        (\<forall>b. cn_online c' = Some b \<longrightarrow> b = i) \<and> (p' \<noteq> CStale \<longrightarrow> (\<forall>b. cn_active c' = Some b \<longrightarrow> b = i))) \<and>
     (\<forall>k. p' = CCancel k \<longrightarrow> cancel_ok c' i k \<and> (\<forall>b. target k = Some b \<longrightarrow> online_call c b))"

lemma caller_turn_frame:
  assumes "caller_turn i p p' c c'"
  shows "cn_count c' = cn_count c" "cn_closed c' = cn_closed c" "j \<noteq> i \<Longrightarrow> cn_attempt c' j = cn_attempt c j"
    "j \<noteq> i \<Longrightarrow> cn_call c' j = cn_call c j" "cn_call c' i = Online p'" "cn_call c i = Online p"
    "online_call c' = online_call c" "over c j \<Longrightarrow> over c' j" "online_call c i"
    "(\<exists>q. cn_call c' j = Online q) = (\<exists>q. cn_call c j = Online q)"
    "cn_call c' j = Stop kind n q \<longleftrightarrow> cn_call c j = Stop kind n q"
proof -
  show *: "cn_count c' = cn_count c" "cn_closed c' = cn_closed c" "j \<noteq> i \<Longrightarrow> cn_attempt c' j = cn_attempt c j"
    "j \<noteq> i \<Longrightarrow> cn_call c' j = cn_call c j" "cn_call c' i = Online p'" "cn_call c i = Online p" for j
    using assms by (simp_all add: caller_turn_def)
  have on: "(\<exists>q. cn_call c' j = Online q) = (\<exists>q. cn_call c j = Online q)" for j using * by (cases "j = i") simp_all
  then show "(\<exists>q. cn_call c' j = Online q) = (\<exists>q. cn_call c j = Online q)" .
  show "online_call c' = online_call c" by (simp add: online_call_def fun_eq_iff on *(1))
  have "at_completed (cn_attempt c i) \<longrightarrow> at_completed (cn_attempt c' i)" using assms by (simp add: caller_turn_def)
  then show "over c j \<Longrightarrow> over c' j"
    using * by (cases "j = i") (simp_all add: over_def)
  show "online_call c i" using assms by (simp add: online_call_def caller_turn_def)
  show "cn_call c' j = Stop kind n q \<longleftrightarrow> cn_call c j = Stop kind n q" using * by (cases "j = i") simp_all
qed

lemma caller_turn_parts:
  assumes "caller_turn i p p' c c'"
  shows "at_worker (cn_attempt c i) = WNone \<or> at_worker (cn_attempt c' i) = at_worker (cn_attempt c i)"
    "at_finalized (cn_attempt c i) = AckSent \<longrightarrow> at_finalized (cn_attempt c' i) = AckSent"
    "at_finalized (cn_attempt c' i) = AckSent \<longrightarrow> at_finalized (cn_attempt c i) = AckSent \<or> cn_active c' = Some i"
    "cn_online c' = cn_online c \<or> cn_online c' = None"
    "cn_active c' = cn_active c \<or>
        cn_active c' = None \<and> cn_online c' = None \<and> (\<exists>b. cn_active c = Some b \<and> p' = CStaleDisconnect b) \<or>
        cn_active c' = Some i \<and> (\<forall>b. cn_active c = Some b \<longrightarrow> b = i) \<and>
          at_finalized (cn_attempt c' i) = AckSent \<and> \<not> over c i"
    "cn_active_lock c' \<longleftrightarrow> stale_phase p' \<or> \<not> stale_phase p \<and> cn_active_lock c" "stale_phase p \<longrightarrow> \<not> over c i"
    "\<forall>b. p = CStaleDisconnect b \<longrightarrow> p' = p \<or> \<not> at_open (cn_attempt c' b)"
    "at_open (cn_attempt c' i) \<longrightarrow> at_open (cn_attempt c i)" "i < cn_count c"
  using assms unfolding caller_turn_def by - (elim conjE, assumption)+

lemma caller_turn_offline: "caller_turn i p p' c c' \<Longrightarrow> going_offline c' = going_offline c"
  by (simp add: going_offline_def caller_turn_frame)

lemma caller_turn_local:
  assumes t: "caller_turn i p p' c c'" and inv: "conn_inv c"
  shows "attempts_inv c'" "idle_inv c'" "timeouts_inv c'"
proof -
  note n = caller_turn_frame [OF t]
  have ok: "attempt_ok p' (cn_attempt c' i)" using t by (simp add: caller_turn_def)
  show "attempts_inv c'"
    unfolding attempts_inv_def
  proof (intro allI impI)
    fix j q
    assume "j < cn_count c'" "cn_call c' j = Online q"
    then show "attempt_ok q (cn_attempt c' j)"
      using ok n inv by (cases "j = i") (auto simp: conn_inv_def attempts_inv_def)
  qed
  show "idle_inv c'"
    unfolding idle_inv_def
  proof (intro allI impI)
    fix j
    assume "\<not> online_call c' j"
    then show "at_worker (cn_attempt c' j) = WNone"
      using n inv by (cases "j = i") (auto simp: conn_inv_def idle_inv_def)
  qed
  show "timeouts_inv c'"
    unfolding timeouts_inv_def
  proof (intro allI impI)
    fix j k
    assume j: "j < cn_count c'" "cn_call c' j = Online (CCancel k)"
    show "cancel_ok c' j k \<and> (\<forall>b. target k = Some b \<longrightarrow> online_call c' b)"
    proof (cases "j = i")
      case True
      then show ?thesis using j t n(5,7) by (simp add: caller_turn_def)
    next
      case False
      then have "cancel_ok c j k \<and> (\<forall>b. target k = Some b \<longrightarrow> online_call c b)"
        using j n inv by (simp add: conn_inv_def timeouts_inv_def)
      then show ?thesis using n(7,8) by (auto simp: cancel_ok_def)
    qed
  qed
qed

lemma caller_turn_current:
  assumes t: "caller_turn i p p' c c'" and inv: "conn_inv c"
  shows "current_inv c'"
  unfolding current_inv_def
proof (intro conjI allI impI)
  note n = caller_turn_frame [OF t]
  have cur: "cn_current c' = cn_current c \<or> cn_current c = Some i \<and> cn_current c' = None \<and> at_completed (cn_attempt c' i)"
    and guard: "guard_dropped p' (cn_attempt c' i) \<longrightarrow> cn_current c' \<noteq> Some i"
    using t by (simp_all add: caller_turn_def)
  fix j
  {
    assume "j < cn_count c'"
    then have "over c j \<or> cn_current c = Some j" using inv n by (simp add: conn_inv_def current_inv_def)
    then show "over c' j \<or> cn_current c' = Some j"
      using cur n(5,8) by (auto simp: over_def)
  }
  assume j: "cn_current c' = Some j"
  then have c: "cn_current c = Some j" using cur by auto
  then show "j < cn_count c'" using inv n by (simp add: conn_inv_def current_inv_def)
  show "\<exists>q. cn_call c' j = Online q \<and> \<not> guard_dropped q (cn_attempt c' j)"
    using j c guard n inv by (cases "j = i") (auto simp: conn_inv_def current_inv_def)
qed

lemma caller_turn_handler:
  assumes t: "caller_turn i p p' c c'" and inv: "conn_inv c"
  shows "handler_inv c'"
  unfolding handler_inv_def
proof (intro allI impI)
  note n = caller_turn_frame [OF t]
  fix b
  assume "cn_online c' = Some b"
  moreover have "cn_online c' = cn_online c \<or> cn_online c' = None" using caller_turn_parts [OF t] by blast
  ultimately have "cn_online c = Some b" by auto
  then have h: "online_call c b" "has_handler (at_worker (cn_attempt c b)) \<or>
      worker_kept (at_worker (cn_attempt c b)) \<and> at_finalized (cn_attempt c b) = AckSent"
    using inv by (auto simp: conn_inv_def handler_inv_def)
  have "at_worker (cn_attempt c i) = WNone \<or> at_worker (cn_attempt c' i) = at_worker (cn_attempt c i)"
    "at_finalized (cn_attempt c i) = AckSent \<longrightarrow> at_finalized (cn_attempt c' i) = AckSent"
    using caller_turn_parts [OF t] by blast+
  then have "at_worker (cn_attempt c' b) = at_worker (cn_attempt c b) \<and>
      (at_finalized (cn_attempt c b) = AckSent \<longrightarrow> at_finalized (cn_attempt c' b) = AckSent)"
    using h(2) n(3) by (cases "b = i") auto
  then show "online_call c' b \<and> (has_handler (at_worker (cn_attempt c' b)) \<or>
      worker_kept (at_worker (cn_attempt c' b)) \<and> at_finalized (cn_attempt c' b) = AckSent)"
    using h n(7) by auto
qed

lemma caller_turn_exclusive:
  assumes t: "caller_turn i p p' c c'" and inv: "conn_inv c"
  shows "exclusive_inv c'"
  unfolding exclusive_inv_def
proof (intro allI impI)
  note n = caller_turn_frame [OF t]
  fix j q
  assume j: "j < cn_count c'" "cn_call c' j = Online q" "\<not> at_completed (cn_attempt c' j)" "q \<noteq> COnlineCheck"
    "\<forall>e. q \<noteq> CComplete e"
  show "(\<forall>b. cn_online c' = Some b \<longrightarrow> b = j) \<and> (q \<noteq> CStale \<longrightarrow> (\<forall>b. cn_active c' = Some b \<longrightarrow> b = j))"
  proof (cases "j = i")
    case True
    then have "q = p'" using j n(5) by simp
    then show ?thesis using True j t by (simp add: caller_turn_def)
  next
    case False
    then have "(\<forall>b. cn_online c = Some b \<longrightarrow> b = j) \<and> (q \<noteq> CStale \<longrightarrow> (\<forall>b. cn_active c = Some b \<longrightarrow> b = j))"
      using j n inv by (simp add: conn_inv_def exclusive_inv_def)
    moreover have "over c i"
      using False j n one_attempt [OF inv, of i j] caller_turn_parts(10) [OF t] by (auto simp: over_def)
    moreover have "cn_online c' = cn_online c \<or> cn_online c' = None"
      "cn_active c' = cn_active c \<or> cn_active c' = None \<or> \<not> over c i"
      using caller_turn_parts [OF t] by blast+
    ultimately show ?thesis by auto
  qed
qed

lemma caller_turn_active:
  assumes t: "caller_turn i p p' c c'" and inv: "conn_inv c"
  shows "active_inv c'"
  unfolding active_inv_def
proof (intro allI impI)
  note n = caller_turn_frame [OF t] and q = caller_turn_parts [OF t]
  fix b
  assume "cn_active c' = Some b"
  then have "cn_active c = Some b \<or> b = i \<and> at_finalized (cn_attempt c' i) = AckSent" using q(5) by auto
  moreover have "online_call c b \<and> at_finalized (cn_attempt c b) = AckSent" if "cn_active c = Some b"
    using that inv by (simp add: conn_inv_def active_inv_def)
  ultimately show "online_call c' b \<and> at_finalized (cn_attempt c' b) = AckSent"
    using n(3,7,9) q(2) by (cases "b = i") auto
qed

lemma caller_turn_owned:
  assumes t: "caller_turn i p p' c c'" and inv: "conn_inv c"
  shows "owned_inv c'"
  unfolding owned_inv_def
proof (intro allI impI)
  note n = caller_turn_frame [OF t] and q = caller_turn_parts [OF t]
  fix b
  assume b: "online_call c' b" and sent: "at_finalized (cn_attempt c' b) = AckSent"
  show "(cn_online c' = Some b \<longrightarrow> cn_active c' = Some b \<or> going_offline c') \<and>
      (at_open (cn_attempt c' b) \<longrightarrow> cn_active c' = Some b \<or> disconnecting c' b)"
  proof (cases "cn_active c' = Some b")
    case False
    have "at_finalized (cn_attempt c b) = AckSent"
      using sent q(3) False n(3) by (cases "b = i") auto
    then have own: "(cn_online c = Some b \<longrightarrow> cn_active c = Some b \<or> going_offline c) \<and>
        (at_open (cn_attempt c b) \<longrightarrow> cn_active c = Some b \<or> disconnecting c b)"
      using b n(7) inv by (simp add: conn_inv_def owned_inv_def)
    have active: "cn_online c' = None \<and> p' = CStaleDisconnect b" if "cn_active c = Some b"
      using that False q(5) by auto
    have "disconnecting c' b" if "p' = CStaleDisconnect b"
      using that n q(10) by (auto simp: disconnecting_def intro!: exI [of _ i])
    moreover have "disconnecting c' b \<or> \<not> at_open (cn_attempt c' b)" if "disconnecting c b"
    proof -
      from that obtain j where j: "j < cn_count c"
        "(\<exists>kind n. cn_call c j = Stop kind n (SDisconnect b)) \<or> cn_call c j = Online (CStaleDisconnect b)"
        by (auto simp: disconnecting_def)
      show ?thesis
      proof (cases "j = i")
        case True
        then have "p = CStaleDisconnect b" using j n(6) by simp
        then have "p' = CStaleDisconnect b \<or> \<not> at_open (cn_attempt c' b)" using q(8) by auto
        then show ?thesis using \<open>p' = CStaleDisconnect b \<Longrightarrow> disconnecting c' b\<close> by blast
      next
        case False
        then have "disconnecting c' b" unfolding disconnecting_def using j n(1) n(4) [OF False] by (intro exI [of _ j]) auto
        then show ?thesis ..
      qed
    qed
    moreover have "at_open (cn_attempt c' b) \<longrightarrow> at_open (cn_attempt c b)" using q(9) n(3) by (cases "b = i") auto
    moreover have "cn_online c' = Some b \<longrightarrow> cn_online c = Some b" using q(4) by auto
    ultimately show ?thesis using own active caller_turn_offline [OF t] by auto
  qed simp
qed

lemma caller_turn_lock:
  assumes t: "caller_turn i p p' c c'" and inv: "conn_inv c"
  shows "lock_inv c'"
proof -
  note n = caller_turn_frame [OF t] and q = caller_turn_parts [OF t]
  have stale: "(r = CStaleOffline \<or> (\<exists>b. r = CStaleDisconnect b)) = stale_phase r" for r by (cases r) simp_all
  have st: "(cn_call d j = Online CStaleOffline \<or> (\<exists>b. cn_call d j = Online (CStaleDisconnect b))) =
      (\<exists>r. cn_call d j = Online r \<and> stale_phase r)" for d j
    using stale by (cases "cn_call d j") auto
  then have lock: "lock_inv d \<longleftrightarrow> (cn_active_lock d \<longleftrightarrow> (\<exists>j<cn_count d. \<exists>r. cn_call d j = Online r \<and> stale_phase r))" for d
    by (simp only: lock_inv_def st)
  have old: "cn_active_lock c \<longleftrightarrow> (\<exists>j<cn_count c. \<exists>r. cn_call c j = Online r \<and> stale_phase r)"
    using inv lock by (simp add: conn_inv_def)
  have only: "j = i" if "stale_phase p" "j < cn_count c" "cn_call c j = Online r" "stale_phase r" for j r
  proof (rule one_attempt [OF inv that(2) q(10)])
    have "attempt_ok r (cn_attempt c j)" by (rule conn_inv_attempt [OF inv that(2,3)])
    then show "\<not> over c j" using that(3,4) by (cases r) (auto simp: over_def attempt_ok_def)
    show "\<not> over c i" using q(7) that(1) by simp
  qed
  have "(\<exists>j<cn_count c'. \<exists>r. cn_call c' j = Online r \<and> stale_phase r) \<longleftrightarrow>
      stale_phase p' \<or> (\<exists>j<cn_count c. j \<noteq> i \<and> (\<exists>r. cn_call c j = Online r \<and> stale_phase r))"
    using n(1,4,5) q(10) by (metis call.inject(2))
  also have "\<dots> \<longleftrightarrow> stale_phase p' \<or> \<not> stale_phase p \<and> cn_active_lock c"
    using only old n(6) by (metis call.inject(2))
  finally show ?thesis using q(6) lock by simp
qed

lemma caller_turn_stops:
  assumes t: "caller_turn i p p' c c'" and inv: "conn_inv c"
  shows "stops_inv c'"
proof -
  note n = caller_turn_frame [OF t] and q = caller_turn_parts [OF t]
  have stop: "stop_ok c' a r" if "stop_ok c a r" for a r
  proof -
    have "cn_active c' \<noteq> Some a" if "over c a" "cn_active c \<noteq> Some a" using that q(5) by auto
    moreover have "cn_online c' \<noteq> Some a" if "cn_online c \<noteq> Some a" using that q(4) by auto
    moreover have "cancel_ok c' a k" if "cancel_ok c a k" for k using that n(8) by (auto simp: cancel_ok_def)
    ultimately show ?thesis using that n(8) by (cases r) auto
  qed
  have "stops_inv c" using inv by (simp add: conn_inv_def)
  then show ?thesis
    unfolding stops_inv_def n(1,2,7,11) using stop by blast
qed

lemma caller_turn_inv:
  assumes "caller_turn i p p' c c'" "conn_inv c"
  shows "conn_inv c'"
  using caller_turn_local [OF assms] caller_turn_current [OF assms] caller_turn_handler [OF assms]
    caller_turn_exclusive [OF assms] caller_turn_active [OF assms] caller_turn_owned [OF assms]
    caller_turn_lock [OF assms] caller_turn_stops [OF assms]
  by (simp add: conn_inv_def)

text \<open>A step that only changes the phase, up to cancelling and disconnecting, and going offline.\<close>

lemma phase_turn:
  assumes inv: "conn_inv c" and i: "i < cn_count c" "cn_call c i = Online p" and t: "tweak c d"
    and c': "c' = put_caller i p' d \<or> c' = put_caller i p' (set_offline d)"
    and ok: "attempt_ok p' (cn_attempt d i)" "\<not> stale_phase p" "\<not> stale_phase p'"
    and guard: "guard_dropped p' (cn_attempt d i) \<Longrightarrow> guard_dropped p (cn_attempt c i)"
    and ex: "\<not> at_completed (cn_attempt c i) \<Longrightarrow> p' \<noteq> COnlineCheck \<Longrightarrow> (\<And>e. p' \<noteq> CComplete e) \<Longrightarrow>
        (\<forall>b. cn_online c = Some b \<longrightarrow> b = i) \<and> (p' \<noteq> CStale \<longrightarrow> (\<forall>b. cn_active c = Some b \<longrightarrow> b = i))"
    and cancel: "\<And>k. p' = CCancel k \<Longrightarrow> cancel_ok d i k \<and> (\<forall>b. target k = Some b \<longrightarrow> online_call c b)"
  shows "conn_inv c'"
proof (rule caller_turn_inv)
  show d: "conn_inv d" by (rule tweak_inv [OF t inv])
  note n = tweak_frame [OF t]
  have cur: "cn_current d = Some i \<longrightarrow> \<not> guard_dropped p (cn_attempt c i)"
    using inv i n by (auto simp: conn_inv_def current_inv_def)
  have "cn_call c' = (cn_call d)(i := Online p')" "cn_attempt c' = cn_attempt d" using c' by (auto simp: put_caller_def)
  then have over: "over c' j = over d j" for j by (cases "j = i") (simp_all add: over_def n(2) i(2))
  have "cancel_ok c' i k = cancel_ok d i k" for k by (simp add: cancel_ok_def over)
  moreover have "p \<noteq> CStaleDisconnect b" for b using ok(2) by auto
  moreover have "online_call d b = online_call c b" for b by (rule n)
  ultimately show "caller_turn i p p' d c'"
    unfolding caller_turn_def using i ok guard ex cancel cur c' n(1-6) n(8)
    by (auto simp: put_caller_def)
qed

lemma online_phase: "conn_inv c \<Longrightarrow> i < cn_count c \<Longrightarrow> cn_call c i = Online p \<Longrightarrow> phase_ok p (cn_attempt c i)"
  using conn_inv_attempt by (auto simp: attempt_ok_def)

lemma online_exclusive:
  assumes "conn_inv c" "i < cn_count c" "cn_call c i = Online p" "\<not> at_completed (cn_attempt c i)"
    "p \<noteq> COnlineCheck" "\<And>e. p \<noteq> CComplete e"
  shows "\<forall>b. cn_online c = Some b \<longrightarrow> b = i" "p \<noteq> CStale \<Longrightarrow> \<forall>b. cn_active c = Some b \<longrightarrow> b = i"
  using assms by (auto simp: conn_inv_def exclusive_inv_def)

lemma check_inv:
  assumes inv: "conn_inv c" and i: "i < cn_count c" "cn_call c i = Online COnlineCheck"
  shows "conn_inv (online_check D i c)"
proof -
  have ok: "attempt_ok COnlineCheck (cn_attempt c i)" by (rule conn_inv_attempt [OF inv i])
  show ?thesis
    unfolding online_check_def
    by (rule phase_turn [OF inv i tweak_refl disjI1 [OF refl]])
      (use ok in \<open>auto simp: attempt_ok_def guard_dropped_def split: if_splits\<close>)
qed

lemma spawn_inv:
  assumes inv: "conn_inv c" and i: "i < cn_count c" "cn_call c i = Online CSpawn"
  shows "conn_inv (spawn_worker i c)"
proof -
  have ok: "attempt_ok CSpawn (cn_attempt c i)" by (rule conn_inv_attempt [OF inv i])
  note ex = online_exclusive [OF inv i]
  show ?thesis
  proof (cases "at_cancelled (cn_attempt c i)")
    case True
    show ?thesis
      unfolding spawn_worker_def
      by (rule phase_turn [OF inv i tweak_refl disjI1]) (use True ok in \<open>auto simp: attempt_ok_def guard_dropped_def\<close>)
  next
    case False
    have "caller_turn i CSpawn CWait c (spawn_worker i c)"
      unfolding caller_turn_def using False i ok ex
      by (auto simp: spawn_worker_def put_caller_def put_worker_def attempt_ok_def guard_dropped_def)
    then show ?thesis using inv by (rule caller_turn_inv)
  qed
qed

lemma stale_inv:
  assumes inv: "conn_inv c" and i: "i < cn_count c" "cn_call c i = Online CStale" and c': "take_stale i c = Some c'"
  shows "conn_inv c'"
proof -
  have ok: "attempt_ok CStale (cn_attempt c i)" by (rule conn_inv_attempt [OF inv i])
  have ex: "\<forall>b. cn_online c = Some b \<longrightarrow> b = i" using online_exclusive [OF inv i] ok by (auto simp: attempt_ok_def)
  have "cn_online c \<noteq> Some i" using inv ok by (auto simp: conn_inv_def handler_inv_def attempt_ok_def)
  then have "cn_online c = None" using ex by (cases "cn_online c") auto
  then have "caller_turn i CStale (case cn_active c of None \<Rightarrow> CSpawn | Some b \<Rightarrow> CStaleDisconnect b) c c'"
    unfolding caller_turn_def using i ok c'
    by (auto simp: take_stale_def put_caller_def attempt_ok_def guard_dropped_def split: option.splits if_splits)
  then show ?thesis using inv by (rule caller_turn_inv)
qed

lemma stale_disconnect_inv:
  assumes inv: "conn_inv c" and i: "i < cn_count c" "cn_call c i = Online (CStaleDisconnect b)"
  shows "conn_inv (put_caller i CStaleOffline (stop_api b c))"
proof (rule caller_turn_inv)
  show d: "conn_inv (stop_api b c)" by (rule tweak_inv [OF tweak_stop inv])
  note n = tweak_frame [OF tweak_stop [of c b]]
  have i': "i < cn_count (stop_api b c)" "cn_call (stop_api b c) i = Online (CStaleDisconnect b)" using i n by simp_all
  have ok: "attempt_ok (CStaleDisconnect b) (cn_attempt (stop_api b c) i)" by (rule conn_inv_attempt [OF d i'])
  have lock: "cn_active_lock (stop_api b c)" using d i' by (auto simp: conn_inv_def lock_inv_def)
  show "caller_turn i (CStaleDisconnect b) CStaleOffline (stop_api b c) (put_caller i CStaleOffline (stop_api b c))"
    unfolding caller_turn_def using i' ok online_exclusive [OF d i'] lock
    by (auto simp: put_caller_def attempt_ok_def guard_dropped_def over_def stop_api_def)
qed

lemma stale_offline_inv:
  assumes inv: "conn_inv c" and i: "i < cn_count c" "cn_call c i = Online CStaleOffline"
  shows "conn_inv (stale_offline D ans i c)"
proof -
  have ok: "attempt_ok CStaleOffline (cn_attempt c i)" by (rule conn_inv_attempt [OF inv i])
  have "caller_turn i CStaleOffline
      (case normalize_offline_mode_result (dh_text D) (ans_offline ans) of Inl e \<Rightarrow> CComplete e | Inr _ \<Rightarrow> CSpawn) c
      (stale_offline D ans i c)"
    unfolding caller_turn_def using i ok online_exclusive [OF inv i]
    by (auto simp: stale_offline_def put_caller_def attempt_ok_def guard_dropped_def over_def split: sum.splits)
  then show ?thesis using inv by (rule caller_turn_inv)
qed

lemma receive_inv:
  assumes inv: "conn_inv c" and i: "i < cn_count c" "cn_call c i = Online CWait" and c': "receive_result i c = Some c'"
  shows "conn_inv c'"
proof -
  let ?x = "cn_attempt c i"
  have ok: "attempt_ok CWait ?x" by (rule conn_inv_attempt [OF inv i])
  note ex = online_exclusive [OF inv i]
  from c' obtain r where r: "at_result ?x = Some r" by (auto simp: receive_result_def Let_def split: option.splits)
  show ?thesis
  proof (cases r)
    case (Inl e)
    then have w: "at_worker ?x = WDone" using r ok by (auto simp: attempt_ok_def)
    have "c' = put_caller i (CReturned (Err e)) c" using c' r Inl by (simp add: receive_result_def Let_def)
    then show ?thesis
      by (intro phase_turn [OF inv i tweak_refl disjI1]) (use w ok in \<open>auto simp: attempt_ok_def guard_dropped_def\<close>)
  next
    case (Inr u)
    then have w: "at_worker ?x = WAcks" using r ok by (auto simp: attempt_ok_def)
    have "c' = put_caller i CAccepted (put_attempt i (?x\<lparr> at_accepted := AckSent \<rparr>) c)"
      using c' r Inr w by (simp add: receive_result_def Let_def)
    then have "caller_turn i CWait CAccepted c c'"
      unfolding caller_turn_def using i ok w ex by (auto simp: put_caller_def attempt_ok_def guard_dropped_def)
    then show ?thesis using inv by (rule caller_turn_inv)
  qed
qed

lemma guard_current:
  assumes "conn_inv c" "cn_call c i = Online p" "guard_dropped p (cn_attempt c i)"
  shows "cn_current c \<noteq> Some i"
  using assms by (auto simp: conn_inv_def current_inv_def)

lemma guard_worker:
  "at_worker x \<noteq> WNone \<Longrightarrow> at_worker x' = at_worker x \<Longrightarrow> guard_dropped q x' = guard_dropped p x"
  by (cases "at_worker x") (simp_all add: guard_dropped_def)

lemma drop_finalized_inv:
  assumes inv: "conn_inv c" and i: "i < cn_count c" "cn_call c i = Online p" and p: "p = CAccepted \<or> p = CLock"
  shows "conn_inv (drop_finalized i c)"
proof -
  let ?x = "cn_attempt c i"
  have ok: "attempt_ok p ?x" by (rule conn_inv_attempt [OF inv i])
  then have x: "at_worker ?x = WAcks" "at_accepted ?x = AckSent" "at_finalized ?x = AckPending" "\<not> at_completed ?x"
    "\<not> at_activation ?x"
    using p by (elim disjE; simp add: attempt_ok_def)+
  have ex: "\<forall>b. cn_online c = Some b \<longrightarrow> b = i" "\<forall>b. cn_active c = Some b \<longrightarrow> b = i"
    using online_exclusive [OF inv i x(4)] p by auto
  have st: "\<not> stale_phase p" "p \<noteq> CStaleDisconnect b" for b using p by auto
  have "caller_turn i p CJoin c (drop_finalized i c)"
    unfolding caller_turn_def using i x ex st
    by (simp add: drop_finalized_def put_caller_def attempt_ok_def guard_dropped_def)
  then show ?thesis using inv by (rule caller_turn_inv)
qed

lemma accepted_inv:
  assumes inv: "conn_inv c" and i: "i < cn_count c" "cn_call c i = Online CAccepted"
  shows "conn_inv (accepted_check i c)"
proof (cases "at_cancelled (cn_attempt c i)")
  case True
  then show ?thesis using drop_finalized_inv [OF inv i] by (simp add: accepted_check_def)
next
  case False
  have ok: "attempt_ok CAccepted (cn_attempt c i)" by (rule conn_inv_attempt [OF inv i])
  have "accepted_check i c = put_caller i CLock c" using False by (simp add: accepted_check_def)
  then show ?thesis
    by (intro phase_turn [OF inv i tweak_refl disjI1])
      (use ok online_exclusive [OF inv i] in \<open>auto simp: attempt_ok_def guard_dropped_def\<close>)
qed

lemma publish_inv:
  assumes inv: "conn_inv c" and i: "i < cn_count c" "cn_call c i = Online CLock" and c': "publish_connection i c = Some c'"
  shows "conn_inv c'"
proof (cases "at_cancelled (cn_attempt c i)")
  case True
  then show ?thesis
    using drop_finalized_inv [OF inv i] c' by (auto simp: publish_connection_def Let_def split: if_splits)
next
  case False
  have ok: "attempt_ok CLock (cn_attempt c i)" by (rule conn_inv_attempt [OF inv i])
  have "c' = put_caller i CJoinOk (put_attempt i ((cn_attempt c i)\<lparr> at_finalized := AckSent \<rparr>) (c\<lparr> cn_active := Some i \<rparr>))"
    using False c' ok by (auto simp: publish_connection_def attempt_ok_def Let_def split: if_splits)
  then have "caller_turn i CLock CJoinOk c c'"
    unfolding caller_turn_def using i ok online_exclusive [OF inv i]
    by (auto simp: put_caller_def attempt_ok_def guard_dropped_def over_def)
  then show ?thesis using inv by (rule caller_turn_inv)
qed

lemma joined_phase:
  assumes "phase_ok p x" "p = CJoin \<and> r \<noteq> Ok () \<or> p = CJoinOk" "at_completed x"
  shows "phase_ok (CReturned r) x" "at_worker x \<noteq> WNone"
  using assms by (auto simp del: acknowledged.simps)

lemma join_inv:
  assumes inv: "conn_inv c" and i: "i < cn_count c" "cn_call c i = Online p" and p: "p = CJoin \<and> r \<noteq> Ok () \<or> p = CJoinOk"
    and c': "join_worker i r c = Some c'"
  shows "conn_inv c'"
proof -
  have ok: "attempt_ok p (cn_attempt c i)" by (rule conn_inv_attempt [OF inv i])
  have d: "at_completed (cn_attempt c i)" "c' = put_caller i (CReturned r) c"
    using c' by (auto simp: join_worker_def split: if_splits)
  have ret: "phase_ok (CReturned r) (cn_attempt c i)" "at_worker (cn_attempt c i) \<noteq> WNone"
    using joined_phase [OF _ p d(1)] ok by (simp_all add: attempt_ok_def)
  then have "attempt_ok (CReturned r) (cn_attempt c i)" using ok unfolding attempt_ok_def by blast
  moreover have "guard_dropped (CReturned r) (cn_attempt c i) = guard_dropped p (cn_attempt c i)"
    by (rule guard_worker [OF ret(2) refl])
  moreover have "\<not> stale_phase p" using p by auto
  ultimately show ?thesis
    using d(1) by (intro phase_turn [OF inv i tweak_refl disjI1 [OF d(2)]]) simp_all
qed

lemma complete_inv:
  assumes inv: "conn_inv c" and i: "i < cn_count c" "cn_call c i = Online (CComplete e)"
  shows "conn_inv (put_caller i (CClear e) (attempt_complete i c))"
proof -
  have ok: "attempt_ok (CComplete e) (cn_attempt c i)" by (rule conn_inv_attempt [OF inv i])
  have "caller_turn i (CComplete e) (CClear e) c (put_caller i (CClear e) (attempt_complete i c))"
    unfolding caller_turn_def using i ok
    by (auto simp: put_caller_def attempt_complete_def attempt_ok_def guard_dropped_def)
  then show ?thesis using inv by (rule caller_turn_inv)
qed

lemma clear_inv:
  assumes inv: "conn_inv c" and i: "i < cn_count c" "cn_call c i = Online (CClear e)"
  shows "conn_inv (put_caller i (CReturned (Err e)) (clear_current i c))"
proof -
  have ok: "attempt_ok (CClear e) (cn_attempt c i)" by (rule conn_inv_attempt [OF inv i])
  have "caller_turn i (CClear e) (CReturned (Err e)) c (put_caller i (CReturned (Err e)) (clear_current i c))"
    unfolding caller_turn_def using i ok
    by (auto simp: put_caller_def attempt_ok_def guard_dropped_def)
  then show ?thesis using inv by (rule caller_turn_inv)
qed

lemma timeout_inv:
  assumes inv: "conn_inv c" and i: "i < cn_count c" "cn_call c i = Online CWait"
  shows "conn_inv (complete_connection_timeout i c)"
proof -
  let ?x = "cn_attempt c i"
  let ?y = "?x\<lparr> at_receiver := False, at_accepted := AckDropped, at_finalized := AckDropped \<rparr>"
  have ok: "attempt_ok CWait ?x" by (rule conn_inv_attempt [OF inv i])
  then have x: "at_worker ?x \<noteq> WNone" "at_worker ?x \<noteq> WFinal" "at_finalized ?x = AckPending"
    "at_completed ?x \<longleftrightarrow> worker_over (at_worker ?x)"
    by (simp_all add: attempt_ok_def)
  have ok': "attempt_ok (CCancel (KRequest False)) ?y"
    using ok x by (auto simp: attempt_ok_def simp del: in_activation.simps may_be_open.simps)
  have "guard_dropped (CCancel (KRequest False)) ?y = guard_dropped CWait ?x"
    by (rule guard_worker [OF x(1)]) simp
  then have guard: "guard_dropped (CCancel (KRequest False)) ?y \<longrightarrow> cn_current c \<noteq> Some i"
    using guard_current [OF inv i(2)] by simp
  have ex: "\<not> at_completed ?x \<longrightarrow> (\<forall>b. cn_online c = Some b \<longrightarrow> b = i) \<and> (\<forall>b. cn_active c = Some b \<longrightarrow> b = i)"
    using online_exclusive [OF inv i] by auto
  have "caller_turn i CWait (CCancel (KRequest False)) c (complete_connection_timeout i c)"
    unfolding caller_turn_def using i x(3) ok' guard ex
    by (simp add: complete_connection_timeout_def put_caller_def cancel_ok_def)
  then show ?thesis using inv by (rule caller_turn_inv)
qed

lemma timeout_cancel_inv:
  assumes inv: "conn_inv c" and i: "i < cn_count c" "cn_call c i = Online (CCancel k)" and c': "timeout_cancel i k c = Some c'"
  shows "conn_inv c'"
proof -
  let ?x = "cn_attempt c i"
  have ok: "attempt_ok (CCancel k) ?x" by (rule conn_inv_attempt [OF inv i])
  then have x: "at_worker ?x \<noteq> WNone" "at_finalized ?x = AckDropped" "at_completed ?x \<longleftrightarrow> worker_over (at_worker ?x)"
    by (simp_all add: attempt_ok_def)
  have wait: "cancel_ok c i k" "\<And>b. target k = Some b \<Longrightarrow> online_call c b"
    using inv i by (simp_all add: conn_inv_def timeouts_inv_def)
  show ?thesis
  proof (cases "k = KDone")
    case True
    then have "over c i" using wait(1) by (simp add: cancel_ok_def)
    then have fin: "at_completed ?x" using i(2) by (simp add: over_def)
    have "attempt_ok (CReturned (Err network_connect_timeout)) ?x"
      using ok x fin by (auto simp: attempt_ok_def simp del: in_activation.simps may_be_open.simps)
    moreover have "guard_dropped (CReturned (Err network_connect_timeout)) ?x = guard_dropped (CCancel k) ?x"
      by (rule guard_worker [OF x(1) refl])
    moreover have ret: "c' = put_caller i (CReturned (Err network_connect_timeout)) c"
      using c' True by (simp add: timeout_cancel_def)
    ultimately show ?thesis
      using fin by (intro phase_turn [OF inv i tweak_refl disjI1 [OF ret]]) simp_all
  next
    case False
    then obtain k' d where step: "cancel_connection_attempt k c = Some (k', d)" and d: "c' = put_caller i (CCancel k') d"
      using c' by (auto simp: timeout_cancel_def)
    note t = cancel_step_tweak [OF step]
    have "attempt_tweak ?x (cn_attempt d i)" using t by (simp add: tweak_def)
    then have "attempt_ok (CCancel k') (cn_attempt d i)"
      using tweak_attempt_ok [OF _ ok] unfolding attempt_ok_def phase_ok.simps by blast
    moreover have "guard_dropped (CCancel k') (cn_attempt d i) = guard_dropped (CCancel k) ?x"
      by (rule guard_worker [OF x(1)]) (rule tweak_frame(7) [OF t])
    moreover have "cancel_ok d i k'" by (rule cancel_step_ok [OF inv step i(1) wait(1)])
    moreover have "online_call c b" if "target k' = Some b" for b
      using cancel_step_target [OF inv step that] wait(2) by blast
    ultimately show ?thesis
      using online_exclusive [OF inv i] by (intro phase_turn [OF inv i t disjI1 [OF d]]) simp_all
  qed
qed

lemma online_mode_inv:
  assumes inv: "conn_inv c" and i: "i < cn_count c" "cn_call c i = Online p" and c': "online_mode_step D ans i p c = Some c'"
  shows "conn_inv c'"
proof (cases p)
  case CJoin
  then show ?thesis
    using i c' join_inv [OF inv, of i CJoin "Err network_connect_cancelled" c'] by (simp add: online_mode_step_def)
next
  case CJoinOk
  then show ?thesis using i c' join_inv [OF inv, of i CJoinOk _ c'] by (simp add: online_mode_step_def)
qed (use i c' check_inv [OF inv] stale_inv [OF inv] stale_disconnect_inv [OF inv] stale_offline_inv [OF inv] spawn_inv [OF inv]
    receive_inv [OF inv] accepted_inv [OF inv] publish_inv [OF inv] timeout_cancel_inv [OF inv] complete_inv [OF inv]
    clear_inv [OF inv] in \<open>auto simp: online_mode_step_def\<close>)

end
