(* ===== verification/Connection_Guarantees.thy ===== *)
theory Connection_Guarantees
  imports Connection_Online
begin

text \<open>
  What the interleaving of connection attempts, stops and workers guarantees: one attempt at a time, no
  network handler or socket that nobody owns, stops as barriers for everything that began before them,
  and that every call returns.
\<close>

section \<open>Stops keep the invariant\<close>

text \<open>
  A step of a stop: its own phase, and that it may take the active connection, which it then has to
  disconnect, and go offline, which it has to do before it returns.
\<close>

fun stop_offline_phase :: "stopper \<Rightarrow> bool" where
  "stop_offline_phase (SDisconnect b) = True"
| "stop_offline_phase SOffline = True"
| "stop_offline_phase _ = False"

definition stop_fine :: "conn \<Rightarrow> nat \<Rightarrow> stop_kind \<Rightarrow> nat \<Rightarrow> stopper \<Rightarrow> bool" where
  "stop_fine c j kind n p \<longleftrightarrow>
     j \<le> n \<and> n \<le> cn_count c \<and> (\<forall>a < n. stop_ok c a p) \<and>
     (kind = StopClose \<longrightarrow> stop_asked p \<longrightarrow> cn_closed c \<and> (\<forall>a < cn_count c. n \<le> a \<longrightarrow> \<not> online_call c a)) \<and>
     (\<forall>k. p = SCancel k \<longrightarrow> (k = KRequest (kind = StopClose) \<or> asked k) \<and> (\<forall>b. target k = Some b \<longrightarrow> online_call c b))"

lemma stops_inv_fine: "stops_inv c \<longleftrightarrow> (\<forall>j < cn_count c. \<forall>kind n p. cn_call c j = Stop kind n p \<longrightarrow> stop_fine c j kind n p)"
  by (simp only: stops_inv_def stop_fine_def)

lemma going_offline_phase:
  "going_offline c \<longleftrightarrow> (\<exists>j < cn_count c. \<exists>kind n p. cn_call c j = Stop kind n p \<and> stop_offline_phase p)"
proof -
  have "(p = SOffline \<or> (\<exists>b. p = SDisconnect b)) = stop_offline_phase p" for p by (cases p) simp_all
  then show ?thesis by (simp only: going_offline_def)
qed

definition stop_turn :: "nat \<Rightarrow> stop_kind \<Rightarrow> nat \<Rightarrow> stopper \<Rightarrow> nat \<Rightarrow> stopper \<Rightarrow> conn \<Rightarrow> conn \<Rightarrow> bool" where
  "stop_turn i kind n p n' p' c c' \<longleftrightarrow>
     i < cn_count c \<and> cn_call c i = Stop kind n p \<and> cn_call c' = (cn_call c)(i := Stop kind n' p') \<and>
     cn_count c' = cn_count c \<and> cn_attempt c' = cn_attempt c \<and> cn_current c' = cn_current c \<and>
     cn_closed c' = cn_closed c \<and> cn_active_lock c' = cn_active_lock c \<and>
     (cn_online c' = cn_online c \<or> cn_online c' = None) \<and>
     (cn_active c' = cn_active c \<or> cn_active c' = None \<and> p' = SDisconnect (the (cn_active c))) \<and>
     (stop_offline_phase p \<longrightarrow> stop_offline_phase p' \<or> cn_online c' = None) \<and>
     (\<forall>b. p = SDisconnect b \<longrightarrow> p' = p \<or> \<not> at_open (cn_attempt c b)) \<and>
     stop_fine c' i kind n' p'"

lemma stop_turn_frame:
  assumes "stop_turn i kind n p n' p' c c'"
  shows "cn_count c' = cn_count c" "cn_attempt c' = cn_attempt c" "cn_current c' = cn_current c"
    "cn_closed c' = cn_closed c" "cn_active_lock c' = cn_active_lock c"
    "(cn_call c' j = Online q) = (cn_call c j = Online q)" "online_call c' = online_call c" "over c' = over c"
    "cancel_ok c' = cancel_ok c" "cn_online c' = Some a \<Longrightarrow> cn_online c = Some a"
    "cn_active c' = Some a \<Longrightarrow> cn_active c = Some a"
proof -
  show *: "cn_count c' = cn_count c" "cn_attempt c' = cn_attempt c" "cn_current c' = cn_current c"
    "cn_closed c' = cn_closed c" "cn_active_lock c' = cn_active_lock c"
    "(cn_call c' j = Online q) = (cn_call c j = Online q)" for j q
    using assms by (simp_all add: stop_turn_def)
  show "online_call c' = online_call c" "over c' = over c"
    by (auto simp only: online_call_def over_def fun_eq_iff *)
  then show "cancel_ok c' = cancel_ok c" by (auto simp only: cancel_ok_def fun_eq_iff)
  show "cn_online c' = Some a \<Longrightarrow> cn_online c = Some a" "cn_active c' = Some a \<Longrightarrow> cn_active c = Some a"
    using assms by (auto simp: stop_turn_def)
qed

lemma stop_turn_owned:
  assumes t: "stop_turn i kind n p n' p' c c'" and inv: "conn_inv c"
  shows "owned_inv c'"
  unfolding owned_inv_def
proof (intro allI impI)
  note f = stop_turn_frame [OF t]
  have call: "i < cn_count c" "cn_call c i = Stop kind n p" "cn_call c' = (cn_call c)(i := Stop kind n' p')"
    using t by (simp_all add: stop_turn_def)
  fix b
  assume "online_call c' b" "at_finalized (cn_attempt c' b) = AckSent"
  then have own: "cn_online c = Some b \<longrightarrow> cn_active c = Some b \<or> going_offline c"
    "at_open (cn_attempt c b) \<longrightarrow> cn_active c = Some b \<or> disconnecting c b"
    using inv f by (simp_all add: conn_inv_def owned_inv_def)
  have taken: "p' = SDisconnect b" if "cn_active c = Some b" "cn_active c' \<noteq> Some b"
    using that t by (auto simp: stop_turn_def)
  have here: "going_offline c'" if "stop_offline_phase p'"
    unfolding going_offline_phase using that call f(1) by (auto intro!: exI [of _ i])
  have off: "going_offline c' \<or> cn_online c' = None" if g: "going_offline c"
  proof -
    obtain j kind'' n'' q where j: "j < cn_count c" "cn_call c j = Stop kind'' n'' q" "stop_offline_phase q"
      using g unfolding going_offline_phase by blast
    show ?thesis
    proof (cases "j = i")
      case True
      then have "stop_offline_phase p' \<or> cn_online c' = None" using j call t by (auto simp: stop_turn_def)
      then show ?thesis using here by auto
    next
      case False
      then have "cn_call c' j = Stop kind'' n'' q" using j call by simp
      then show ?thesis unfolding going_offline_phase using j f(1) by auto
    qed
  qed
  have there: "disconnecting c' b" if "p' = SDisconnect b"
    unfolding disconnecting_def using that call f(1) by (auto intro!: exI [of _ i])
  have dis: "disconnecting c' b \<or> \<not> at_open (cn_attempt c b)" if d: "disconnecting c b"
  proof -
    obtain j where j: "j < cn_count c"
      "(\<exists>kind n. cn_call c j = Stop kind n (SDisconnect b)) \<or> cn_call c j = Online (CStaleDisconnect b)"
      using d unfolding disconnecting_def by blast
    show ?thesis
    proof (cases "j = i")
      case True
      then have "p = SDisconnect b" using j call by auto
      then have "p' = SDisconnect b \<or> \<not> at_open (cn_attempt c b)" using t by (auto simp: stop_turn_def)
      then show ?thesis using there by blast
    next
      case False
      then have "disconnecting c' b" unfolding disconnecting_def using j call f(1) by (intro exI [of _ j]) simp
      then show ?thesis ..
    qed
  qed
  show "(cn_online c' = Some b \<longrightarrow> cn_active c' = Some b \<or> going_offline c') \<and>
      (at_open (cn_attempt c' b) \<longrightarrow> cn_active c' = Some b \<or> disconnecting c' b)"
    using own taken here off there dis f(2) f(10) [of b] by (metis option.distinct(1) stop_offline_phase.simps(1))
qed

lemma stop_turn_stops:
  assumes t: "stop_turn i kind n p n' p' c c'" and inv: "conn_inv c"
  shows "stops_inv c'"
  unfolding stops_inv_fine
proof (intro allI impI)
  note f = stop_turn_frame [OF t]
  have stop: "stop_ok c a q \<Longrightarrow> stop_ok c' a q" for a q
    using f by (cases q) auto
  fix j kind'' m q
  assume j: "j < cn_count c'" "cn_call c' j = Stop kind'' m q"
  show "stop_fine c' j kind'' m q"
  proof (cases "j = i")
    case True
    then show ?thesis using j t by (auto simp: stop_turn_def)
  next
    case False
    then have "stop_fine c j kind'' m q" using j t inv f(1) by (auto simp: stop_turn_def conn_inv_def stops_inv_fine)
    then show ?thesis using stop unfolding stop_fine_def f by blast
  qed
qed

lemma stop_turn_inv:
  assumes t: "stop_turn i kind n p n' p' c c'" and inv: "conn_inv c"
  shows "conn_inv c'"
proof -
  note f = stop_turn_frame [OF t]
  note parts = inv [unfolded conn_inv_def]
  have "idle_inv c'" "attempts_inv c'" "current_inv c'" "lock_inv c'" "timeouts_inv c'"
    unfolding idle_inv_def attempts_inv_def current_inv_def lock_inv_def timeouts_inv_def f
    using parts unfolding idle_inv_def attempts_inv_def current_inv_def lock_inv_def timeouts_inv_def by blast+
  moreover have "handler_inv c'" "active_inv c'"
    unfolding handler_inv_def active_inv_def f(2,7)
    using parts f(10,11) unfolding handler_inv_def active_inv_def by blast+
  moreover have "exclusive_inv c'"
    unfolding exclusive_inv_def f(1,2,6) using parts f(10,11) unfolding exclusive_inv_def by blast
  ultimately show ?thesis
    using stop_turn_owned [OF t inv] stop_turn_stops [OF t inv] unfolding conn_inv_def by blast
qed

lemma stop_fine_at:
  "conn_inv c \<Longrightarrow> i < cn_count c \<Longrightarrow> cn_call c i = Stop kind n p \<Longrightarrow> stop_fine c i kind n p"
  by (simp add: conn_inv_def stops_inv_fine)

text \<open>What a stop says of the state depends on its own phase only up to the calls that are online.\<close>

lemma stop_fine_put: "stop_fine (put_stop i kind' m q c) j kind n p = stop_fine c j kind n p"
  if "cn_call c i = Stop kind'' n'' p''"
proof -
  have "over (put_stop i kind' m q c) a = over c a" "online_call (put_stop i kind' m q c) a = online_call c a" for a
    using that by (auto simp: over_def online_call_def put_stop_def)
  moreover from this have "stop_ok (put_stop i kind' m q c) a r = stop_ok c a r" for a r
    by (cases r) (simp_all add: cancel_ok_def put_stop_def)
  ultimately show ?thesis by (simp add: stop_fine_def put_stop_def)
qed

lemma stop_cancel_inv:
  assumes inv: "conn_inv c" and i: "i < cn_count c" "cn_call c i = Stop kind n (SCancel k)"
    and c': "stop_cancel i kind n k c = Some c'"
  shows "conn_inv c'"
proof -
  have fine: "stop_fine c i kind n (SCancel k)" by (rule stop_fine_at [OF inv i])
  show ?thesis
  proof (cases "k = KDone")
    case True
    then have "stop_fine c i kind n STake" using fine by (auto simp: stop_fine_def cancel_ok_def)
    then have "stop_turn i kind n (SCancel k) n STake c (put_stop i kind n STake c)"
      using i by (simp add: stop_turn_def stop_fine_put [OF i(2)]) (simp add: put_stop_def)
    moreover have "c' = put_stop i kind n STake c" using c' True by (simp add: stop_cancel_def)
    ultimately show ?thesis using stop_turn_inv [OF _ inv] by simp
  next
    case False
    let ?n = "case k of KRequest t \<Rightarrow> cn_count c | _ \<Rightarrow> n"
    obtain k' d where step: "cancel_connection_attempt k c = Some (k', d)" and d: "c' = put_stop i kind ?n (SCancel k') d"
      using c' False by (auto simp: stop_cancel_def)
    note t = cancel_step_tweak [OF step] and asked = cancel_step_asked [OF step]
    note f = tweak_frame [OF t]
    have inv': "conn_inv d" by (rule tweak_inv [OF t inv])
    have n: "i \<le> ?n" "?n \<le> cn_count d"
      using fine i f(1) by (auto simp: stop_fine_def split: canceller.splits)
    have waits: "cancel_ok d a k'" if a: "a < ?n" for a
    proof (rule cancel_step_ok [OF inv step])
      show "a < cn_count c" using a n(2) f(1) by simp
      show "cancel_ok c a k" using fine a by (cases k) (auto simp: stop_fine_def cancel_ok_def)
    qed
    have close: "cn_closed d \<and> (\<forall>a < cn_count d. ?n \<le> a \<longrightarrow> \<not> online_call d a)" if "kind = StopClose"
    proof (cases k)
      case (KRequest t)
      then have "t" using fine that by (auto simp: stop_fine_def)
      then have "cn_closed d" using step KRequest by (auto split: option.splits)
      then show ?thesis using KRequest f(1) by simp
    qed (use fine that t f in \<open>auto simp: stop_fine_def tweak_def\<close>)
    have "target k' = Some b \<Longrightarrow> online_call d b" for b
      using cancel_step_target [OF inv step] fine f(13) by (auto simp: stop_fine_def)
    then have "stop_fine d i kind ?n (SCancel k')"
      using n waits close asked unfolding stop_fine_def by auto
    moreover have i': "i < cn_count d" "cn_call d i = Stop kind n (SCancel k)" using i f by simp_all
    ultimately have "stop_turn i kind n (SCancel k) ?n (SCancel k') d c'"
      unfolding d stop_turn_def by (simp add: stop_fine_put [OF i'(2)]) (simp add: put_stop_def)
    then show ?thesis using stop_turn_inv [OF _ inv'] by simp
  qed
qed

lemma take_active_inv:
  assumes inv: "conn_inv c" and i: "i < cn_count c" "cn_call c i = Stop kind n STake" and c': "take_active i kind n c = Some c'"
  shows "conn_inv c'"
proof -
  let ?p = "case cn_active c of None \<Rightarrow> SOffline | Some b \<Rightarrow> SDisconnect b"
  let ?d = "c\<lparr> cn_active := None \<rparr>"
  have d: "c' = put_stop i kind n ?p ?d" using c' by (auto simp: take_active_def split: if_splits)
  have same: "over ?d = over c" "online_call ?d = online_call c" by (auto simp: over_def online_call_def)
  have "stop_fine c i kind n STake" by (rule stop_fine_at [OF inv i])
  then have "stop_fine ?d i kind n ?p" by (auto simp: stop_fine_def same split: option.splits)
  then have "stop_turn i kind n STake n ?p c c'"
    using i unfolding d stop_turn_def by (simp add: stop_fine_put split: option.splits) (auto simp: put_stop_def)
  then show ?thesis using inv by (rule stop_turn_inv)
qed

lemma stop_disconnect_inv:
  assumes inv: "conn_inv c" and i: "i < cn_count c" "cn_call c i = Stop kind n (SDisconnect b)"
  shows "conn_inv (put_stop i kind n SOffline (stop_api b c))"
proof -
  note f = tweak_frame [OF tweak_stop [of c b]]
  have inv': "conn_inv (stop_api b c)" by (rule tweak_inv [OF tweak_stop inv])
  have i': "i < cn_count (stop_api b c)" "cn_call (stop_api b c) i = Stop kind n (SDisconnect b)" using i f by simp_all
  have "\<not> at_open (cn_attempt (stop_api b c) b)" by (simp add: stop_api_def)
  moreover have "stop_fine (stop_api b c) i kind n SOffline"
    using stop_fine_at [OF inv' i'] by (simp add: stop_fine_def)
  ultimately have "stop_turn i kind n (SDisconnect b) n SOffline (stop_api b c) (put_stop i kind n SOffline (stop_api b c))"
    using i' by (simp add: stop_turn_def stop_fine_put [OF i'(2)]) (simp add: put_stop_def)
  then show ?thesis using inv' by (rule stop_turn_inv)
qed

lemma stop_offline_inv:
  assumes inv: "conn_inv c" and i: "i < cn_count c" "cn_call c i = Stop kind n SOffline"
  shows "conn_inv (stop_offline D ans i kind n c)"
proof -
  obtain r where d: "stop_offline D ans i kind n c = put_stop i kind n (SReturned r) (set_offline c)"
    by (simp add: stop_offline_def)
  have same: "over (set_offline c) = over c" "online_call (set_offline c) = online_call c" by (auto simp: over_def online_call_def)
  have "stop_fine c i kind n SOffline" by (rule stop_fine_at [OF inv i])
  then have "stop_fine (set_offline c) i kind n (SReturned r)" by (simp add: stop_fine_def same)
  then have "stop_turn i kind n SOffline n (SReturned r) c (stop_offline D ans i kind n c)"
    using i unfolding d stop_turn_def by (simp add: stop_fine_put) (simp add: put_stop_def)
  then show ?thesis using inv by (rule stop_turn_inv)
qed

lemma stop_step_inv:
  assumes "conn_inv c" "i < cn_count c" "cn_call c i = Stop kind n p" "stop_step D ans i kind n p c = Some c'"
  shows "conn_inv c'"
  using assms
  by (cases p)
    (auto simp: stop_step_def intro: stop_cancel_inv take_active_inv stop_disconnect_inv stop_offline_inv)

section \<open>New calls keep it\<close>

lemma set_offline_inv:
  assumes "conn_inv c"
  shows "conn_inv (set_offline c)"
proof -
  have same: "over (set_offline c) = over c" "online_call (set_offline c) = online_call c"
    "going_offline (set_offline c) = going_offline c" "disconnecting (set_offline c) = disconnecting c"
    by (auto simp: over_def online_call_def going_offline_def disconnecting_def)
  have "cancel_ok (set_offline c) = cancel_ok c" by (simp add: cancel_ok_def fun_eq_iff same)
  moreover from this have "stop_ok c a p \<Longrightarrow> stop_ok (set_offline c) a p" for a p by (cases p) (simp_all add: same)
  ultimately show ?thesis
    using assms
    unfolding conn_inv_def idle_inv_def attempts_inv_def current_inv_def handler_inv_def exclusive_inv_def active_inv_def
      owned_inv_def lock_inv_def stops_inv_def timeouts_inv_def
    by (simp add: same)
qed

lemma drop_wallet_tweak: "tweak c (drop_wallet c)"
  by (cases "cn_current c") (simp_all add: drop_wallet_def tweak_def attempt_tweak_def attempt_cancel_def)

definition new_call :: "call \<Rightarrow> conn \<Rightarrow> conn \<Rightarrow> bool" where
  "new_call k c c' \<longleftrightarrow>
     cn_count c' = Suc (cn_count c) \<and> cn_call c' = (cn_call c)(cn_count c := k) \<and>
     cn_closed c' = cn_closed c \<and> cn_active c' = cn_active c \<and> cn_active_lock c' = cn_active_lock c \<and>
     cn_online c' = cn_online c \<and> (\<forall>j. j \<noteq> cn_count c \<longrightarrow> cn_attempt c' j = cn_attempt c j) \<and>
     at_worker (cn_attempt c' (cn_count c)) = WNone \<and>
     (case k of
        Online p \<Rightarrow> p = COnlineCheck \<and> attempt_ok p (cn_attempt c' (cn_count c)) \<and> \<not> cn_closed c \<and>
          cn_current c = None \<and> cn_current c' = Some (cn_count c)
      | Refused e \<Rightarrow> cn_current c' = cn_current c
      | Stop kind n p \<Rightarrow>
          cn_current c' = cn_current c \<and> n = cn_count c \<and> p = SCancel (KRequest (kind = StopClose)))"

lemma new_call_frame:
  assumes "new_call k c c'"
  shows "cn_count c' = Suc (cn_count c)" "cn_call c' (cn_count c) = k" "j < cn_count c \<Longrightarrow> cn_call c' j = cn_call c j"
    "cn_closed c' = cn_closed c" "cn_active c' = cn_active c" "cn_active_lock c' = cn_active_lock c"
    "cn_online c' = cn_online c" "j < cn_count c \<Longrightarrow> cn_attempt c' j = cn_attempt c j"
    "j < cn_count c \<Longrightarrow> over c' j = over c j"
    "online_call c' j \<longleftrightarrow> online_call c j \<or> j = cn_count c \<and> (\<exists>p. k = Online p)"
    "j < cn_count c \<Longrightarrow> cancel_ok c' j q = cancel_ok c j q" "j < cn_count c \<Longrightarrow> stop_ok c' j r = stop_ok c j r"
proof -
  show *: "cn_count c' = Suc (cn_count c)" "cn_call c' (cn_count c) = k" "j < cn_count c \<Longrightarrow> cn_call c' j = cn_call c j"
    "cn_closed c' = cn_closed c" "cn_active c' = cn_active c" "cn_active_lock c' = cn_active_lock c"
    "cn_online c' = cn_online c" "j < cn_count c \<Longrightarrow> cn_attempt c' j = cn_attempt c j" for j
    using assms by (simp_all add: new_call_def)
  show over: "j < cn_count c \<Longrightarrow> over c' j = over c j" for j by (simp add: over_def *)
  show "online_call c' j \<longleftrightarrow> online_call c j \<or> j = cn_count c \<and> (\<exists>p. k = Online p)"
    using * by (cases "j = cn_count c") (auto simp: online_call_def)
  show cancel: "j < cn_count c \<Longrightarrow> cancel_ok c' j q = cancel_ok c j q" for q by (simp add: cancel_ok_def over)
  show "j < cn_count c \<Longrightarrow> stop_ok c' j r = stop_ok c j r" by (cases r) (simp_all add: cancel over *)
qed

lemma new_call_local:
  assumes t: "new_call k c c'" and inv: "conn_inv c"
  shows "attempts_inv c'" "idle_inv c'" "timeouts_inv c'" "handler_inv c'" "active_inv c'" "exclusive_inv c'"
proof -
  note f = new_call_frame [OF t]
  note parts = inv [unfolded conn_inv_def]
  have kind: "k = Online p \<Longrightarrow> p = COnlineCheck \<and> attempt_ok p (cn_attempt c' (cn_count c))" for p
    using t by (auto simp: new_call_def)
  have below: "online_call c j \<Longrightarrow> j < cn_count c" for j by (simp add: online_call_def)
  show "attempts_inv c'"
    unfolding attempts_inv_def using parts f kind by (auto simp: attempts_inv_def less_Suc_eq)
  show "idle_inv c'"
    unfolding idle_inv_def
  proof (intro allI impI)
    fix j
    assume "\<not> online_call c' j"
    then show "at_worker (cn_attempt c' j) = WNone"
      using parts t f(10) by (cases "j = cn_count c") (auto simp: idle_inv_def new_call_def)
  qed
  show "timeouts_inv c'"
    unfolding timeouts_inv_def using parts f kind by (auto simp: timeouts_inv_def less_Suc_eq)
  show "handler_inv c'" "active_inv c'"
    unfolding handler_inv_def active_inv_def using parts f below by (auto simp: handler_inv_def active_inv_def)
  show "exclusive_inv c'"
    unfolding exclusive_inv_def using parts f kind by (auto simp: exclusive_inv_def less_Suc_eq)
qed

lemma new_call_current:
  assumes t: "new_call k c c'" and inv: "conn_inv c"
  shows "current_inv c'"
proof -
  note f = new_call_frame [OF t]
  have cur: "current_inv c" using inv by (simp add: conn_inv_def)
  show ?thesis
  proof (cases "\<exists>p. k = Online p")
    case True
    then have "k = Online COnlineCheck" "cn_current c = None" "cn_current c' = Some (cn_count c)"
      "at_worker (cn_attempt c' (cn_count c)) = WNone"
      using t by (auto simp: new_call_def)
    then show ?thesis
      using cur f unfolding current_inv_def by (auto simp: less_Suc_eq guard_dropped_def)
  next
    case False
    then have "cn_current c' = cn_current c" using t by (auto simp: new_call_def split: call.splits)
    moreover have "over c' (cn_count c)" using False f(2) by (auto simp: over_def)
    ultimately show ?thesis
      using cur f unfolding current_inv_def by (auto simp: less_Suc_eq)
  qed
qed

lemma new_call_owned:
  assumes t: "new_call k c c'" and inv: "conn_inv c"
  shows "owned_inv c'" "lock_inv c'"
proof -
  note f = new_call_frame [OF t]
  note parts = inv [unfolded conn_inv_def]
  have idle: "at_finalized (cn_attempt c' (cn_count c)) \<noteq> AckSent" if "k = Online p" for p
    using that t by (auto simp: new_call_def attempt_ok_def)
  have off: "going_offline c \<Longrightarrow> going_offline c'" "disconnecting c j \<Longrightarrow> disconnecting c' j" for j
    unfolding going_offline_def disconnecting_def using f(1,3) less_Suc_eq by metis+
  have below: "online_call c j \<Longrightarrow> j < cn_count c" for j by (simp add: online_call_def)
  show "owned_inv c'"
    unfolding owned_inv_def f(5,7,10) using parts f(8) idle off below unfolding owned_inv_def by metis
  have "\<nexists>b. k = Online CStaleOffline \<or> k = Online (CStaleDisconnect b)" using t by (auto simp: new_call_def)
  then show "lock_inv c'" using parts f unfolding lock_inv_def by (auto simp: less_Suc_eq)
qed

lemma new_call_stops:
  assumes t: "new_call k c c'" and inv: "conn_inv c"
  shows "stops_inv c'"
  unfolding stops_inv_fine
proof (intro allI impI)
  note f = new_call_frame [OF t]
  fix j kind n p
  assume j: "j < cn_count c'" "cn_call c' j = Stop kind n p"
  show "stop_fine c' j kind n p"
  proof (cases "j = cn_count c")
    case True
    then have "n = cn_count c" "p = SCancel (KRequest (kind = StopClose))" using t f(2) j by (auto simp: new_call_def)
    then show ?thesis using True f(1) by (simp add: stop_fine_def cancel_ok_def)
  next
    case False
    then have fine: "stop_fine c j kind n p" using j f(1,3) inv by (simp add: stop_fine_at)
    have "\<not> cn_closed c" if "k = Online q" for q using t that by (simp add: new_call_def)
    moreover have "\<not> online_call c (cn_count c)" by (simp add: online_call_def)
    ultimately show ?thesis
      using fine f(1,4,10,12) unfolding stop_fine_def by (auto simp: less_Suc_eq)
  qed
qed

lemma new_call_inv:
  assumes "new_call k c c'" "conn_inv c"
  shows "conn_inv c'"
  using new_call_local [OF assms] new_call_current [OF assms] new_call_owned [OF assms] new_call_stops [OF assms]
  by (simp add: conn_inv_def)

lemma add_call_inv:
  assumes inv: "conn_inv c" and k: "k = Refused e \<or> k = Stop kind (cn_count c) (SCancel (KRequest (kind = StopClose)))"
  shows "conn_inv (add_call k c)"
proof (rule new_call_inv [OF _ inv])
  have "\<not> online_call c (cn_count c)" by (simp add: online_call_def)
  then have "at_worker (cn_attempt c (cn_count c)) = WNone" using inv by (simp add: conn_inv_def idle_inv_def)
  then show "new_call k c (add_call k c)" using k by (auto simp: new_call_def add_call_def)
qed

lemma online_mode_start_inv:
  assumes inv: "conn_inv c"
  shows "conn_inv (online_mode daemon_address options c)"
proof -
  have "new_call (Online COnlineCheck) c (add_call (Online COnlineCheck) d)"
    if "acquire_attempt daemon_address (reconnect_policy options) c = Ok d" for d
    using that
    by (auto simp: acquire_attempt_def new_call_def add_call_def new_attempt_def attempt_ok_def split: if_splits)
  then show ?thesis
    using new_call_inv [OF _ inv] add_call_inv [OF inv]
    by (auto simp: online_mode_def split: sum.splits)
qed

section \<open>Every reachable state\<close>

lemma no_connection_inv: "conn_inv no_connection"
  by (simp add: no_connection_def conn_inv_def idle_inv_def attempts_inv_def current_inv_def handler_inv_def
      exclusive_inv_def active_inv_def owned_inv_def lock_inv_def stops_inv_def timeouts_inv_def new_attempt_def)

lemma conn_start_inv: "conn_start c c' \<Longrightarrow> conn_inv c \<Longrightarrow> conn_inv c'"
  by (induction rule: conn_start.induct)
    (auto simp: stop_wallet_def intro: online_mode_start_inv add_call_inv tweak_inv [OF drop_wallet_tweak] set_offline_inv)

lemma conn_work_inv: "conn_work D c c' \<Longrightarrow> conn_inv c \<Longrightarrow> conn_inv c'"
  by (induction rule: conn_work.induct)
    (auto simp: call_step_def intro: worker_inv online_mode_inv stop_step_inv timeout_inv split: call.splits)

lemma conn_inv_steps: "(conn_step D)\<^sup>*\<^sup>* no_connection c \<Longrightarrow> conn_inv c"
  by (induction rule: rtranclp_induct) (auto simp: conn_step_def no_connection_inv intro: conn_start_inv conn_work_inv)

section \<open>Work that is left\<close>

fun worker_left :: "worker \<Rightarrow> nat" where
  "worker_left WConnect = 17"
| "worker_left WConnected = 16"
| "worker_left WInfo = 15"
| "worker_left WActivate = 14"
| "worker_left WInstall = 13"
| "worker_left WInstalled = 12"
| "worker_left WUndo = 11"
| "worker_left WUndoOffline = 10"
| "worker_left WSendOk = 9"
| "worker_left WAcks = 8"
| "worker_left WFinal = 7"
| "worker_left WRollback = 6"
| "worker_left WRollbackOffline = 5"
| "worker_left (WComplete e) = 4"
| "worker_left (WClear e) = 3"
| "worker_left (WSend e) = 2"
| "worker_left _ = 0"

fun cancel_left :: "canceller \<Rightarrow> nat" where
  "cancel_left (KRequest t) = 5"
| "cancel_left (KCancel a) = 4"
| "cancel_left (KDisconnect a) = 3"
| "cancel_left (KBarrier a) = 2"
| "cancel_left (KWait a) = 1"
| "cancel_left KDone = 0"

fun caller_left :: "caller \<Rightarrow> nat" where
  "caller_left COnlineCheck = 40"
| "caller_left CStale = 39"
| "caller_left (CStaleDisconnect b) = 38"
| "caller_left CStaleOffline = 37"
| "caller_left CSpawn = 36"
| "caller_left CWait = 12"
| "caller_left CAccepted = 11"
| "caller_left CLock = 10"
| "caller_left CJoin = 9"
| "caller_left CJoinOk = 9"
| "caller_left (CCancel k) = 1 + cancel_left k"
| "caller_left (CComplete e) = 2"
| "caller_left (CClear e) = 1"
| "caller_left (CReturned r) = 0"

fun call_left :: "call \<Rightarrow> nat" where
  "call_left (Refused e) = 0"
| "call_left (Online p) = caller_left p"
| "call_left (Stop kind n p) =
     (case p of SCancel k \<Rightarrow> 4 + cancel_left k | STake \<Rightarrow> 3 | SDisconnect b \<Rightarrow> 2 | SOffline \<Rightarrow> 1 | SReturned r \<Rightarrow> 0)"

text \<open>A bound on the steps the calls and workers of a state can still make.\<close>

definition work_left :: "conn \<Rightarrow> nat" where
  "work_left c = (\<Sum>i < cn_count c. worker_left (at_worker (cn_attempt c i)) + call_left (cn_call c i))"

lemma less_left:
  assumes "i < cn_count c" "cn_count c' = cn_count c"
    and "\<And>j. j \<noteq> i \<Longrightarrow> at_worker (cn_attempt c' j) = at_worker (cn_attempt c j) \<and> cn_call c' j = cn_call c j"
    and "worker_left (at_worker (cn_attempt c' i)) + call_left (cn_call c' i) <
      worker_left (at_worker (cn_attempt c i)) + call_left (cn_call c i)"
  shows "work_left c' < work_left c"
  unfolding work_left_def assms(2)
proof (rule sum_strict_mono_ex1)
  show "\<forall>j\<in>{..<cn_count c}. worker_left (at_worker (cn_attempt c' j)) + call_left (cn_call c' j) \<le>
      worker_left (at_worker (cn_attempt c j)) + call_left (cn_call c j)"
    using assms(3,4) by (metis le_refl less_imp_le)
qed (use assms in auto)

lemma cancel_step_left: "cancel_connection_attempt k c = Some (k', c') \<Longrightarrow> cancel_left k' < cancel_left k"
  by (cases k) (auto split: option.splits if_splits)

lemma worker_step_left:
  assumes inv: "conn_inv c" and a: "a < cn_count c" and step: "worker_step D ans a c = Some c'"
  shows "work_left c' < work_left c"
proof (rule less_left [OF a])
  note e = worker_effects [OF step, unfolded worker_effect_def]
  show "cn_count c' = cn_count c" using e by simp
  show "at_worker (cn_attempt c' j) = at_worker (cn_attempt c j) \<and> cn_call c' j = cn_call c j" if "j \<noteq> a" for j
    using e that by simp
  have "at_worker (cn_attempt c a) \<noteq> WNone" using step by (auto simp: worker_step_def)
  then obtain p where "cn_call c a = Online p"
    using inv by (auto simp: conn_inv_def idle_inv_def online_call_def)
  then have "attempt_ok p (cn_attempt c a)" by (rule conn_inv_attempt [OF inv a])
  then have "worker_move (cn_attempt c a) (cn_attempt c' a)"
    by (intro worker_moves [OF step]) (simp add: attempt_ok_def)
  then have "next_worker (cn_attempt c a) (at_worker (cn_attempt c a)) (at_worker (cn_attempt c' a))"
    by (simp add: worker_move_def)
  then have "worker_left (at_worker (cn_attempt c' a)) < worker_left (at_worker (cn_attempt c a))"
    by (cases rule: next_worker.cases) simp_all
  then show "worker_left (at_worker (cn_attempt c' a)) + call_left (cn_call c' a) <
      worker_left (at_worker (cn_attempt c a)) + call_left (cn_call c a)"
    using e by simp
qed

lemma cancel_step_worker: "cancel_connection_attempt k c = Some (k', c') \<Longrightarrow> at_worker (cn_attempt c' j) = at_worker (cn_attempt c j)"
  using cancel_step_tweak tweak_frame(7) by blast

lemma cancel_step_call: "cancel_connection_attempt k c = Some (k', c') \<Longrightarrow> cn_call c' = cn_call c \<and> cn_count c' = cn_count c"
  using cancel_step_tweak tweak_frame(1,2) by blast

text \<open>What a step of a call leaves, and what it can change of calls and workers.\<close>

lemma online_step_left:
  assumes "online_mode_step D ans i p c = Some c'" "cn_call c i = Online p"
  shows "cn_count c' = cn_count c \<and>
    (\<forall>j. j \<noteq> i \<longrightarrow> at_worker (cn_attempt c' j) = at_worker (cn_attempt c j) \<and> cn_call c' j = cn_call c j) \<and>
    worker_left (at_worker (cn_attempt c' i)) + call_left (cn_call c' i) <
      worker_left (at_worker (cn_attempt c i)) + caller_left p"
proof (cases p)
  case (CCancel k)
  then show ?thesis
    using assms
    by (auto simp: online_mode_step_def timeout_cancel_def put_caller_def cancel_step_worker cancel_step_call
        dest: cancel_step_left split: if_splits)
qed (use assms in \<open>auto simp: online_mode_step_def online_check_def take_stale_def stale_offline_def spawn_worker_def
    receive_result_def accepted_check_def drop_finalized_def publish_connection_def join_worker_def stop_api_def
    attempt_complete_def put_simps Let_def split: if_splits option.splits sum.splits\<close>)

lemma stop_step_left:
  assumes "stop_step D ans i kind n p c = Some c'" "cn_call c i = Stop kind n p"
  shows "cn_count c' = cn_count c \<and>
    (\<forall>j. at_worker (cn_attempt c' j) = at_worker (cn_attempt c j)) \<and> (\<forall>j. j \<noteq> i \<longrightarrow> cn_call c' j = cn_call c j) \<and>
    call_left (cn_call c' i) < call_left (Stop kind n p)"
proof (cases p)
  case (SCancel k)
  then show ?thesis
    using assms
    by (auto simp: stop_step_def stop_cancel_def put_stop_def cancel_step_worker cancel_step_call
        dest: cancel_step_left split: if_splits)
qed (use assms in \<open>auto simp: stop_step_def take_active_def stop_offline_def stop_api_def put_stop_def
    split: if_splits option.splits\<close>)

lemma conn_work_left:
  assumes "conn_work D c c'" "conn_inv c"
  shows "work_left c' < work_left c"
  using assms
proof (induction rule: conn_work.induct)
  case (work_worker a c ans c')
  then show ?case by (blast intro: worker_step_left)
next
  case (work_call i c ans c')
  show ?case
  proof (rule less_left [OF work_call(1)])
    show "cn_count c' = cn_count c"
      using work_call(2) online_step_left [of D ans i _ c c'] stop_step_left [of D ans i _ _ _ c c']
      by (auto simp: call_step_def split: call.splits)
    show "at_worker (cn_attempt c' j) = at_worker (cn_attempt c j) \<and> cn_call c' j = cn_call c j" if "j \<noteq> i" for j
      using that work_call(2) online_step_left [of D ans i _ c c'] stop_step_left [of D ans i _ _ _ c c']
      by (auto simp: call_step_def split: call.splits)
    show "worker_left (at_worker (cn_attempt c' i)) + call_left (cn_call c' i) <
        worker_left (at_worker (cn_attempt c i)) + call_left (cn_call c i)"
      using work_call(2) online_step_left [of D ans i _ c c'] stop_step_left [of D ans i _ _ _ c c']
      by (auto simp: call_step_def split: call.splits)
  qed
next
  case (work_timeout i c)
  then show ?case
    by (intro less_left [of i]) (simp_all add: complete_connection_timeout_def put_caller_def)
qed

section \<open>A state without a next step\<close>

definition stuck :: "daemon_host \<Rightarrow> conn \<Rightarrow> bool" where
  "stuck D c \<longleftrightarrow> (\<forall>c'. \<not> conn_work D c c')"

lemma stuck_steps:
  assumes "stuck D c" "i < cn_count c"
  shows "worker_step D ans i c = None" "call_step D ans i c = None"
  using assms by (auto simp: stuck_def intro: conn_work.intros option.exhaust)

lemma stuck_unlocked:
  assumes inv: "conn_inv c" and stuck: "stuck D c"
  shows "\<not> cn_active_lock c"
proof
  assume "cn_active_lock c"
  then obtain i where "i < cn_count c" "cn_call c i = Online CStaleOffline \<or> (\<exists>b. cn_call c i = Online (CStaleDisconnect b))"
    using inv by (auto simp: conn_inv_def lock_inv_def)
  then show False using stuck_steps(2) [OF stuck, of i] by (auto simp: call_step_def online_mode_step_def)
qed

lemma stuck_worker:
  assumes "worker_step D ans a c = None"
  shows "at_worker (cn_attempt c a) \<in> {WNone, WDone} \<or>
    at_worker (cn_attempt c a) = WAcks \<and>
      await_connection_acknowledgements (at_accepted (cn_attempt c a)) (at_finalized (cn_attempt c a)) = None"
  using assms by (cases "at_worker (cn_attempt c a)") (auto simp: worker_step_def worker_acks_def Let_def split: option.splits bool.splits)

lemma stuck_online:
  assumes inv: "conn_inv c" and stuck: "stuck D c" and i: "i < cn_count c" "cn_call c i = Online p"
  shows "((\<exists>r. p = CReturned r) \<or> (\<exists>k. p = CCancel k)) \<and> at_completed (cn_attempt c i) \<and> \<not> at_activation (cn_attempt c i)"
proof -
  let ?x = "cn_attempt c i"
  have ok: "phase_ok p ?x" "at_activation ?x \<longleftrightarrow> in_activation (at_worker ?x)"
    using conn_inv_attempt [OF inv i] by (simp_all add: attempt_ok_def)
  have step: "online_mode_step D ans i p c = None" for ans
    using stuck_steps(2) [OF stuck i(1), of ans] i(2) by (simp add: call_step_def)
  note worker = stuck_worker [OF stuck_steps(1) [OF stuck i(1)]]
  note lock = stuck_unlocked [OF inv stuck]
  have "((\<exists>r. p = CReturned r) \<or> (\<exists>k. p = CCancel k)) \<and> at_completed ?x \<and> at_worker ?x \<in> {WNone, WDone}"
    using step ok(1) worker lock
    by (cases p) (auto simp: online_mode_step_def take_stale_def receive_result_def publish_connection_def join_worker_def
        Let_def split: option.splits sum.splits if_splits)
  then show ?thesis using ok(2) by auto
qed

lemma stuck_cancel:
  assumes inv: "conn_inv c" and stuck: "stuck D c" and none: "cancel_connection_attempt k c = None"
    and on: "\<And>b. target k = Some b \<Longrightarrow> online_call c b"
  shows "k = KDone"
proof -
  have "at_completed (cn_attempt c b) \<and> \<not> at_activation (cn_attempt c b)" if "online_call c b" for b
    using that stuck_online [OF inv stuck] by (auto simp: online_call_def)
  then show ?thesis using none on by (cases k) (auto split: option.splits if_splits)
qed

lemma stuck_returned:
  assumes inv: "conn_inv c" and stuck: "stuck D c" and i: "i < cn_count c"
  shows "call_returned (cn_call c i)"
proof (cases "cn_call c i")
  case (Online p)
  have "p \<noteq> CCancel k" for k
  proof
    assume p: "p = CCancel k"
    then have "timeout_cancel i k c = None"
      using stuck_steps(2) [OF stuck i] Online by (simp add: call_step_def online_mode_step_def)
    moreover have "online_call c b" if "target k = Some b" for b
      using that inv i Online p by (auto simp: conn_inv_def timeouts_inv_def)
    ultimately show False using stuck_cancel [OF inv stuck] by (auto simp: timeout_cancel_def split: if_splits)
  qed
  then show ?thesis using stuck_online [OF inv stuck i Online] Online by auto
next
  case (Stop kind n p)
  have step: "stop_step D ans i kind n p c = None" for ans
    using stuck_steps(2) [OF stuck i, of ans] Stop by (simp add: call_step_def)
  have "p \<noteq> SCancel k" for k
  proof
    assume p: "p = SCancel k"
    then have "stop_cancel i kind n k c = None" using step by (simp add: stop_step_def)
    moreover have "online_call c b" if "target k = Some b" for b
      using that stop_fine_at [OF inv i Stop] p by (simp add: stop_fine_def)
    ultimately show False using stuck_cancel [OF inv stuck] by (auto simp: stop_cancel_def split: if_splits)
  qed
  then show ?thesis
    using step stuck_unlocked [OF inv stuck] Stop by (cases p) (auto simp: stop_step_def take_active_def)
qed simp

lemma work_bounded:
  assumes "(conn_work D ^^ m) c c'" "conn_inv c"
  shows "conn_inv c' \<and> m + work_left c' \<le> work_left c"
  using assms(1)
proof (induction m arbitrary: c')
  case 0
  then show ?case using assms(2) by simp
next
  case (Suc m)
  then obtain d where d: "(conn_work D ^^ m) c d" "conn_work D d c'" by auto
  then have "conn_inv d" "m + work_left d \<le> work_left c" using Suc.IH by simp_all
  then show ?case using conn_work_inv [OF d(2)] conn_work_left [OF d(2)] by simp
qed

section \<open>Ownership\<close>

lemma attempt_handler:
  assumes inv: "conn_inv c" and a: "cn_online c = Some a"
  shows "online_call c a \<and> (\<not> at_completed (cn_attempt c a) \<or> cn_active c = Some a \<or> going_offline c)"
proof -
  have h: "online_call c a" "has_handler (at_worker (cn_attempt c a)) \<or>
      worker_kept (at_worker (cn_attempt c a)) \<and> at_finalized (cn_attempt c a) = AckSent"
    using inv a by (auto simp: conn_inv_def handler_inv_def)
  obtain p where "a < cn_count c" "cn_call c a = Online p" using h(1) by (auto simp: online_call_def)
  then have phase: "phase_ok p (cn_attempt c a)" using conn_inv_attempt [OF inv] by (auto simp: attempt_ok_def)
  have "\<not> at_completed (cn_attempt c a)" if "has_handler (at_worker (cn_attempt c a))"
    using that by (intro phase_not_over [OF phase]) auto
  moreover have "cn_active c = Some a \<or> going_offline c" if "at_finalized (cn_attempt c a) = AckSent"
    using that inv a h(1) by (auto simp: conn_inv_def owned_inv_def)
  ultimately show ?thesis using h by blast
qed

lemma attempt_socket:
  assumes inv: "conn_inv c" and a: "online_call c a" "at_open (cn_attempt c a)"
  shows "\<not> at_completed (cn_attempt c a) \<or> cn_active c = Some a \<or> disconnecting c a"
proof -
  obtain p where "a < cn_count c" "cn_call c a = Online p" using a(1) by (auto simp: online_call_def)
  then have ok: "attempt_ok p (cn_attempt c a)" using conn_inv_attempt [OF inv] by auto
  then have phase: "phase_ok p (cn_attempt c a)" by (simp add: attempt_ok_def)
  have "\<not> at_completed (cn_attempt c a)" if "may_be_open (at_worker (cn_attempt c a))"
    using that by (intro phase_not_over [OF phase]) auto
  moreover have "cn_active c = Some a \<or> disconnecting c a" if "at_finalized (cn_attempt c a) = AckSent"
    using that inv a by (auto simp: conn_inv_def owned_inv_def)
  ultimately show ?thesis using ok a(2) unfolding attempt_ok_def by blast
qed

lemma returned_completed:
  assumes inv: "conn_inv c" and a: "online_call c a" "call_returned (cn_call c a)"
  shows "at_completed (cn_attempt c a)"
proof -
  obtain r where "a < cn_count c" "cn_call c a = Online (CReturned r)"
    using a by (auto simp: online_call_def split: caller.splits)
  then have "phase_ok (CReturned r) (cn_attempt c a)" by (rule online_phase [OF inv])
  then show ?thesis by simp
qed

lemma returned_owned:
  assumes inv: "conn_inv c" and ret: "\<And>i. i < cn_count c \<Longrightarrow> call_returned (cn_call c i)"
    and a: "cn_online c = Some a \<or> online_call c a \<and> at_open (cn_attempt c a)"
  shows "cn_active c = Some a"
proof -
  have on: "online_call c a" using a attempt_handler [OF inv] by blast
  then have "at_completed (cn_attempt c a)" using returned_completed [OF inv on] ret by (simp add: online_call_def)
  moreover have "\<not> going_offline c" using ret by (fastforce simp: going_offline_def)
  moreover have "\<not> disconnecting c a" using ret by (fastforce simp: disconnecting_def)
  ultimately show ?thesis using a attempt_handler [OF inv] attempt_socket [OF inv on] by blast
qed

section \<open>Runs\<close>

text \<open>A run is a list of actions; one that the code allows reaches a reachable state.\<close>

datatype action =
  BeginOnline string native_wallet_connection_options
| BeginStop stop_kind
| StepWorker upstream_answers nat
| StepCall upstream_answers nat
| Elapse nat

fun act :: "daemon_host \<Rightarrow> action \<Rightarrow> conn \<Rightarrow> conn option" where
  "act D (BeginOnline daemon_address options) c = Some (online_mode daemon_address options c)"
| "act D (BeginStop kind) c = Some (stop_wallet kind c)"
| "act D (StepWorker ans a) c = (if a < cn_count c then worker_step D ans a c else None)"
| "act D (StepCall ans i) c = (if i < cn_count c then call_step D ans i c else None)"
| "act D (Elapse i) c =
     (if i < cn_count c then case cn_call c i of
        Online CWait \<Rightarrow> Some (complete_connection_timeout i c)
      | _ \<Rightarrow> None else None)"

fun acts :: "daemon_host \<Rightarrow> action list \<Rightarrow> conn \<Rightarrow> conn option" where
  "acts D [] c = Some c"
| "acts D (x # xs) c = Option.bind (act D x c) (acts D xs)"

lemma act_step: "act D x c = Some c' \<Longrightarrow> conn_step D c c'"
  by (cases x)
    (auto simp: conn_step_def split: if_splits call.splits caller.splits intro: conn_start.intros conn_work.intros)

lemma acts_steps: "acts D xs c = Some c' \<Longrightarrow> (conn_step D)\<^sup>*\<^sup>* c c'"
  by (induction xs arbitrary: c)
    (auto simp: bind_eq_Some_conv intro: act_step converse_rtranclp_into_rtranclp)

definition demo_daemon :: daemon_host where
  "demo_daemon =
     \<lparr> sanitize_ws_address = id,
       parse_url = (\<lambda>_. Some \<lparr> url_scheme = ''wss'', url_has_host = True, url_username = [], url_password = None,
         url_path = [], url_query = None, url_fragment = None \<rparr>),
       dh_text = \<lparr> wallet_kind = (\<lambda>_. []), wallet_text = (\<lambda>_. []), rpc_kind = (\<lambda>_. []), rpc_text = (\<lambda>_. []),
         anyhow_text = (\<lambda>_. []) \<rparr>,
       dh_network = Mainnet \<rparr>"

definition demo_answers :: upstream_answers where
  "demo_answers = \<lparr> ans_connect = Ok (), ans_info = Ok Mainnet, ans_online = Ok (), ans_offline = Ok () \<rparr>"

definition demo_options :: native_wallet_connection_options where
  "demo_options = \<lparr> timeout_millis = 1, reconnect_policy = ApplicationManaged \<rparr>"

text \<open>A wallet goes online and its call returns.\<close>

definition demo_connect :: "action list" where
  "demo_connect =
     BeginOnline ''node'' demo_options # replicate 3 (StepCall demo_answers 0) @ replicate 7 (StepWorker demo_answers 0) @
     replicate 3 (StepCall demo_answers 0) @ replicate 4 (StepWorker demo_answers 0) @ [StepCall demo_answers 0]"

text \<open>Then it is taken offline.\<close>

definition demo_disconnect :: "action list" where
  "demo_disconnect = BeginStop StopOffline # replicate 5 (StepCall demo_answers 1)"

text \<open>
  The connection of a first call fails while its timeout elapses; a second call begins before the first
  one cancels the current attempt.
\<close>

definition demo_race :: "action list" where
  "demo_race =
     BeginOnline ''node'' demo_options # replicate 3 (StepCall demo_answers 0) @
     [StepWorker (demo_answers\<lparr> ans_connect := Err (AnyOther ''refused'') \<rparr>) 0, Elapse 0,
      StepWorker demo_answers 0, StepWorker demo_answers 0, BeginOnline ''other'' demo_options,
      StepCall demo_answers 0, StepCall demo_answers 0]"

lemmas action_simps =
  demo_daemon_def demo_answers_def demo_options_def numeral_eq_Suc no_connection_def online_mode_def stop_wallet_def
  acquire_attempt_def add_call_def new_attempt_def call_step_def online_mode_step_def stop_step_def worker_step_def
  online_check_def take_stale_def spawn_worker_def receive_result_def accepted_check_def publish_connection_def
  join_worker_def timeout_cancel_def complete_connection_timeout_def stop_cancel_def take_active_def stop_offline_def
  daemon_rpc_endpoint_def is_origin_def ensure_daemon_network_def worker_simps Let_def put_attempt_def put_call_def
  set_offline_def clear_current_def

lemma demo_connected:
  "\<exists>c. acts demo_daemon demo_connect no_connection = Some c \<and> cn_count c = 1 \<and> cn_call c 0 = Online (CReturned (Ok ())) \<and>
     cn_online c = Some 0 \<and> at_open (cn_attempt c 0)"
  by (simp add: demo_connect_def action_simps)

lemma demo_disconnected:
  "\<exists>c. acts demo_daemon (demo_connect @ demo_disconnect) no_connection = Some c \<and> cn_count c = 2 \<and>
     cn_call c 0 = Online (CReturned (Ok ())) \<and> (\<exists>n. cn_call c 1 = Stop StopOffline n (SReturned (Ok ())))"
  by (simp add: demo_connect_def demo_disconnect_def action_simps)

lemma demo_raced:
  "\<exists>c. acts demo_daemon demo_race no_connection = Some c \<and> cn_count c = 2 \<and>
     cn_call c 0 = Online (CCancel (KDisconnect 1)) \<and> cn_call c 1 = Online COnlineCheck \<and> at_cancelled (cn_attempt c 1)"
  by (simp add: demo_race_def action_simps)

section \<open>Properties\<close>

text \<open>
  C38: at most one connection attempt is not complete, and nothing is left connected without an owner.  However
  calls, workers, timeouts, failures and the drop of the wallet interleave, the network handler belongs to
  an attempt that is not complete yet, to the active connection, or to a stop that is about to go offline;
  an open socket belongs to an attempt that is not complete, to the active connection or to a call that is
  about to close it.  Once every call has returned, what is connected is the active connection.
\<close>

theorem connection_always_owned:
  assumes "(conn_step D)\<^sup>*\<^sup>* no_connection c"
  shows "(\<forall>i j. online_call c i \<longrightarrow> online_call c j \<longrightarrow>
      \<not> at_completed (cn_attempt c i) \<longrightarrow> \<not> at_completed (cn_attempt c j) \<longrightarrow> i = j) \<and>
    (\<forall>a. cn_online c = Some a \<longrightarrow>
      online_call c a \<and> (\<not> at_completed (cn_attempt c a) \<or> cn_active c = Some a \<or> going_offline c)) \<and>
    (\<forall>a. online_call c a \<longrightarrow> at_open (cn_attempt c a) \<longrightarrow>
      \<not> at_completed (cn_attempt c a) \<or> cn_active c = Some a \<or> disconnecting c a) \<and>
    ((\<forall>i < cn_count c. call_returned (cn_call c i)) \<longrightarrow>
      (\<forall>a. cn_online c = Some a \<or> online_call c a \<and> at_open (cn_attempt c a) \<longrightarrow> cn_active c = Some a))"
proof -
  have inv: "conn_inv c" by (rule conn_inv_steps [OF assms])
  have "i = j" if "online_call c i" "online_call c j" "\<not> at_completed (cn_attempt c i)" "\<not> at_completed (cn_attempt c j)" for i j
    using one_attempt [OF inv] that by (auto simp: online_call_def over_def)
  then show ?thesis using attempt_handler [OF inv] attempt_socket [OF inv] returned_owned [OF inv] by blast
qed

theorem connection_always_owned_witness:
  "\<exists>c. acts demo_daemon demo_connect no_connection = Some c \<and> cn_online c = Some 0 \<and> cn_active c = Some 0"
proof -
  obtain c where c: "acts demo_daemon demo_connect no_connection = Some c" "cn_count c = 1"
    "cn_call c 0 = Online (CReturned (Ok ()))" "cn_online c = Some 0"
    using demo_connected by auto
  then have "\<forall>i < cn_count c. call_returned (cn_call c i)" by simp
  then show ?thesis using c connection_always_owned [OF acts_steps [OF c(1)]] by blast
qed

text \<open>
  C39: a stop is a barrier.  From the moment a call of \<open>offline_mode\<close> or \<open>close\<close> has returned, every
  connection attempt that began before it is complete and is not the active connection, its handler is
  not installed, and its socket is closed or another call is about to close it.  After \<open>close\<close> the wallet is closed, no
  attempt of any call is in progress, and there is neither a handler nor an active connection, for good.
\<close>

theorem stop_is_barrier:
  assumes "(conn_step D)\<^sup>*\<^sup>* no_connection c" and "i < cn_count c" "cn_call c i = Stop kind n (SReturned r)"
  shows "(\<forall>a < i. online_call c a \<longrightarrow> at_completed (cn_attempt c a) \<and> cn_active c \<noteq> Some a \<and> cn_online c \<noteq> Some a \<and>
      (at_open (cn_attempt c a) \<longrightarrow> disconnecting c a)) \<and>
    (kind = StopClose \<longrightarrow> cn_closed c \<and> cn_online c = None \<and> cn_active c = None \<and>
      (\<forall>a. online_call c a \<longrightarrow> at_completed (cn_attempt c a)))"
proof -
  have inv: "conn_inv c" by (rule conn_inv_steps [OF assms(1)])
  have fine: "stop_fine c i kind n (SReturned r)" by (rule stop_fine_at [OF inv assms(2,3)])
  have before: "at_completed (cn_attempt c a) \<and> cn_active c \<noteq> Some a \<and> cn_online c \<noteq> Some a" if "a < n" "online_call c a" for a
    using fine that by (auto simp: stop_fine_def over_def online_call_def)
  have "cn_closed c \<and> (\<forall>a. online_call c a \<longrightarrow> a < n)" if "kind = StopClose"
    using fine that by (auto simp: stop_fine_def) (meson leI online_call_def)
  moreover have "cn_online c = Some a \<Longrightarrow> online_call c a" "cn_active c = Some a \<Longrightarrow> online_call c a" for a
    using inv by (auto simp: conn_inv_def handler_inv_def active_inv_def)
  moreover have "i \<le> n" using fine by (simp add: stop_fine_def)
  ultimately show ?thesis
    using before attempt_socket [OF inv] by (metis less_le_trans not_Some_eq)
qed

theorem stop_is_barrier_witness:
  "\<exists>c. acts demo_daemon (demo_connect @ demo_disconnect) no_connection = Some c \<and>
     cn_call c 0 = Online (CReturned (Ok ())) \<and> at_completed (cn_attempt c 0) \<and> cn_online c \<noteq> Some 0"
proof -
  obtain c n where c: "acts demo_daemon (demo_connect @ demo_disconnect) no_connection = Some c" "cn_count c = 2"
    "cn_call c 0 = Online (CReturned (Ok ()))" "cn_call c 1 = Stop StopOffline n (SReturned (Ok ()))"
    using demo_disconnected by auto
  then show ?thesis
    using stop_is_barrier [OF acts_steps [OF c(1)] _ c(4)] by (auto simp: online_call_def)
qed

text \<open>
  C40: every call returns.  Given the answers of the daemon and of the upstream wallet, which each step takes as
  an argument, the calls and workers of a state cannot go on for ever: there are at most as many steps as
  there is work left, in whatever order they are taken and whether or not timeouts elapse.  And they do
  not block each other: as long as a call has not returned, some call or worker can go on.
\<close>

theorem calls_return:
  assumes "(conn_step D)\<^sup>*\<^sup>* no_connection c" and "(conn_work D ^^ m) c c'"
  shows "m \<le> work_left c \<and>
    ((\<exists>c''. conn_work D c' c'') \<or> (\<forall>i < cn_count c'. call_returned (cn_call c' i)))"
proof -
  have "conn_inv c' \<and> m + work_left c' \<le> work_left c" by (rule work_bounded [OF assms(2) conn_inv_steps [OF assms(1)]])
  then show ?thesis using stuck_returned [of c' D] by (auto simp: stuck_def)
qed

theorem calls_return_witness:
  "\<exists>c. acts demo_daemon demo_race no_connection = Some c \<and> \<not> call_returned (cn_call c 1) \<and>
     (\<exists>c'. conn_work demo_daemon c c')"
proof -
  obtain c where c: "acts demo_daemon demo_race no_connection = Some c" "cn_count c = 2" "cn_call c 1 = Online COnlineCheck"
    using demo_raced by auto
  moreover have "(conn_work demo_daemon ^^ 0) c c" by simp
  note calls_return [OF acts_steps [OF c(1)] this]
  moreover have "\<not> call_returned (cn_call c 1)" using c(3) by simp
  ultimately show ?thesis by (auto simp: less_2_cases_iff)
qed

text \<open>
  The timeout of a call cancels the attempt that is current at that moment, not its own.  When its own
  attempt has just failed and another call has begun, that call is cancelled.
\<close>

theorem timeout_cancels_other_call:
  "\<exists>c. (conn_step demo_daemon)\<^sup>*\<^sup>* no_connection c \<and> cn_count c = 2 \<and> cn_call c 0 = Online (CCancel (KDisconnect 1)) \<and>
     cn_call c 1 = Online COnlineCheck \<and> at_cancelled (cn_attempt c 1)"
  using demo_raced acts_steps by blast

end
