(* ===== verification/Spec2Isabelle.thy ===== *)
theory Spec2Isabelle
  imports Error_Classification Prepared_Guards Address Transactions Multisig_Wallet Xswd_Guarantees Xswd_Wallet
    Address_Book_Guarantees Event_Streams History Table_Cache Connection_Guarantees
begin

text \<open>
  A verification library for the native runtime of the XELIS wallet for Flutter, the Rust crate under
  src/rust.  Paths below are relative to src/rust/src/api.

  The program.  A Flutter application drives a wallet through generated bindings.  The crate wraps the
  upstream XELIS wallet (storage, keys, transaction building, network handler, XSWD server) and adds what
  the upstream library does not have: one slot for a transaction that was prepared and reviewed and is
  then broadcast, multisig requests that travel between wallets as text, a bounded dispatcher between
  XSWD applications and the user, an address book with migration, pull-driven event streams, history
  paging and export, a shared cache of precomputed tables, and a supervised connection to a daemon.
  Every error reaches the application as one structured record.

  \<^bold>\<open>Groups of theories\<close>

  \<^item> Rust_Prelude and Rust_Text: the integer types at their width with the checked operations, results as
    a sum type (\<open>Ok\<close> and \<open>Err\<close>) with \<open>?\<close> as \<open>and_then\<close>, and text as UTF-8 bytes.
    Capability: the interfaces \<open>generation_source\<close> and \<open>capability_slot\<close>, which are interpreted on the
    prepared slot, the pending multisig slot and both event streams.

  \<^item> Native_Error and Error_Classification (error.rs): the record, the upstream errors it is made from and
    every boundary constructor.  The classification keeps typed causes at every boundary.

  \<^item> Prepared_Store and Prepared_Guards (wallet/transactions/prepared.rs): the slot is a record with a
    counter, a state and the preparation in progress; each guard is a value whose drop is an operation.
    The callers form a step relation.  A capability reads, cancels or submits exactly the transaction it
    was issued for, at most once; guards are never left inconsistent and exclude each other.

  \<^item> Data_Element and Address (models/address_dtos.rs, utils.rs): data elements, their tagged wire with its
    limits, and integrated addresses with their round trips.

  \<^item> Builders and Transactions (wallet/transactions/builders.rs, wallet/transactions.rs,
    wallet/transactions/submission.rs): fee policies, transfers, and every way a transaction is prepared,
    cancelled and broadcast on the slot.  Broadcasting refines a one-step contract; what is stored is what
    the review shows; a failed preparation gives the slot back.

  \<^item> Multisig_Protocol, Pending_Multisig and Multisig_Wallet (wallet/multisig.rs,
    wallet/multisig/protocol.rs): requests and signature shares as text, their verification, the slot for
    the one pending request, and the wallet operations from setup to finalization.

  \<^item> Xswd_Payload, Xswd_Registry, Xswd_Dispatcher, Xswd_Guarantees and Xswd_Wallet (models/xswd_dtos.rs,
    xswd/impl.rs, xswd/impl/registry.rs, xswd/impl/dispatcher.rs): the bounded projection of a JSON
    payload, session references, the dispatcher as a function of one turn of its loop, and the wallet
    operations.  Each request is answered once, the queue is bounded, a ready callback is not starved, a
    grant follows an acceptance, and what was revoked stays revoked.

  \<^item> Address_Book, Address_Book_Laws and Address_Book_Guarantees (address_book_v2.rs,
    models/address_book_v2.rs): the entry codec, the migration of legacy contacts, the operations and the
    matching of destinations.  On a migrated book the operations are those of a finite map.

  \<^item> Assets (wallet/assets.rs): balances, tracked assets, and the lookup of asset data whose interleaved
    callers share one lock.  History (wallet/history.rs): filters, pages, the filter by an integrated
    address, and the export, which never leaves a half-written file.

  \<^item> Business_Events and Event_Streams (wallet/business_events.rs, wallet/runtime_events.rs): what an
    upstream event becomes on each stream and how much of its extra data is disclosed, and the cursor of a
    subscription.  Both files have the same cursor code; it is modelled once and instantiated twice.

  \<^item> Table_Cache (precomputed_tables.rs, wallet/runtime/table_cache.rs): the table types and the cache that
    all wallets share, with reference counts as the list of owners.

  \<^item> Connection, Connection_Invariant, Connection_Online and Connection_Guarantees (wallet.rs,
    wallet/runtime.rs): connection attempts, the worker of an attempt, going online with its timeout, going
    offline, closing, and dropping the wallet, as interleaved steps that end where the code awaits.  At most
    one attempt is in progress and nothing stays connected without an owner; a stop that returned is a
    barrier for every earlier attempt; every call returns, by a measure and because no reachable state is
    blocked.  A timeout can cancel the attempt of another call, which a run shows.

  \<^bold>\<open>How the code is represented\<close>

  Structs are records, enums are datatypes, and an operation takes the state and gives a result with the
  new state.  An early return or a \<open>?\<close> is a branch of the definition, and the drop of a guard is an
  explicit operation where the scope ends.  Code that several tasks run at once is a step relation whose
  steps end where the code awaits or releases a lock; theorems about it hold for every interleaving.
  Loops of the source are recursive functions with a termination proof; no definition uses fuel.  Bounds
  are those of the source: 64 deferred XSWD events and 16 events per burst, the payload and data-element
  limits, and the widths of the integers, with wrap-around excluded by the checked operations.  Theorems
  about event streams ask for fewer than 2 to the 64 arrivals, which the 64-bit sequence numbers allow.

  \<^bold>\<open>Parameters\<close>

  What is not part of the crate is a field of a record that the definitions take: the hash and address
  codecs, the texts of upstream errors, the upstream wallet and its storage, the daemon, JSON numbers,
  signatures and proofs, the CSV writer and the file system.  What a theorem needs of them is a named
  predicate such as \<open>address_laws\<close>, \<open>storage_laws\<close>, \<open>asset_storage_laws\<close>, \<open>limit_law\<close> or \<open>csv_laws\<close>;
  a witness instantiates each with concrete functions.
  Random values, such as the key a parser of a signing request draws, are arguments of the definitions.

  The interleavings are as fine as the awaits that matter to a theorem, and no finer: a turn of the XSWD
  dispatcher is one step; a load of tables gives tables of the size it was asked for; between the steps of an
  asset request other operations may change the storage but forget no known asset; \<open>storage_laws\<close> and
  \<open>asset_storage_laws\<close> speak of a storage that can be read.

  \<^bold>\<open>Not modelled\<close>

  \<^item> frb_generated.rs is produced by the bridge generator; api.rs, mod.rs and models/network.rs only
    re-export or mirror a type.

  \<^item> wallet/amounts.rs and the operations of wallet/transactions/builders.rs and wallet/transactions.rs that
    take amounts as 64-bit floating-point numbers: HOL and HOL-Library have no IEEE
    arithmetic, and real numbers would change what the code computes.

  \<^item> logger.rs and progress_report.rs write to a stream of the application; time/ reads a clock;
    seed_search_engine.rs calls the search of an upstream word list; log lines and \<open>Debug\<close> output are left
    out everywhere.

  \<^item> xswd/stub.rs gives the XSWD operations on targets without the server: each returns the same
    unsupported error.  address_book.rs and models/address_book_dtos.rs are the legacy address book, whose
    stored form appears here as the input of the migration.
\<close>

end
